theory Spec2Isabelle
  imports Main "HOL-Library.Word"
begin

unbundle bit_operations_syntax

section \<open>Meower-Uploads: file ingestion and lifecycle\<close>

text \<open>
  A shallow embedding of \<^verbatim>\<open>file.go\<close>, \<^verbatim>\<open>utils.go\<close> and the user declaration.
  \<^verbatim>\<open>file.go\<close> holds two revisions of the same file; the model follows the first one
  (the revision with \<^verbatim>\<open>GenerateThumbnail\<close>).

  Everything outside the Go code is a parameter of the model:
  \<^item> the external commands (\<^verbatim>\<open>file\<close>, \<^verbatim>\<open>sha256sum\<close>, \<^verbatim>\<open>magick\<close>, \<^verbatim>\<open>ffmpeg\<close>) are
    functions of the bytes they read, collected in the record \<open>tools\<close>;
  \<^item> the outcome of every fallible effect of one call (random bytes, clock, file
    system, database and object-store failures, the order in which two goroutines
    write a shared variable) is a field of the record \<open>effects\<close>;
  \<^item> the MongoDB collections, the S3 regions, the requests sent to S3 and the ingest
    directories form the record \<open>state\<close>, passed in and returned.
\<close>

subsection \<open>Data\<close>

type_synonym bytes = string
type_synonym region = string

datatype error =
    ErrUnsupportedFile
  | ErrFileBlocked
  | ErrNoDocuments
  | ErrDuplicateKey
  | ErrNotExist
  | ErrExist
  | ErrNoSuchKey
  | ErrExternal string
  | Panic

text \<open>\<^verbatim>\<open>type File struct\<close>. The field \<^verbatim>\<open>Id\<close> is named \<open>Id_file\<close>: \<open>Id\<close> is the
  identity relation of HOL.\<close>

record File =
  Id_file :: string
  Hash :: string
  Bucket :: string
  Mime :: string
  ThumbnailMime :: string
  Size :: int
  Filename :: string
  Width :: int
  Height :: int
  UploadRegion :: string
  UploadedBy :: string
  UploadedAt :: int
  Claimed :: bool

text \<open>The zero value \<^verbatim>\<open>var f File\<close>.\<close>

definition zero_File :: File where
  "zero_File = \<lparr>Id_file = [], Hash = [], Bucket = [], Mime = [], ThumbnailMime = [],
     Size = 0, Filename = [], Width = 0, Height = 0, UploadRegion = [],
     UploadedBy = [], UploadedAt = 0, Claimed = False\<rparr>"

text \<open>\<^verbatim>\<open>type User struct\<close> and \<^verbatim>\<open>const FlagUltraHDUploads int64 = 16\<close>.\<close>

record User =
  Username :: string
  Flags :: "64 word"

definition FlagUltraHDUploads :: "64 word" where
  "FlagUltraHDUploads = 16"

record s3_object =
  content :: bytes
  contentType :: string

datatype s3_request =
    FPutObject region string string bytes string
  | RemoveObject region string string

text \<open>A \<^verbatim>\<open>*minio.Object\<close>: the region, bucket and name it reads from.\<close>

type_synonym object_ref = "region \<times> string \<times> string"

type_synonym scratch = "string \<rightharpoonup> bytes"

record state =
  files :: "File list"
  blocked_files :: "string list"
  s3 :: "region \<Rightarrow> (string \<times> string) \<rightharpoonup> s3_object"
  s3_log :: "s3_request list"
  ingest_dirs :: "string \<rightharpoonup> scratch"

text \<open>Modelled from the spec: the region configuration (\<^verbatim>\<open>s3RegionOrder\<close> and
  \<^verbatim>\<open>s3Clients\<close> are set up outside the files at hand). The spec has the regions in a
  fixed priority order, the first one primary; \<open>s3RegionOrder[0]\<close> is \<open>primary\<close>, and
  \<open>s3Clients\<close> has one client for each region of the order.\<close>

record config =
  primary :: region
  secondary :: "region list"

definition s3Clients :: "config \<Rightarrow> region list" where
  "s3Clients cfg = primary cfg # secondary cfg"

text \<open>A command returns what it wrote to standard output, and an error or none.\<close>

type_synonym cmd_output = "string \<times> error option"

record tools =
  file_mime_type :: "bytes \<Rightarrow> cmd_output"
  sha256sum :: "bytes \<Rightarrow> cmd_output"
  identify_wh :: "bytes \<Rightarrow> cmd_output"
  identify_n :: "bytes \<Rightarrow> cmd_output"
  magick_quality5 :: "bytes \<Rightarrow> bytes option"
  magick_reencode :: "bytes \<Rightarrow> int \<Rightarrow> string \<Rightarrow> error + bytes"
  magick_optimize :: "bytes \<Rightarrow> error + bytes"
  magick_resize :: "bytes \<Rightarrow> int \<Rightarrow> string \<Rightarrow> error + bytes"
  ffmpeg_first_frame :: "bytes \<Rightarrow> error + bytes"

record effects =
  rand_b64 :: "string \<times> error option"
  unix_now :: int
  fs_err :: "string \<Rightarrow> error option"
  db_err :: "string \<Rightarrow> error option"
  put_err :: "string \<Rightarrow> error option"
  get_err :: "string \<Rightarrow> error option"
  remove_err :: "region \<Rightarrow> string \<Rightarrow> error option"
  upload_last :: bool

subsection \<open>Strings\<close>

text \<open>\<^verbatim>\<open>strings.HasPrefix\<close>.\<close>

definition HasPrefix :: "string \<Rightarrow> string \<Rightarrow> bool" where
  "HasPrefix s p = (take (length p) s = p)"

text \<open>\<^verbatim>\<open>strings.Fields\<close>, on the ASCII white space characters.\<close>

definition isSpace :: "char \<Rightarrow> bool" where
  "isSpace c = (c = CHR '' '' \<or> c = CHR 0x09 \<or> c = CHR 0x0A \<or> c = CHR 0x0B
     \<or> c = CHR 0x0C \<or> c = CHR 0x0D)"

fun fields_acc :: "string \<Rightarrow> string \<Rightarrow> string list" where
  "fields_acc w [] = (if w = [] then [] else [w])"
| "fields_acc w (c # cs) =
     (if isSpace c then (if w = [] then fields_acc [] cs else w # fields_acc [] cs)
      else fields_acc (w @ [c]) cs)"

definition Fields :: "string \<Rightarrow> string list" where
  "Fields s = fields_acc [] s"

text \<open>\<^verbatim>\<open>strings.Split(s, ",")\<close>, for a separator of one character.\<close>

fun split_acc :: "char \<Rightarrow> string \<Rightarrow> string \<Rightarrow> string list" where
  "split_acc sep w [] = [w]"
| "split_acc sep w (c # cs) =
     (if c = sep then w # split_acc sep [] cs else split_acc sep (w @ [c]) cs)"

definition Split :: "string \<Rightarrow> char \<Rightarrow> string list" where
  "Split s sep = split_acc sep [] s"

text \<open>Indexing a slice: out of range is a run-time panic.\<close>

definition index :: "'a list \<Rightarrow> nat \<Rightarrow> error + 'a" where
  "index xs i = (if i < length xs then Inr (xs ! i) else Inl Panic)"

text \<open>\<^verbatim>\<open>strconv.Atoi\<close> with the error dropped (\<^verbatim>\<open>n, _ = strconv.Atoi(s)\<close>): 0 on a
  syntax error, the nearest 64-bit value on a range error.\<close>

definition isDigit :: "char \<Rightarrow> bool" where
  "isDigit c = (48 \<le> (of_char c :: nat) \<and> (of_char c :: nat) \<le> 57)"

definition digits_value :: "string \<Rightarrow> int" where
  "digits_value ds = foldl (\<lambda>n c. 10 * n + (int (of_char c) - 48)) 0 ds"

definition Atoi :: "string \<Rightarrow> int" where
  "Atoi s =
     (let neg = (s \<noteq> [] \<and> hd s = CHR ''-'');
          ds = (if s \<noteq> [] \<and> (hd s = CHR ''-'' \<or> hd s = CHR ''+'') then tl s else s)
      in if ds = [] \<or> \<not> list_all isDigit ds then 0
         else if neg then max (- (2 ^ 63)) (- digits_value ds)
         else min (2 ^ 63 - 1) (digits_value ds))"

text \<open>\<^verbatim>\<open>cleanFilename\<close>: every character outside \<^verbatim>\<open>[A-Za-z0-9.\-_+!()$]\<close> becomes
  \<^verbatim>\<open>_\<close>. A \<open>char\<close> stands for one rune of the file name.\<close>

definition filename_char_ok :: "char \<Rightarrow> bool" where
  "filename_char_ok c =
     (let n = (of_char c :: nat)
      in (65 \<le> n \<and> n \<le> 90) \<or> (97 \<le> n \<and> n \<le> 122) \<or> (48 \<le> n \<and> n \<le> 57)
         \<or> c \<in> set ''.-_+!()$'')"

definition cleanFilename :: "string \<Rightarrow> string" where
  "cleanFilename filename = map (\<lambda>c. if filename_char_ok c then c else CHR ''_'') filename"

text \<open>\<^verbatim>\<open>generateId\<close>: the URL-safe base64 text of 18 random bytes comes from the
  effects record; the three \<^verbatim>\<open>ReplaceAll\<close> calls are applied in the order of the code.\<close>

definition ReplaceAll :: "string \<Rightarrow> char \<Rightarrow> char \<Rightarrow> string" where
  "ReplaceAll s old new = map (\<lambda>c. if c = old then new else c) s"

definition generateId :: "effects \<Rightarrow> string \<times> error option" where
  "generateId orc =
     (case snd (rand_b64 orc) of
        Some e \<Rightarrow> ([], Some e)
      | None \<Rightarrow>
          (let id1 = fst (rand_b64 orc);
               id2 = ReplaceAll id1 (CHR ''-'') (CHR ''a'');
               id3 = ReplaceAll id2 (CHR ''_'') (CHR ''b'');
               id4 = ReplaceAll id3 (CHR ''='') (CHR ''c'')
           in (id4, None)))"

subsection \<open>The metadata store\<close>

text \<open>\<^verbatim>\<open>FindOne\<close> with a filter: the first matching document.\<close>

definition FindOne :: "(File \<Rightarrow> bool) \<Rightarrow> File list \<Rightarrow> File option" where
  "FindOne p xs = (case filter p xs of [] \<Rightarrow> None | r # _ \<Rightarrow> Some r)"

text \<open>\<^verbatim>\<open>CountDocuments\<close> with \<^verbatim>\<open>opts.SetLimit(limit)\<close>.\<close>

definition CountDocuments :: "nat \<Rightarrow> ('a \<Rightarrow> bool) \<Rightarrow> 'a list \<Rightarrow> nat" where
  "CountDocuments limit p xs = min limit (length (filter p xs))"

text \<open>\<^verbatim>\<open>DeleteOne\<close> with the filter \<^verbatim>\<open>{"_id": id}\<close>: the first matching document goes.\<close>

fun DeleteOne :: "string \<Rightarrow> File list \<Rightarrow> File list" where
  "DeleteOne i [] = []"
| "DeleteOne i (r # rs) = (if Id_file r = i then rs else r # DeleteOne i rs)"

text \<open>\<^verbatim>\<open>InsertOne\<close>: \<^verbatim>\<open>_id\<close> is the primary key of the collection, a second document
  with the same \<^verbatim>\<open>_id\<close> is refused.\<close>

definition InsertOne :: "effects \<Rightarrow> File \<Rightarrow> state \<Rightarrow> error option \<times> state" where
  "InsertOne orc f s =
     (case db_err orc ''files.InsertOne'' of
        Some e \<Rightarrow> (Some e, s)
      | None \<Rightarrow>
          if Id_file f \<in> set (map Id_file (files s)) then (Some ErrDuplicateKey, s)
          else (None, s\<lparr>files := files s @ [f]\<rparr>))"

text \<open>\<^verbatim>\<open>UpdateMany\<close> with \<^verbatim>\<open>$set thumbnail_mime\<close> on every document of a hash and
  bucket.\<close>

definition UpdateMany_thumbnail_mime ::
  "effects \<Rightarrow> string \<Rightarrow> string \<Rightarrow> string \<Rightarrow> state \<Rightarrow> error option \<times> state" where
  "UpdateMany_thumbnail_mime orc hashHex bucket tm s =
     (case db_err orc ''files.UpdateMany'' of
        Some e \<Rightarrow> (Some e, s)
      | None \<Rightarrow>
          (None, s\<lparr>files := map (\<lambda>r. if Hash r = hashHex \<and> Bucket r = bucket
                                        then r\<lparr>ThumbnailMime := tm\<rparr> else r) (files s)\<rparr>))"

text \<open>\<^verbatim>\<open>GetFile\<close>: by id, among the documents whose \<^verbatim>\<open>uploaded_at\<close> is not 0.\<close>

definition GetFile :: "effects \<Rightarrow> string \<Rightarrow> state \<Rightarrow> File \<times> error option" where
  "GetFile orc i s =
     (case db_err orc ''files.FindOne'' of
        Some e \<Rightarrow> (zero_File, Some e)
      | None \<Rightarrow>
          (case FindOne (\<lambda>r. Id_file r = i \<and> UploadedAt r \<noteq> 0) (files s) of
             None \<Rightarrow> (zero_File, Some ErrNoDocuments)
           | Some r \<Rightarrow> (r, None)))"

text \<open>\<^verbatim>\<open>isFileReferenced\<close> and \<^verbatim>\<open>getBlockStatus\<close>: a failed count is 0.\<close>

definition isFileReferenced :: "effects \<Rightarrow> string \<Rightarrow> string \<Rightarrow> state \<Rightarrow> bool \<times> error option" where
  "isFileReferenced orc bucket hashHex s =
     (case db_err orc ''files.CountDocuments'' of
        Some e \<Rightarrow> (False, Some e)
      | None \<Rightarrow>
          (0 < CountDocuments 1 (\<lambda>r. Hash r = hashHex \<and> Bucket r = bucket) (files s), None))"

definition getBlockStatus :: "effects \<Rightarrow> string \<Rightarrow> state \<Rightarrow> bool \<times> error option" where
  "getBlockStatus orc hashHex s =
     (case db_err orc ''blocked_files.CountDocuments'' of
        Some e \<Rightarrow> (False, Some e)
      | None \<Rightarrow> (0 < CountDocuments 1 (\<lambda>b. b = hashHex) (blocked_files s), None))"

subsection \<open>The object store\<close>

text \<open>\<^verbatim>\<open>FPutObject\<close> on one region: the request is sent; when it succeeds the object is
  stored and the reported size is the length of the file, when it fails the reported
  \<^verbatim>\<open>UploadInfo\<close> is the zero value.\<close>

definition s3_FPutObject ::
  "effects \<Rightarrow> region \<Rightarrow> string \<Rightarrow> string \<Rightarrow> bytes \<Rightarrow> string \<Rightarrow> state
     \<Rightarrow> (int \<times> error option) \<times> state" where
  "s3_FPutObject orc r bucket objName data ct s =
     (let s1 = s\<lparr>s3_log := s3_log s @ [FPutObject r bucket objName data ct]\<rparr>
      in case put_err orc objName of
           Some e \<Rightarrow> ((0, Some e), s1)
         | None \<Rightarrow>
             ((int (length data), None),
              s1\<lparr>s3 := (s3 s1)(r := (s3 s1 r)((bucket, objName) \<mapsto>
                        \<lparr>content = data, contentType = ct\<rparr>))\<rparr>))"

text \<open>\<^verbatim>\<open>go s3Client.RemoveObject(...)\<close>: the request is sent, its result is dropped.\<close>

definition s3_RemoveObject :: "effects \<Rightarrow> region \<Rightarrow> string \<Rightarrow> string \<Rightarrow> state \<Rightarrow> state" where
  "s3_RemoveObject orc r bucket objName s =
     (let s1 = s\<lparr>s3_log := s3_log s @ [RemoveObject r bucket objName]\<rparr>
      in case remove_err orc r objName of
           Some e \<Rightarrow> s1
         | None \<Rightarrow> s1\<lparr>s3 := (s3 s1)(r := (s3 s1 r)((bucket, objName) := None))\<rparr>)"

subsection \<open>Delete and the sweep\<close>

text \<open>The loop \<^verbatim>\<open>for _, s3Client := range s3Clients\<close> of \<^verbatim>\<open>Delete\<close>.\<close>

fun remove_everywhere :: "effects \<Rightarrow> region list \<Rightarrow> string \<Rightarrow> string \<Rightarrow> state \<Rightarrow> state" where
  "remove_everywhere orc [] bucket hashHex s = s"
| "remove_everywhere orc (r # rs) bucket hashHex s =
     remove_everywhere orc rs bucket hashHex
       (s3_RemoveObject orc r bucket (hashHex @ ''_thumbnail'')
          (s3_RemoveObject orc r bucket hashHex s))"

definition Delete :: "config \<Rightarrow> effects \<Rightarrow> File \<Rightarrow> state \<Rightarrow> error option \<times> state" where
  "Delete cfg orc f s =
     (case db_err orc ''files.DeleteOne'' of
        Some e \<Rightarrow> (Some e, s)
      | None \<Rightarrow>
          (let s1 = s\<lparr>files := DeleteOne (Id_file f) (files s)\<rparr>
           in case isFileReferenced orc (Bucket f) (Hash f) s1 of
                (_, Some e) \<Rightarrow> (Some e, s1)
              | (referenced, None) \<Rightarrow>
                  if \<not> referenced
                  then (None, remove_everywhere orc (s3Clients cfg) (Bucket f) (Hash f) s1)
                  else (None, s1)))"

text \<open>\<^verbatim>\<open>cleanupFiles\<close>. Every \<^verbatim>\<open>file.Delete()\<close> of the loop has effects of its own:
  \<open>orcs\<close> gives the effects of the call for each file id.\<close>

fun delete_each :: "config \<Rightarrow> (string \<Rightarrow> effects) \<Rightarrow> File list \<Rightarrow> state \<Rightarrow> error option \<times> state" where
  "delete_each cfg orcs [] s = (None, s)"
| "delete_each cfg orcs (f # fs) s =
     (case Delete cfg (orcs (Id_file f)) f s of
        (Some e, s1) \<Rightarrow> (Some e, s1)
      | (None, s1) \<Rightarrow> delete_each cfg orcs fs s1)"

definition expired :: "int \<Rightarrow> File \<Rightarrow> bool" where
  "expired now r = (Claimed r = False \<and> UploadedAt r < now - 1800)"

definition cleanupFiles ::
  "config \<Rightarrow> effects \<Rightarrow> (string \<Rightarrow> effects) \<Rightarrow> state \<Rightarrow> error option \<times> state" where
  "cleanupFiles cfg orc orcs s =
     (case db_err orc ''files.Find'' of
        Some e \<Rightarrow> (Some e, s)
      | None \<Rightarrow>
          (case db_err orc ''cursor.All'' of
             Some e \<Rightarrow> (Some e, s)
           | None \<Rightarrow> delete_each cfg orcs (filter (expired (unix_now orc)) (files s)) s))"

subsection \<open>Ingest directories and commands\<close>

text \<open>The files of the directory \<^verbatim>\<open>INGEST_DIR/id\<close>.\<close>

definition read_scratch :: "state \<Rightarrow> string \<Rightarrow> string \<Rightarrow> bytes option" where
  "read_scratch s i name = (case ingest_dirs s i of None \<Rightarrow> None | Some d \<Rightarrow> d name)"

definition write_scratch :: "string \<Rightarrow> string \<Rightarrow> bytes \<Rightarrow> state \<Rightarrow> state" where
  "write_scratch i name data s =
     (case ingest_dirs s i of
        None \<Rightarrow> s
      | Some d \<Rightarrow> s\<lparr>ingest_dirs := (ingest_dirs s)(i \<mapsto> d(name \<mapsto> data))\<rparr>)"

definition remove_scratch :: "string \<Rightarrow> string \<Rightarrow> state \<Rightarrow> state" where
  "remove_scratch i name s =
     (case ingest_dirs s i of
        None \<Rightarrow> s
      | Some d \<Rightarrow> s\<lparr>ingest_dirs := (ingest_dirs s)(i \<mapsto> d(name := None))\<rparr>)"

text \<open>\<^verbatim>\<open>os.RemoveAll(ingestDir)\<close>.\<close>

definition RemoveAll :: "string \<Rightarrow> state \<Rightarrow> state" where
  "RemoveAll i s = s\<lparr>ingest_dirs := (ingest_dirs s)(i := None)\<rparr>"

text \<open>\<^verbatim>\<open>os.Mkdir(ingestDir, 0700)\<close>.\<close>

definition Mkdir :: "effects \<Rightarrow> string \<Rightarrow> state \<Rightarrow> error option \<times> state" where
  "Mkdir orc i s =
     (case fs_err orc ''Mkdir'' of
        Some e \<Rightarrow> (Some e, s)
      | None \<Rightarrow>
          if ingest_dirs s i \<noteq> None then (Some ErrExist, s)
          else (None, s\<lparr>ingest_dirs := (ingest_dirs s)(i \<mapsto> Map.empty)\<rparr>))"

text \<open>A command run on a file of the directory fails when the file is not there.\<close>

definition run_on :: "(bytes \<Rightarrow> cmd_output) \<Rightarrow> bytes option \<Rightarrow> cmd_output" where
  "run_on tool file = (case file of None \<Rightarrow> ([], Some ErrNotExist) | Some b \<Rightarrow> tool b)"

definition convert_on :: "(bytes \<Rightarrow> error + bytes) \<Rightarrow> bytes option \<Rightarrow> error + bytes" where
  "convert_on tool file = (case file of None \<Rightarrow> Inl ErrNotExist | Some b \<Rightarrow> tool b)"

text \<open>The client call \<^verbatim>\<open>s3Clients[...].GetObject\<close> and the read of the object it
  returns (\<^verbatim>\<open>io.Copy(dst, obj)\<close>).\<close>

definition s3_GetObject :: "effects \<Rightarrow> region \<Rightarrow> string \<Rightarrow> string \<Rightarrow> error + object_ref" where
  "s3_GetObject orc r bucket objName =
     (case get_err orc objName of Some e \<Rightarrow> Inl e | None \<Rightarrow> Inr (r, bucket, objName))"

definition read_object :: "object_ref \<Rightarrow> state \<Rightarrow> error + bytes" where
  "read_object obj s =
     (case obj of (r, bucket, objName) \<Rightarrow>
        (case s3 s r (bucket, objName) of
           None \<Rightarrow> Inl ErrNoSuchKey
         | Some ob \<Rightarrow> Inr (content ob)))"

subsection \<open>Thumbnails and reads\<close>

text \<open>\<^verbatim>\<open>// Choose format to use for the thumbnail\<close>\<close>

definition thumbnail_format :: "tools \<Rightarrow> File \<Rightarrow> state \<Rightarrow> error + string" where
  "thumbnail_format t f s =
     (if HasPrefix (Mime f) ''image/''
      then (case run_on (identify_n t) (read_scratch s (Id_file f) ''original'') of
              (_, Some e) \<Rightarrow> Inl e
            | (frames, None) \<Rightarrow> Inr (if frames \<noteq> ''1'' then ''gif'' else ''webp''))
      else Inr ''webp'')"

text \<open>\<^verbatim>\<open>// Use largest axis that is smaller than 480px\<close>\<close>

definition thumbnail_size :: "File \<Rightarrow> int" where
  "thumbnail_size f =
     (let desiredSize = (if Width f > Height f then Width f else Height f)
      in if desiredSize > 480 then 480 else desiredSize)"

text \<open>\<^verbatim>\<open>// Get first frame if it's a video\<close>\<close>

definition first_frame :: "tools \<Rightarrow> File \<Rightarrow> state \<Rightarrow> error option \<times> state" where
  "first_frame t f s =
     (if HasPrefix (Mime f) ''video/'' \<and> read_scratch s (Id_file f) ''first_frame.jpg'' = None
      then (case convert_on (ffmpeg_first_frame t) (read_scratch s (Id_file f) ''original'') of
              Inl e \<Rightarrow> (Some e, s)
            | Inr frame \<Rightarrow> (None, write_scratch (Id_file f) ''first_frame.jpg'' frame s))
      else (None, s))"

text \<open>The part of \<^verbatim>\<open>GenerateThumbnail\<close> after the ingest directory is there: format,
  size, first frame, \<^verbatim>\<open>// Create thumbnail\<close>, \<^verbatim>\<open>// Upload thumbnail\<close> and
  \<^verbatim>\<open>// Update file details\<close>.\<close>

definition render_thumbnail ::
  "tools \<Rightarrow> config \<Rightarrow> effects \<Rightarrow> File \<Rightarrow> state \<Rightarrow> error option \<times> File \<times> state" where
  "render_thumbnail t cfg orc f s =
     (case thumbnail_format t f s of
        Inl e \<Rightarrow> (Some e, f, s)
      | Inr format \<Rightarrow>
          (let desiredSize = thumbnail_size f
           in case first_frame t f s of
                (Some e, s1) \<Rightarrow> (Some e, f, s1)
              | (None, s1) \<Rightarrow>
                  (let fp = (if HasPrefix (Mime f) ''video/'' then ''first_frame.jpg''
                             else ''original'')
                   in case convert_on (\<lambda>b. magick_resize t b desiredSize format)
                             (read_scratch s1 (Id_file f) fp) of
                        Inl e \<Rightarrow> (Some e, f, s1)
                      | Inr thumb \<Rightarrow>
                          (let s2 = write_scratch (Id_file f) (''thumbnail.'' @ format) thumb s1
                           in case s3_FPutObject orc (primary cfg) (Bucket f)
                                     (Hash f @ ''_thumbnail'') thumb (''image/'' @ format) s2 of
                                ((_, Some e), sc) \<Rightarrow> (Some e, f, sc)
                              | ((_, None), sc) \<Rightarrow>
                                  (let f1 = f\<lparr>ThumbnailMime := ''image/'' @ format\<rparr>
                                   in case UpdateMany_thumbnail_mime orc (Hash f1) (Bucket f1)
                                             (ThumbnailMime f1) sc of
                                        (Some e, s4) \<Rightarrow> (Some e, f1, s4)
                                      | (None, s4) \<Rightarrow> (None, f1, s4))))))"

text \<open>\<^verbatim>\<open>GetObject\<close> and \<^verbatim>\<open>GenerateThumbnail\<close> call each other. A method on \<^verbatim>\<open>*File\<close>
  returns the file as it leaves it. When the ingest directory is not there,
  \<^verbatim>\<open>GenerateThumbnail\<close> makes it, downloads the canonical object into it and removes
  it on every way out (\<^verbatim>\<open>defer os.RemoveAll(ingestDir)\<close>).\<close>

function GetObject ::
    "tools \<Rightarrow> config \<Rightarrow> effects \<Rightarrow> File \<Rightarrow> bool \<Rightarrow> state
       \<Rightarrow> (error + object_ref) \<times> File \<times> state"
  and GenerateThumbnail ::
    "tools \<Rightarrow> config \<Rightarrow> effects \<Rightarrow> File \<Rightarrow> state \<Rightarrow> error option \<times> File \<times> state"
where
  "GetObject t cfg orc f thumbnail s =
     (let objName = Hash f
      in if thumbnail \<and> Bucket f = ''attachments''
            \<and> (HasPrefix (Mime f) ''image/'' \<or> HasPrefix (Mime f) ''video/'')
         then (if ThumbnailMime f = []
               then (case GenerateThumbnail t cfg orc f s of
                       (Some e, f1, s1) \<Rightarrow> (Inl e, f1, s1)
                     | (None, f1, s1) \<Rightarrow>
                         (s3_GetObject orc (primary cfg) (Bucket f1) (objName @ ''_thumbnail''),
                          f1, s1))
               else (s3_GetObject orc (primary cfg) (Bucket f) (objName @ ''_thumbnail''), f, s))
         else (s3_GetObject orc (primary cfg) (Bucket f) objName, f, s))"
| "GenerateThumbnail t cfg orc f s =
     (if ingest_dirs s (Id_file f) = None
      then (case (case Mkdir orc (Id_file f) s of
                    (Some e, s1) \<Rightarrow> (Some e, f, s1)
                  | (None, s1) \<Rightarrow>
                      (case GetObject t cfg orc f False s1 of
                         (Inl e, f1, s2) \<Rightarrow> (Some e, f1, s2)
                       | (Inr obj, f1, s2) \<Rightarrow>
                           (case fs_err orc ''Create'' of
                              Some e \<Rightarrow> (Some e, f1, s2)
                            | None \<Rightarrow>
                                (case read_object obj s2 of
                                   Inl e \<Rightarrow> (Some e, f1, s2)
                                 | Inr data \<Rightarrow>
                                     (case fs_err orc ''Copy'' of
                                        Some e \<Rightarrow> (Some e, f1, s2)
                                      | None \<Rightarrow>
                                          render_thumbnail t cfg orc f1
                                            (write_scratch (Id_file f1) ''original'' data s2))))))
            of (res, f2, sc) \<Rightarrow> (res, f2, RemoveAll (Id_file f) sc))
      else render_thumbnail t cfg orc f s)"
  by pat_completeness auto
termination
  by (relation "measure (\<lambda>x. case x of
        Inl (t, cfg, orc, f, thumbnail, s) \<Rightarrow> (if thumbnail then 2 else 0)
      | Inr (t, cfg, orc, f, s) \<Rightarrow> 1)") auto

subsection \<open>Ingestion\<close>

text \<open>\<^verbatim>\<open>// Save file\<close>: \<^verbatim>\<open>os.Create\<close> and \<^verbatim>\<open>io.Copy\<close>.\<close>

definition save_original :: "effects \<Rightarrow> string \<Rightarrow> bytes \<Rightarrow> state \<Rightarrow> error option \<times> state" where
  "save_original orc i file s =
     (case fs_err orc ''Create'' of
        Some e \<Rightarrow> (Some e, s)
      | None \<Rightarrow>
          (case fs_err orc ''Copy'' of
             Some e \<Rightarrow> (Some e, write_scratch i ''original'' [] s)
           | None \<Rightarrow> (None, write_scratch i ''original'' file s)))"

text \<open>\<^verbatim>\<open>// "Ultra HD"\<close>: for a flagged uploader an image is re-encoded in place before
  it is hashed. The errors of the three commands are dropped; the second field of the
  output of \<^verbatim>\<open>file\<close> is indexed without a check.\<close>

definition ultra_hd :: "tools \<Rightarrow> User \<Rightarrow> string \<Rightarrow> state \<Rightarrow> error option \<times> state" where
  "ultra_hd t uploader i s =
     (if Flags uploader AND FlagUltraHDUploads \<noteq> 0
      then (let out = fst (run_on (file_mime_type t) (read_scratch s i ''original''))
            in case index (Fields out) 1 of
                 Inl e \<Rightarrow> (Some e, s)
               | Inr m \<Rightarrow>
                   if HasPrefix m ''image/''
                   then (case read_scratch s i ''original'' of
                           None \<Rightarrow> (None, s)
                         | Some b \<Rightarrow>
                             (case magick_quality5 t b of
                                None \<Rightarrow> (None, s)
                              | Some jpg \<Rightarrow> (None, write_scratch i ''original'' jpg s)))
                   else (None, s))
      else (None, s))"

text \<open>\<^verbatim>\<open>// Get file hash\<close>\<close>

definition file_hash :: "tools \<Rightarrow> string \<Rightarrow> state \<Rightarrow> error + string" where
  "file_hash t i s =
     (case run_on (sha256sum t) (read_scratch s i ''original'') of
        (_, Some e) \<Rightarrow> Inl e
      | (out, None) \<Rightarrow> index (Fields out) 0)"

text \<open>\<^verbatim>\<open>// Make sure file isn't blocked\<close>\<close>

definition check_blocked :: "effects \<Rightarrow> string \<Rightarrow> string \<Rightarrow> state \<Rightarrow> error option \<times> state" where
  "check_blocked orc i hashHex s =
     (case getBlockStatus orc hashHex s of
        (blocked, err) \<Rightarrow>
          if blocked \<or> err \<noteq> None
          then (let s1 = remove_scratch i ''original'' s
                in if blocked then (Some ErrFileBlocked, s1) else (err, s1))
          else (None, s))"

text \<open>\<^verbatim>\<open>// Attempt to get existing file details\<close>: \<open>f\<close> stays the zero value when
  there is no document.\<close>

definition existing_file :: "effects \<Rightarrow> string \<Rightarrow> string \<Rightarrow> state \<Rightarrow> error + File" where
  "existing_file orc hashHex bucket s =
     (case db_err orc ''files.FindOne'' of
        Some e \<Rightarrow> (if e = ErrNoDocuments then Inr zero_File else Inl e)
      | None \<Rightarrow>
          (case FindOne (\<lambda>r. Hash r = hashHex \<and> Bucket r = bucket) (files s) of
             None \<Rightarrow> Inr zero_File
           | Some r \<Rightarrow> Inr r))"

text \<open>The steps of \<^verbatim>\<open>IngestMultipartFile\<close> from the ingest directory to the lookup of
  an existing document.\<close>

definition ingest_lookup ::
  "tools \<Rightarrow> effects \<Rightarrow> string \<Rightarrow> string \<Rightarrow> bytes \<Rightarrow> User \<Rightarrow> state
     \<Rightarrow> (error + string \<times> File) \<times> state" where
  "ingest_lookup t orc i bucket file uploader s =
     (case Mkdir orc i s of
        (Some e, s1) \<Rightarrow> (Inl e, s1)
      | (None, s1) \<Rightarrow>
     (case save_original orc i file s1 of
        (Some e, s2) \<Rightarrow> (Inl e, s2)
      | (None, s2) \<Rightarrow>
     (case ultra_hd t uploader i s2 of
        (Some e, sc) \<Rightarrow> (Inl e, sc)
      | (None, sc) \<Rightarrow>
     (case file_hash t i sc of
        Inl e \<Rightarrow> (Inl e, sc)
      | Inr hashHex \<Rightarrow>
     (case check_blocked orc i hashHex sc of
        (Some e, sd) \<Rightarrow> (Inl e, sd)
      | (None, sd) \<Rightarrow>
     (case existing_file orc hashHex bucket sd of
        Inl e \<Rightarrow> (Inl e, sd)
      | Inr f \<Rightarrow> (Inr (hashHex, f), sd)))))))"

text \<open>\<^verbatim>\<open>// Get mime\<close>\<close>

definition detect_mime :: "tools \<Rightarrow> string \<Rightarrow> state \<Rightarrow> error + string" where
  "detect_mime t i s =
     (case run_on (file_mime_type t) (read_scratch s i ''original'') of
        (_, Some e) \<Rightarrow> Inl e
      | (out, None) \<Rightarrow> index (Fields out) 1)"

text \<open>\<^verbatim>\<open>outSlice := strings.Split(string(out), ",")\<close> and the two \<^verbatim>\<open>Atoi\<close>.\<close>

definition parse_dimensions :: "string \<Rightarrow> error + int \<times> int" where
  "parse_dimensions out =
     (let outSlice = Split out (CHR '','')
      in case index outSlice 0 of
           Inl e \<Rightarrow> Inl e
         | Inr w \<Rightarrow> (case index outSlice 1 of
                       Inl e \<Rightarrow> Inl e
                     | Inr h \<Rightarrow> Inr (Atoi w, Atoi h)))"

text \<open>\<^verbatim>\<open>magick identify -format %w,%h\<close> on a file of the ingest directory, the error
  of the command checked.\<close>

definition probe_dimensions :: "tools \<Rightarrow> File \<Rightarrow> string \<Rightarrow> state \<Rightarrow> error + File" where
  "probe_dimensions t f name s =
     (case run_on (identify_wh t) (read_scratch s (Id_file f) name) of
        (_, Some e) \<Rightarrow> Inl e
      | (out, None) \<Rightarrow>
          (case parse_dimensions out of
             Inl e \<Rightarrow> Inl e
           | Inr (w, h) \<Rightarrow> Inr (f\<lparr>Width := w, Height := h\<rparr>)))"

text \<open>\<^verbatim>\<open>FPutObject\<close> of a file of the ingest directory.\<close>

definition FPutObject_file ::
  "effects \<Rightarrow> region \<Rightarrow> string \<Rightarrow> string \<Rightarrow> bytes option \<Rightarrow> string \<Rightarrow> state
     \<Rightarrow> (int \<times> error option) \<times> state" where
  "FPutObject_file orc r bucket objName file ct s =
     (case file of
        None \<Rightarrow> ((0, Some ErrNotExist), s)
      | Some data \<Rightarrow> s3_FPutObject orc r bucket objName data ct s)"

text \<open>The \<^verbatim>\<open>switch bucket\<close> and
  \<^verbatim>\<open>// If one of the axis is less than n, use that size rather than n\<close>.\<close>

definition square_cap :: "string \<Rightarrow> int" where
  "square_cap bucket =
     (if bucket = ''icons'' then 256
      else if bucket = ''emojis'' then 128
      else if bucket = ''stickers'' then 384
      else 0)"

definition square_size :: "string \<Rightarrow> int \<Rightarrow> int \<Rightarrow> int" where
  "square_size bucket width height =
     (let desiredSize = square_cap bucket
      in if width < desiredSize then width
         else if height < desiredSize then height
         else desiredSize)"

text \<open>The branch for icons, emojis and stickers. Two goroutines are started and joined:
  the upload, which sets \<^verbatim>\<open>info\<close>, \<^verbatim>\<open>err\<close> and \<^verbatim>\<open>f.Size\<close>, and the probe of the new
  dimensions, which drops the error of its command. They touch different fields and
  different files; their effects are taken in the order they are started. Nothing reads
  \<^verbatim>\<open>err\<close> after \<^verbatim>\<open>wg.Wait()\<close> in this branch.\<close>

definition ingest_square ::
  "tools \<Rightarrow> config \<Rightarrow> effects \<Rightarrow> string \<Rightarrow> string \<Rightarrow> File \<Rightarrow> state
     \<Rightarrow> (error + File) \<times> state" where
  "ingest_square t cfg orc bucket hashHex f s =
     (if \<not> HasPrefix (Mime f) ''image/'' then (Inl ErrUnsupportedFile, s)
      else
        (case run_on (identify_n t) (read_scratch s (Id_file f) ''original'') of
           (_, Some e) \<Rightarrow> (Inl e, s)
         | (frames, None) \<Rightarrow>
             (let format = (if frames \<noteq> ''1'' then ''gif'' else ''webp'');
                  f1 = f\<lparr>Mime := (if frames \<noteq> ''1'' then ''image/gif'' else ''image/webp'')\<rparr>;
                  desiredSize = square_size bucket (Width f1) (Height f1)
              in case convert_on (\<lambda>b. magick_reencode t b desiredSize format)
                        (read_scratch s (Id_file f) ''original'') of
                   Inl e \<Rightarrow> (Inl e, s)
                 | Inr data \<Rightarrow>
                     (let s1 = write_scratch (Id_file f) (''.'' @ format) data s
                      in case s3_FPutObject orc (primary cfg) bucket hashHex data
                                (''image/'' @ format) s1 of
                           ((sz, err), s2) \<Rightarrow>
                             (let f2 = f1\<lparr>Size := sz\<rparr>;
                                  out = fst (run_on (identify_wh t)
                                               (read_scratch s2 (Id_file f) (''.'' @ format)))
                              in case parse_dimensions out of
                                   Inl e \<Rightarrow> (Inl e, s2)
                                 | Inr (w, h) \<Rightarrow> (Inr (f2\<lparr>Width := w, Height := h\<rparr>), s2))))))"

text \<open>The attachment branches. The upload goroutine and the thumbnail goroutine both
  assign the shared \<^verbatim>\<open>err\<close>; after \<^verbatim>\<open>wg.Wait()\<close> it holds the value written last,
  which is the upload's when \<open>upload_last\<close> holds. The effects on the state are taken
  in the order the goroutines are started.\<close>

definition ingest_attachment_image ::
  "tools \<Rightarrow> config \<Rightarrow> effects \<Rightarrow> string \<Rightarrow> string \<Rightarrow> File \<Rightarrow> state
     \<Rightarrow> (error + File) \<times> state" where
  "ingest_attachment_image t cfg orc bucket hashHex f s =
     (case convert_on (magick_optimize t) (read_scratch s (Id_file f) ''original'') of
        Inl e \<Rightarrow> (Inl e, s)
      | Inr data \<Rightarrow>
          (let s1 = write_scratch (Id_file f) ''optimized'' data s
           in case s3_FPutObject orc (primary cfg) bucket hashHex data (Mime f) s1 of
                ((sz, put_e), s2) \<Rightarrow>
                  (case GenerateThumbnail t cfg orc (f\<lparr>Size := sz\<rparr>) s2 of
                     (thumb_e, f2, sc) \<Rightarrow>
                       (case (if upload_last orc then put_e else thumb_e) of
                          Some e \<Rightarrow> (Inl e, sc)
                        | None \<Rightarrow> (Inr f2, sc)))))"

definition ingest_attachment_video ::
  "tools \<Rightarrow> config \<Rightarrow> effects \<Rightarrow> string \<Rightarrow> string \<Rightarrow> File \<Rightarrow> state
     \<Rightarrow> (error + File) \<times> state" where
  "ingest_attachment_video t cfg orc bucket hashHex f s =
     (case FPutObject_file orc (primary cfg) bucket hashHex
             (read_scratch s (Id_file f) ''original'') (Mime f) s of
        ((sz, put_e), s1) \<Rightarrow>
          (case convert_on (ffmpeg_first_frame t) (read_scratch s1 (Id_file f) ''original'') of
             Inl e \<Rightarrow> (Inl e, s1)
           | Inr frame \<Rightarrow>
               (let s2 = write_scratch (Id_file f) ''first_frame.jpg'' frame s1
                in case probe_dimensions t (f\<lparr>Size := sz\<rparr>) ''first_frame.jpg'' s2 of
                     Inl e \<Rightarrow> (Inl e, s2)
                   | Inr f2 \<Rightarrow>
                       (case GenerateThumbnail t cfg orc f2 s2 of
                          (thumb_e, f3, sc) \<Rightarrow>
                            (case (if upload_last orc then put_e else thumb_e) of
                               Some e \<Rightarrow> (Inl e, sc)
                             | None \<Rightarrow> (Inr f3, sc))))))"

definition ingest_attachment_other ::
  "config \<Rightarrow> effects \<Rightarrow> string \<Rightarrow> string \<Rightarrow> File \<Rightarrow> state \<Rightarrow> (error + File) \<times> state" where
  "ingest_attachment_other cfg orc bucket hashHex f s =
     (case FPutObject_file orc (primary cfg) bucket hashHex
             (read_scratch s (Id_file f) ''original'') (Mime f) s of
        ((_, Some e), s1) \<Rightarrow> (Inl e, s1)
      | ((sz, None), s1) \<Rightarrow> (Inr (f\<lparr>Size := sz\<rparr>), s1))"

text \<open>The \<^verbatim>\<open>else\<close> branch of \<^verbatim>\<open>// Process and save file\<close>: new content.\<close>

definition ingest_new ::
  "tools \<Rightarrow> config \<Rightarrow> effects \<Rightarrow> string \<Rightarrow> string \<Rightarrow> string \<Rightarrow> string \<Rightarrow> User \<Rightarrow> state
     \<Rightarrow> (error + File) \<times> state" where
  "ingest_new t cfg orc i bucket hashHex filename uploader s =
     (let f = zero_File\<lparr>Id_file := i, Hash := hashHex, Bucket := bucket,
                Filename := cleanFilename filename, UploadRegion := primary cfg,
                UploadedBy := Username uploader, UploadedAt := unix_now orc\<rparr>
      in case detect_mime t i s of
           Inl e \<Rightarrow> (Inl e, s)
         | Inr m \<Rightarrow>
             (case (if HasPrefix m ''image/''
                    then probe_dimensions t (f\<lparr>Mime := m\<rparr>) ''original'' s
                    else Inr (f\<lparr>Mime := m\<rparr>)) of
                Inl e \<Rightarrow> (Inl e, s)
              | Inr f2 \<Rightarrow>
                  if bucket = ''icons'' \<or> bucket = ''emojis'' \<or> bucket = ''stickers''
                  then ingest_square t cfg orc bucket hashHex f2 s
                  else if bucket = ''attachments''
                  then (if HasPrefix (Mime f2) ''image''
                        then ingest_attachment_image t cfg orc bucket hashHex f2 s
                        else if HasPrefix (Mime f2) ''video''
                        then ingest_attachment_video t cfg orc bucket hashHex f2 s
                        else ingest_attachment_other cfg orc bucket hashHex f2 s)
                  else (Inr f2, s)))"

text \<open>\<^verbatim>\<open>// Process and save file\<close>: the copy of an existing document, or new content.\<close>

definition ingest_process ::
  "tools \<Rightarrow> config \<Rightarrow> effects \<Rightarrow> string \<Rightarrow> string \<Rightarrow> string \<Rightarrow> File \<Rightarrow> string \<Rightarrow> User \<Rightarrow> state
     \<Rightarrow> (error + File) \<times> state" where
  "ingest_process t cfg orc i bucket hashHex f filename uploader s =
     (if Hash f = hashHex
      then (Inr (f\<lparr>Id_file := i, Filename := cleanFilename filename,
                    UploadedBy := Username uploader, UploadedAt := unix_now orc\<rparr>), s)
      else ingest_new t cfg orc i bucket hashHex filename uploader s)"

text \<open>\<^verbatim>\<open>IngestMultipartFile\<close> returns a file, an error, or both (a failed insert
  returns \<^verbatim>\<open>&f, err\<close>). The ingest directory is removed on every way out after the id
  is there (\<^verbatim>\<open>defer os.RemoveAll(ingestDir)\<close>).\<close>

definition IngestMultipartFile ::
  "tools \<Rightarrow> config \<Rightarrow> effects \<Rightarrow> string \<Rightarrow> bytes \<Rightarrow> string \<Rightarrow> User \<Rightarrow> state
     \<Rightarrow> (File option \<times> error option) \<times> state" where
  "IngestMultipartFile t cfg orc bucket file filename uploader s =
     (case generateId orc of
        (_, Some e) \<Rightarrow> ((None, Some e), s)
      | (i, None) \<Rightarrow>
          (case (case ingest_lookup t orc i bucket file uploader s of
                   (Inl e, s1) \<Rightarrow> ((None, Some e), s1)
                 | (Inr (hashHex, f0), s1) \<Rightarrow>
                     (case ingest_process t cfg orc i bucket hashHex f0 filename uploader s1 of
                        (Inl e, s2) \<Rightarrow> ((None, Some e), s2)
                      | (Inr f, s2) \<Rightarrow>
                          (case InsertOne orc f s2 of
                             (Some e, sc) \<Rightarrow> ((Some f, Some e), sc)
                           | (None, sc) \<Rightarrow> ((Some f, None), sc))))
           of (res, sd) \<Rightarrow> (res, RemoveAll i sd)))"

subsection \<open>What the commands print\<close>

text \<open>The decimal text of a number.\<close>

function decimal :: "nat \<Rightarrow> string" where
  "decimal n = (if n < 10 then [''0123456789'' ! n]
                else decimal (n div 10) @ [''0123456789'' ! (n mod 10)])"
  by pat_completeness auto
termination
  by (relation "measure id") auto

declare decimal.simps [simp del]

text \<open>What \<^verbatim>\<open>magick identify -format %w,%h\<close> prints for an image of \<open>n\<close> frames of \<open>w\<close> by
  \<open>h\<close> pixels: the format once for every frame, and nothing between two frames. This is
  the behaviour of ImageMagick, not of the Go code; a statement that relies on it has
  it as a hypothesis on the field \<open>identify_wh\<close> of the commands.\<close>

definition identify_prints :: "nat \<Rightarrow> nat \<Rightarrow> nat \<Rightarrow> string" where
  "identify_prints n w h = concat (replicate n (decimal w @ '','' @ decimal h))"

subsection \<open>A small world to run the model in\<close>

definition ex_cfg :: config where
  "ex_cfg = \<lparr>primary = ''eu'', secondary = [''us'']\<rparr>"

text \<open>No effect fails; the clock reads 10000.\<close>

definition ex_quiet :: effects where
  "ex_quiet = \<lparr>rand_b64 = (''Zm9v-_=='', None), unix_now = 10000, fs_err = (\<lambda>_. None),
     db_err = (\<lambda>_. None), put_err = (\<lambda>_. None), get_err = (\<lambda>_. None),
     remove_err = (\<lambda>_ _. None), upload_last = False\<rparr>"

text \<open>Files are told apart by their first bytes: \<^verbatim>\<open>PNG\<close> stands for a picture of 1000
  by 500 pixels, \<^verbatim>\<open>JPG\<close> for a picture of 100 by 50 pixels and \<^verbatim>\<open>GIF\<close> for an animation
  of 10 frames of 100 by 50 pixels, for which \<^verbatim>\<open>identify\<close> prints its format once per
  frame.\<close>

definition ex_tools :: tools where
  "ex_tools = \<lparr>
     file_mime_type = (\<lambda>b. (''/ingest/original: '' @
         (if HasPrefix b ''PNG'' \<or> HasPrefix b ''q5-PNG'' then ''image/png''
          else if HasPrefix b ''GIF'' then ''image/gif''
          else if HasPrefix b ''JPG'' then ''image/jpeg''
          else if HasPrefix b ''MP4'' then ''video/mp4''
          else ''text/plain''), None)),
     sha256sum = (\<lambda>b. (''h-'' @ b @ ''  /ingest/original'', None)),
     identify_wh = (\<lambda>b.
         (if HasPrefix b ''PNG'' then ''1000,500''
          else if HasPrefix b ''GIF''
          then ''100,50100,50100,50100,50100,50100,50100,50100,50100,50100,50''
          else if HasPrefix b ''JPG'' then ''100,50''
          else if HasPrefix b ''webp-'' then ''256,128''
          else if HasPrefix b ''frame-'' then ''640,360''
          else ''0,0'', None)),
     identify_n = (\<lambda>b. (if HasPrefix b ''GIF'' then ''10101010101010101010'' else ''1'', None)),
     magick_quality5 = (\<lambda>b. Some (''q5-'' @ b)),
     magick_reencode = (\<lambda>b n format. Inr (format @ ''-'' @ b)),
     magick_optimize = (\<lambda>b. Inr (''opt-'' @ b)),
     magick_resize = (\<lambda>b n format. Inr (''thumb-'' @ b)),
     ffmpeg_first_frame = (\<lambda>b. Inr (''frame-'' @ b))\<rparr>"

text \<open>The same commands, with a codec whose results name the box they were made for.\<close>

definition ex_tools_box :: tools where
  "ex_tools_box = ex_tools\<lparr>
     identify_wh := (\<lambda>b. if HasPrefix b ''webp-100x100-JPG'' then (''100,50'', None)
                          else identify_wh ex_tools b),
     magick_reencode := (\<lambda>b n format.
         Inr (format @ ''-'' @ decimal (nat n) @ ''x'' @ decimal (nat n) @ ''-'' @ b)),
     magick_resize := (\<lambda>b n format.
         Inr (''thumb-'' @ decimal (nat n) @ ''x'' @ decimal (nat n) @ ''-'' @ b))\<rparr>"

definition ex_user :: "string \<Rightarrow> 64 word \<Rightarrow> User" where
  "ex_user name fl = \<lparr>Username = name, Flags = fl\<rparr>"

definition ex_file :: "string \<Rightarrow> string \<Rightarrow> int \<Rightarrow> bool \<Rightarrow> File" where
  "ex_file i h uploaded c = zero_File\<lparr>Id_file := i, Hash := h, Bucket := ''attachments'',
     Mime := ''text/plain'', Size := 3, UploadRegion := ''eu'', UploadedBy := ''alice'',
     UploadedAt := uploaded, Claimed := c\<rparr>"

definition ex_objects :: "region \<Rightarrow> (string \<times> string) \<rightharpoonup> s3_object" where
  "ex_objects = (\<lambda>r. if r = ''eu'' \<or> r = ''us''
       then [(''attachments'', ''h1'') \<mapsto> \<lparr>content = ''abc'', contentType = ''text/plain''\<rparr>,
             (''attachments'', ''h1_thumbnail'') \<mapsto> \<lparr>content = ''t'', contentType = ''image/webp''\<rparr>]
       else Map.empty)"

definition ex_state :: "File list \<Rightarrow> state" where
  "ex_state fs = \<lparr>files = fs, blocked_files = [''bad''], s3 = ex_objects, s3_log = [],
     ingest_dirs = Map.empty\<rparr>"

definition ex_sweep_state :: state where
  "ex_sweep_state = ex_state [ex_file ''a'' ''h1'' 5 False, ex_file ''b'' ''h1'' 9000 False,
     ex_file ''c'' ''h2'' 5 True]"

definition ex_icon :: File where
  "ex_icon = (ex_file ''i'' ''h3'' 7 True)\<lparr>Bucket := ''icons'', Mime := ''image/webp''\<rparr>"

definition ex_photo :: File where
  "ex_photo = (ex_file ''p'' ''h1'' 7 True)\<lparr>Mime := ''image/png'', ThumbnailMime := ''image/webp'',
     Width := 1000, Height := 500\<rparr>"

definition ex_upload_photo :: File where
  "ex_upload_photo = (ex_file ''p'' ''h1'' 7 False)\<lparr>Mime := ''image/png'', Width := 1000,
     Height := 500\<rparr>"

definition ex_photo_state :: state where
  "ex_photo_state = (ex_state [])\<lparr>ingest_dirs := [''p'' \<mapsto> [''original'' \<mapsto> ''PNG'']]\<rparr>"

text \<open>Effects in which every write to the object store fails, and effects of a later
  call.\<close>

definition ex_put_fails :: effects where
  "ex_put_fails = ex_quiet\<lparr>put_err := (\<lambda>_. Some (ErrExternal ''no route to host''))\<rparr>"

definition ex_later :: effects where
  "ex_later = ex_quiet\<lparr>rand_b64 := (''YmFy'', None), unix_now := 10060\<rparr>"

text \<open>Uploads: a picture as an icon; a picture as an attachment, by an uploader with
  the given flags, and the same bytes again by an uploader without flags; an animation
  as an emoji; a small picture as an icon and an animation as an attachment, with the
  codec that names its boxes; a text as an icon.\<close>

definition ex_icon_upload :: "effects \<Rightarrow> (File option \<times> error option) \<times> state" where
  "ex_icon_upload orc = IngestMultipartFile ex_tools ex_cfg orc ''icons'' ''PNG'' ''me.png''
     (ex_user ''bob'' 0) (ex_state [ex_file ''a'' ''h1'' 5 False])"

definition ex_first :: "64 word \<Rightarrow> (File option \<times> error option) \<times> state" where
  "ex_first fl = IngestMultipartFile ex_tools ex_cfg ex_quiet ''attachments'' ''PNG'' ''a.png''
     (ex_user ''bob'' fl) (ex_state [ex_file ''a'' ''h1'' 5 False])"

definition ex_second :: "64 word \<Rightarrow> (File option \<times> error option) \<times> state" where
  "ex_second fl = IngestMultipartFile ex_tools ex_cfg ex_later ''attachments'' ''PNG'' ''b.png''
     (ex_user ''carol'' 0) (snd (ex_first fl))"

definition ex_emoji_upload :: "(File option \<times> error option) \<times> state" where
  "ex_emoji_upload = IngestMultipartFile ex_tools ex_cfg ex_quiet ''emojis'' ''GIF'' ''party.gif''
     (ex_user ''bob'' 0) (ex_state [ex_file ''a'' ''h1'' 5 False])"


definition ex_animation_upload :: "(File option \<times> error option) \<times> state" where
  "ex_animation_upload = IngestMultipartFile ex_tools_box ex_cfg ex_quiet ''attachments'' ''GIF''
     ''party.gif'' (ex_user ''bob'' 0) (ex_state [ex_file ''a'' ''h1'' 5 False])"

definition ex_text_upload :: "(File option \<times> error option) \<times> state" where
  "ex_text_upload = IngestMultipartFile ex_tools ex_cfg ex_quiet ''icons'' ''abc'' ''notes.txt''
     (ex_user ''bob'' 0) (ex_state [ex_file ''a'' ''h1'' 5 False])"

subsection \<open>Notions used in the statements\<close>

text \<open>A request that writes the canonical object of a hash in a bucket.\<close>

definition canonical_put :: "string \<Rightarrow> string \<Rightarrow> s3_request \<Rightarrow> bool" where
  "canonical_put bucket hashHex q =
     (case q of FPutObject r b k d ct \<Rightarrow> b = bucket \<and> k = hashHex | RemoveObject r b k \<Rightarrow> False)"

text \<open>The file a thumbnail is rendered from: the file \<^verbatim>\<open>original\<close> of the ingest
  directory, or for a video its first frame, taken from \<^verbatim>\<open>first_frame.jpg\<close> when that
  is there. Without an ingest directory the original is the canonical object of the
  primary region.\<close>

definition render_source :: "tools \<Rightarrow> File \<Rightarrow> state \<Rightarrow> bytes option" where
  "render_source t f s =
     (if HasPrefix (Mime f) ''video/''
      then (case read_scratch s (Id_file f) ''first_frame.jpg'' of
              Some frame \<Rightarrow> Some frame
            | None \<Rightarrow>
                (case read_scratch s (Id_file f) ''original'' of
                   None \<Rightarrow> None
                 | Some b \<Rightarrow> (case ffmpeg_first_frame t b of Inl e \<Rightarrow> None | Inr frame \<Rightarrow> Some frame)))
      else read_scratch s (Id_file f) ''original'')"

definition thumbnail_source :: "tools \<Rightarrow> config \<Rightarrow> File \<Rightarrow> state \<Rightarrow> bytes option" where
  "thumbnail_source t cfg f s =
     (case ingest_dirs s (Id_file f) of
        Some d \<Rightarrow> render_source t f s
      | None \<Rightarrow>
          (case s3 s (primary cfg) (Bucket f, Hash f) of
             None \<Rightarrow> None
           | Some ob \<Rightarrow>
               render_source t f
                 (s\<lparr>ingest_dirs := (ingest_dirs s)(Id_file f \<mapsto> [''original'' \<mapsto> content ob])\<rparr>)))"

text \<open>The bytes that are hashed: the upload, or its re-encoding when the uploader has the
  flag and \<^verbatim>\<open>file\<close> reports an image.\<close>

definition hashed_bytes :: "tools \<Rightarrow> User \<Rightarrow> bytes \<Rightarrow> bytes" where
  "hashed_bytes t uploader file =
     (if Flags uploader AND FlagUltraHDUploads \<noteq> 0
      then (case index (Fields (fst (file_mime_type t file))) 1 of
              Inl e \<Rightarrow> file
            | Inr m \<Rightarrow>
                if HasPrefix m ''image/''
                then (case magick_quality5 t file of None \<Rightarrow> file | Some jpg \<Rightarrow> jpg)
                else file)
      else file)"

text \<open>A document without its thumbnail MIME type, the one field that
  \<^verbatim>\<open>GenerateThumbnail\<close> updates in the collection.\<close>

definition without_thumbnail :: "File \<Rightarrow> File" where
  "without_thumbnail r = r\<lparr>ThumbnailMime := []\<rparr>"

text \<open>Two files that stand for the same upload: they agree on every field but the
  attributes derived from the content.\<close>

definition same_upload :: "File \<Rightarrow> File \<Rightarrow> bool" where
  "same_upload f f' = (Id_file f' = Id_file f \<and> Hash f' = Hash f \<and> Bucket f' = Bucket f
     \<and> Filename f' = Filename f \<and> UploadRegion f' = UploadRegion f
     \<and> UploadedBy f' = UploadedBy f \<and> UploadedAt f' = UploadedAt f \<and> Claimed f' = Claimed f)"

text \<open>The requests of one ingestion of new content: one write of the canonical object,
  followed by at most one write of its thumbnail.\<close>

definition one_canonical_put :: "config \<Rightarrow> string \<Rightarrow> string \<Rightarrow> s3_request list \<Rightarrow> bool" where
  "one_canonical_put cfg bucket h qs =
     (\<exists>data ct rest. qs = FPutObject (primary cfg) bucket h data ct # rest
        \<and> (rest = [] \<or> (\<exists>th ct'. rest = [FPutObject (primary cfg) bucket (h @ ''_thumbnail'') th ct'])))"

section \<open>Properties\<close>

lemmas ex_defs = ex_cfg_def ex_quiet_def ex_tools_def ex_user_def ex_file_def ex_objects_def
  ex_state_def ex_sweep_state_def ex_icon_def ex_photo_def ex_upload_photo_def ex_photo_state_def
  ex_put_fails_def ex_later_def zero_File_def

subsection \<open>The metadata store\<close>

lemma DeleteOne_filter: "distinct (map Id_file xs) \<Longrightarrow> DeleteOne i xs = filter (\<lambda>r. Id_file r \<noteq> i) xs"
  by (induction xs) (auto simp: image_iff intro!: filter_True[symmetric])

lemma DeleteOne_keeps: "r \<in> set xs \<Longrightarrow> Id_file r \<noteq> i \<Longrightarrow> r \<in> set (DeleteOne i xs)"
  by (induction xs) auto

lemma filter_DeleteOne: "(\<And>r. p r \<Longrightarrow> Id_file r \<noteq> i) \<Longrightarrow> filter p (DeleteOne i xs) = filter p xs"
  by (induction xs) auto

lemma files_s3_RemoveObject: "files (s3_RemoveObject orc r b k s) = files s"
  by (simp add: s3_RemoveObject_def Let_def split: option.splits)

lemma files_remove_everywhere: "files (remove_everywhere orc rs b h s) = files s"
  by (induction rs arbitrary: s) (simp_all add: files_s3_RemoveObject)

lemma Delete_files_ok:
  "Delete cfg orc f s = (None, s') \<Longrightarrow> files s' = DeleteOne (Id_file f) (files s)"
  by (cases "db_err orc ''files.DeleteOne''"; cases "db_err orc ''files.CountDocuments''")
     (auto simp: Delete_def Let_def isFileReferenced_def files_remove_everywhere split: if_splits)

lemma Delete_files_any:
  "Delete cfg orc f s = (res, s') \<Longrightarrow>
     files s' = files s \<or> files s' = DeleteOne (Id_file f) (files s)"
  by (cases "db_err orc ''files.DeleteOne''"; cases "db_err orc ''files.CountDocuments''")
     (auto simp: Delete_def Let_def isFileReferenced_def files_remove_everywhere split: if_splits)

lemma Delete_files:
  "Delete cfg orc f s = (res, s') \<Longrightarrow>
     (files s' = files s \<and> res \<noteq> None) \<or> files s' = DeleteOne (Id_file f) (files s)"
  using Delete_files_ok[of cfg orc f s s'] Delete_files_any[of cfg orc f s res s']
  by (cases res) auto

lemma delete_each_files:
  "distinct (map Id_file (files s)) \<Longrightarrow> delete_each cfg orcs fs s = (res, s') \<Longrightarrow>
     (\<exists>ds. set ds \<subseteq> Id_file ` set fs \<and> files s' = filter (\<lambda>r. Id_file r \<notin> set ds) (files s))
     \<and> (res = None \<longrightarrow> files s' = filter (\<lambda>r. Id_file r \<notin> Id_file ` set fs) (files s))"
proof (induction fs arbitrary: s)
  case Nil
  then show ?case by (auto intro: exI[of _ "[]"])
next
  case (Cons f fs)
  obtain r1 s1 where d: "Delete cfg (orcs (Id_file f)) f s = (r1, s1)"
    by (cases "Delete cfg (orcs (Id_file f)) f s")
  from Delete_files[OF d] Cons.prems(1)
  have f1: "(files s1 = files s \<and> r1 \<noteq> None) \<or> files s1 = filter (\<lambda>r. Id_file r \<noteq> Id_file f) (files s)"
    by (simp add: DeleteOne_filter)
  show ?case
  proof (cases r1)
    case (Some e)
    with d Cons.prems(2) have "res = Some e" "s' = s1" by auto
    with f1 show ?thesis
    proof (elim disjE)
      assume "files s1 = files s \<and> r1 \<noteq> None"
      with \<open>s' = s1\<close> \<open>res = Some e\<close> show ?thesis by (auto intro: exI[of _ "[]"])
    next
      assume "files s1 = filter (\<lambda>r. Id_file r \<noteq> Id_file f) (files s)"
      with \<open>s' = s1\<close> \<open>res = Some e\<close> show ?thesis by (auto intro: exI[of _ "[Id_file f]"])
    qed
  next
    case None
    with f1 have fs1: "files s1 = filter (\<lambda>r. Id_file r \<noteq> Id_file f) (files s)" by simp
    then have dist1: "distinct (map Id_file (files s1))"
      using Cons.prems(1) by (simp add: distinct_map_filter)
    from None d Cons.prems(2) have rest: "delete_each cfg orcs fs s1 = (res, s')" by simp
    from Cons.IH[OF dist1 rest] obtain ds where
      ds: "set ds \<subseteq> Id_file ` set fs" "files s' = filter (\<lambda>r. Id_file r \<notin> set ds) (files s1)"
      and ok: "res = None \<longrightarrow> files s' = filter (\<lambda>r. Id_file r \<notin> Id_file ` set fs) (files s1)"
      by blast
    have "files s' = filter (\<lambda>r. Id_file r \<notin> set (Id_file f # ds)) (files s)"
      using ds(2) fs1 by (auto intro: filter_cong)
    moreover have "set (Id_file f # ds) \<subseteq> Id_file ` set (f # fs)" using ds(1) by auto
    moreover have "res = None \<longrightarrow> files s' = filter (\<lambda>r. Id_file r \<notin> Id_file ` set (f # fs)) (files s)"
      using ok fs1 by (auto intro: filter_cong)
    ultimately show ?thesis by blast
  qed
qed

lemma expired_ids:
  assumes "distinct (map Id_file xs)" "r \<in> set xs"
  shows "Id_file r \<in> Id_file ` set (filter p xs) \<longleftrightarrow> p r"
  using assms by (auto simp: distinct_map inj_on_def)

lemma GetFile_DeleteOne:
  assumes "files s' = DeleteOne j (files s)" and "i \<noteq> j"
  shows "GetFile orc i s' = GetFile orc i s"
proof -
  have "filter (\<lambda>r. Id_file r = i \<and> UploadedAt r \<noteq> 0) (DeleteOne j (files s))
      = filter (\<lambda>r. Id_file r = i \<and> UploadedAt r \<noteq> 0) (files s)"
    by (rule filter_DeleteOne) (use assms(2) in auto)
  then have eq: "FindOne (\<lambda>r. Id_file r = i \<and> UploadedAt r \<noteq> 0) (files s')
                = FindOne (\<lambda>r. Id_file r = i \<and> UploadedAt r \<noteq> 0) (files s)"
    by (simp add: FindOne_def assms(1))
  show ?thesis unfolding GetFile_def eq by (rule refl)
qed

lemma s3_log_remove_everywhere:
  "s3_log (remove_everywhere orc rs b h s) =
     s3_log s @ concat (map (\<lambda>r. [RemoveObject r b h, RemoveObject r b (h @ ''_thumbnail'')]) rs)"
  by (induction rs arbitrary: s) (simp_all add: s3_RemoveObject_def Let_def split: option.splits)

lemma s3_remove_everywhere:
  "s3 (remove_everywhere orc rs b h s) rg (b', k) =
     (if rg \<in> set rs \<and> b' = b \<and> (k = h \<or> k = h @ ''_thumbnail'')
         \<and> remove_err orc rg k = None
      then None else s3 s rg (b', k))"
  by (induction rs arbitrary: s)
     (auto simp: s3_RemoveObject_def Let_def split: option.splits)

subsection \<open>Delete\<close>

text \<open>C5: \<^verbatim>\<open>Delete\<close> removes the document of the file. When no document of the same hash
  and bucket is left, a removal of the canonical object and of the thumbnail object is
  sent to every configured region, and the object is gone in each region whose removal
  succeeds, whatever happens in the others. When such a document is left, no request is
  sent, the objects stay, and every other document is still there and is found by
  \<^verbatim>\<open>GetFile\<close> as before.\<close>

theorem Delete_reference_counted:
  assumes "distinct (map Id_file (files s))" and "Delete cfg orc f s = (None, s')"
  shows "Id_file f \<notin> Id_file ` set (files s')
       \<and> (\<forall>r\<in>set (files s). Id_file r \<noteq> Id_file f \<longrightarrow>
             r \<in> set (files s') \<and> GetFile orc2 (Id_file r) s' = GetFile orc2 (Id_file r) s)
       \<and> ((\<forall>r\<in>set (files s'). \<not> (Hash r = Hash f \<and> Bucket r = Bucket f)) \<longrightarrow>
            (\<forall>rg\<in>set (s3Clients cfg). \<forall>k\<in>{Hash f, Hash f @ ''_thumbnail''}.
               RemoveObject rg (Bucket f) k \<in> set (s3_log s')
               \<and> (remove_err orc rg k = None \<longrightarrow> s3 s' rg (Bucket f, k) = None)))
       \<and> ((\<exists>r\<in>set (files s'). Hash r = Hash f \<and> Bucket r = Bucket f) \<longrightarrow>
            s3 s' = s3 s \<and> s3_log s' = s3_log s)"
proof -
  have fs': "files s' = DeleteOne (Id_file f) (files s)"
    by (rule Delete_files_ok[OF assms(2)])
  have c1: "Id_file f \<notin> Id_file ` set (files s')"
    by (auto simp: fs' DeleteOne_filter[OF assms(1)])
  have c2: "\<forall>r\<in>set (files s). Id_file r \<noteq> Id_file f \<longrightarrow>
             r \<in> set (files s') \<and> GetFile orc2 (Id_file r) s' = GetFile orc2 (Id_file r) s"
    using GetFile_DeleteOne[OF fs'] by (auto simp: fs' DeleteOne_keeps)
  have ok: "db_err orc ''files.DeleteOne'' = None" "db_err orc ''files.CountDocuments'' = None"
    using assms(2)
    by (cases "db_err orc ''files.DeleteOne''"; cases "db_err orc ''files.CountDocuments''";
        simp add: Delete_def Let_def isFileReferenced_def)+
  define s1 where "s1 = s\<lparr>files := DeleteOne (Id_file f) (files s)\<rparr>"
  define referenced where
    "referenced = (0 < CountDocuments 1 (\<lambda>r. Hash r = Hash f \<and> Bucket r = Bucket f) (files s1))"
  have ref: "referenced \<longleftrightarrow> (\<exists>r\<in>set (files s'). Hash r = Hash f \<and> Bucket r = Bucket f)"
    by (auto simp: referenced_def CountDocuments_def s1_def fs' filter_empty_conv)
  have s': "s' = (if \<not> referenced then remove_everywhere orc (s3Clients cfg) (Bucket f) (Hash f) s1 else s1)"
    using assms(2) ok by (simp add: Delete_def Let_def isFileReferenced_def s1_def referenced_def split: if_splits)
  have c3: "(\<forall>r\<in>set (files s'). \<not> (Hash r = Hash f \<and> Bucket r = Bucket f)) \<longrightarrow>
            (\<forall>rg\<in>set (s3Clients cfg). \<forall>k\<in>{Hash f, Hash f @ ''_thumbnail''}.
               RemoveObject rg (Bucket f) k \<in> set (s3_log s')
               \<and> (remove_err orc rg k = None \<longrightarrow> s3 s' rg (Bucket f, k) = None))"
  proof
    assume "\<forall>r\<in>set (files s'). \<not> (Hash r = Hash f \<and> Bucket r = Bucket f)"
    with ref have "\<not> referenced" by blast
    with s' have "s' = remove_everywhere orc (s3Clients cfg) (Bucket f) (Hash f) s1" by simp
    then show "\<forall>rg\<in>set (s3Clients cfg). \<forall>k\<in>{Hash f, Hash f @ ''_thumbnail''}.
               RemoveObject rg (Bucket f) k \<in> set (s3_log s')
               \<and> (remove_err orc rg k = None \<longrightarrow> s3 s' rg (Bucket f, k) = None)"
      by (auto simp: s3_log_remove_everywhere s3_remove_everywhere)
  qed
  have c4: "(\<exists>r\<in>set (files s'). Hash r = Hash f \<and> Bucket r = Bucket f) \<longrightarrow>
            s3 s' = s3 s \<and> s3_log s' = s3_log s"
    using ref s' by (auto simp: s1_def)
  from c1 c2 c3 c4 show ?thesis by blast
qed

theorem Delete_reference_counted_witness:
  "distinct (map Id_file [ex_file ''a'' ''h1'' 5 False, ex_file ''b'' ''h1'' 7 False])
   \<and> Delete ex_cfg ex_quiet (ex_file ''a'' ''h1'' 5 False)
         (ex_state [ex_file ''a'' ''h1'' 5 False, ex_file ''b'' ''h1'' 7 False])
       = (None, ex_state [ex_file ''b'' ''h1'' 7 False])
   \<and> fst (GetFile ex_quiet ''b'' (ex_state [ex_file ''b'' ''h1'' 7 False])) = ex_file ''b'' ''h1'' 7 False
   \<and> fst (Delete ex_cfg ex_quiet (ex_file ''a'' ''h1'' 5 False) (ex_state [ex_file ''a'' ''h1'' 5 False]))
       = None
   \<and> ex_objects ''eu'' (''attachments'', ''h1'') \<noteq> None
   \<and> ex_objects ''us'' (''attachments'', ''h1_thumbnail'') \<noteq> None
   \<and> s3 (snd (Delete ex_cfg ex_quiet (ex_file ''a'' ''h1'' 5 False)
                 (ex_state [ex_file ''a'' ''h1'' 5 False]))) ''eu'' (''attachments'', ''h1'') = None
   \<and> s3 (snd (Delete ex_cfg ex_quiet (ex_file ''a'' ''h1'' 5 False)
                 (ex_state [ex_file ''a'' ''h1'' 5 False]))) ''us'' (''attachments'', ''h1_thumbnail'')
       = None"
proof -
  let ?a = "ex_file ''a'' ''h1'' 5 False" and ?b = "ex_file ''b'' ''h1'' 7 False"
  have d2: "distinct (map Id_file (files (ex_state [?a, ?b])))"
    and d1: "distinct (map Id_file (files (ex_state [?a])))"
    by (simp_all add: ex_defs)
  have sib: "Delete ex_cfg ex_quiet ?a (ex_state [?a, ?b]) = (None, ex_state [?b])"
    by (simp add: Delete_def isFileReferenced_def CountDocuments_def Let_def ex_defs)
  have sole: "Delete ex_cfg ex_quiet ?a (ex_state [?a])
                = (None, snd (Delete ex_cfg ex_quiet ?a (ex_state [?a])))"
    by (simp add: Delete_def isFileReferenced_def CountDocuments_def Let_def ex_defs)
  have left: "files (snd (Delete ex_cfg ex_quiet ?a (ex_state [?a]))) = []"
    by (simp add: Delete_def isFileReferenced_def CountDocuments_def Let_def ex_defs
        files_remove_everywhere)
  from Delete_reference_counted[OF d2 sib, of ex_quiet]
  have g: "GetFile ex_quiet ''b'' (ex_state [?b]) = GetFile ex_quiet ''b'' (ex_state [?a, ?b])"
    by (simp add: ex_defs)
  have g': "fst (GetFile ex_quiet ''b'' (ex_state [?a, ?b])) = ?b"
    by (simp add: GetFile_def FindOne_def ex_defs)
  from Delete_reference_counted[OF d1 sole, of ex_quiet] left
  have gone: "\<forall>rg\<in>{''eu'', ''us''}. \<forall>k\<in>{''h1'', ''h1_thumbnail''}.
         s3 (snd (Delete ex_cfg ex_quiet ?a (ex_state [?a]))) rg (''attachments'', k) = None"
    by (simp add: ex_defs s3Clients_def)
  have there: "\<forall>rg\<in>{''eu'', ''us''}. \<forall>k\<in>{''h1'', ''h1_thumbnail''}.
         ex_objects rg (''attachments'', k) \<noteq> None"
    by (simp add: ex_defs)
  have d2': "distinct (map Id_file [?a, ?b])"
    using d2 by (simp add: ex_state_def)
  have g'': "fst (GetFile ex_quiet ''b'' (ex_state [?b])) = ?b"
    using g g' by simp
  have sole': "fst (Delete ex_cfg ex_quiet ?a (ex_state [?a])) = None"
    using sole by (simp add: prod_eq_iff)
  have t1: "ex_objects ''eu'' (''attachments'', ''h1'') \<noteq> None"
    and t2: "ex_objects ''us'' (''attachments'', ''h1_thumbnail'') \<noteq> None"
    using there by auto
  have g1: "s3 (snd (Delete ex_cfg ex_quiet ?a (ex_state [?a]))) ''eu'' (''attachments'', ''h1'') = None"
    and g2: "s3 (snd (Delete ex_cfg ex_quiet ?a (ex_state [?a]))) ''us''
               (''attachments'', ''h1_thumbnail'') = None"
    using gone by auto
  show ?thesis by (intro conjI d2' sib g'' sole' t1 t2 g1 g2)
qed

subsection \<open>The sweep\<close>

lemma cleanupFiles_files:
  assumes "distinct (map Id_file (files s))" and "cleanupFiles cfg orc orcs s = (res, s')"
  shows "(\<exists>ds. set ds \<subseteq> Id_file ` set (filter (expired (unix_now orc)) (files s))
            \<and> files s' = filter (\<lambda>r. Id_file r \<notin> set ds) (files s))
       \<and> (res = None \<longrightarrow> files s' = filter (\<lambda>r. \<not> expired (unix_now orc) r) (files s))"
proof (cases "db_err orc ''files.Find'' = None \<and> db_err orc ''cursor.All'' = None")
  case True
  with assms(2) have "delete_each cfg orcs (filter (expired (unix_now orc)) (files s)) s = (res, s')"
    by (auto simp: cleanupFiles_def)
  from delete_each_files[OF assms(1) this] obtain ds where
    ds: "set ds \<subseteq> Id_file ` set (filter (expired (unix_now orc)) (files s))"
        "files s' = filter (\<lambda>r. Id_file r \<notin> set ds) (files s)"
    and ok: "res = None \<longrightarrow> files s' =
        filter (\<lambda>r. Id_file r \<notin> Id_file ` set (filter (expired (unix_now orc)) (files s))) (files s)"
    by blast
  have "filter (\<lambda>r. Id_file r \<notin> Id_file ` set (filter (expired (unix_now orc)) (files s))) (files s)
      = filter (\<lambda>r. \<not> expired (unix_now orc) r) (files s)"
  proof (rule filter_cong[OF refl])
    fix x assume "x \<in> set (files s)"
    then show "(Id_file x \<notin> Id_file ` set (filter (expired (unix_now orc)) (files s)))
             = (\<not> expired (unix_now orc) x)"
      using expired_ids[OF assms(1), of x "expired (unix_now orc)"] by blast
  qed
  with ds ok show ?thesis by auto
next
  case False
  with assms(2) have "s' = s" "res \<noteq> None"
    by (cases "db_err orc ''files.Find''"; cases "db_err orc ''cursor.All''";
        auto simp: cleanupFiles_def)+
  then show ?thesis by (auto intro: exI[of _ "[]"])
qed

text \<open>C6: a sweep that returns no error deletes exactly the documents with
  \<^verbatim>\<open>claimed = false\<close> whose age is more than 1800 seconds. Whatever the sweep returns,
  every document it deletes is such a document; a claimed document is never deleted.
  The ids of the collection are distinct (\<^verbatim>\<open>_id\<close> is its key).\<close>

theorem cleanupFiles_unclaimed_expired:
  assumes "distinct (map Id_file (files s))" and "cleanupFiles cfg orc orcs s = (res, s')"
  shows "(\<forall>r\<in>set (files s). Claimed r \<longrightarrow> r \<in> set (files s'))
       \<and> (\<forall>r\<in>set (files s). r \<notin> set (files s') \<longrightarrow>
             Claimed r = False \<and> unix_now orc - UploadedAt r > 1800)
       \<and> (res = None \<longrightarrow>
             files s' = filter (\<lambda>r. \<not> (Claimed r = False \<and> unix_now orc - UploadedAt r > 1800)) (files s))"
proof -
  have age: "expired (unix_now orc) r \<longleftrightarrow> (Claimed r = False \<and> unix_now orc - UploadedAt r > 1800)" for r
    by (auto simp: expired_def)
  from cleanupFiles_files[OF assms] obtain ds where
    ds: "set ds \<subseteq> Id_file ` set (filter (expired (unix_now orc)) (files s))"
        "files s' = filter (\<lambda>r. Id_file r \<notin> set ds) (files s)"
    and ok: "res = None \<longrightarrow> files s' = filter (\<lambda>r. \<not> expired (unix_now orc) r) (files s)"
    by blast
  have gone: "expired (unix_now orc) r" if "r \<in> set (files s)" "r \<notin> set (files s')" for r
  proof -
    from that ds(2) have "Id_file r \<in> set ds" by auto
    with ds(1) have "Id_file r \<in> Id_file ` set (filter (expired (unix_now orc)) (files s))" by auto
    then show ?thesis using expired_ids[OF assms(1) that(1)] by simp
  qed
  have c2: "\<forall>r\<in>set (files s). r \<notin> set (files s') \<longrightarrow>
             Claimed r = False \<and> unix_now orc - UploadedAt r > 1800"
    using gone age by blast
  then have c1: "\<forall>r\<in>set (files s). Claimed r \<longrightarrow> r \<in> set (files s')" by blast
  have c3: "res = None \<longrightarrow>
             files s' = filter (\<lambda>r. \<not> (Claimed r = False \<and> unix_now orc - UploadedAt r > 1800)) (files s)"
    using ok by (simp add: age)
  from c1 c2 c3 show ?thesis by blast
qed

theorem cleanupFiles_unclaimed_expired_witness:
  "distinct (map Id_file (files ex_sweep_state))
   \<and> fst (cleanupFiles ex_cfg ex_quiet (\<lambda>_. ex_quiet) ex_sweep_state) = None
   \<and> files (snd (cleanupFiles ex_cfg ex_quiet (\<lambda>_. ex_quiet) ex_sweep_state))
       = [ex_file ''b'' ''h1'' 9000 False, ex_file ''c'' ''h2'' 5 True]"
proof -
  have d: "distinct (map Id_file (files ex_sweep_state))"
    by (simp add: ex_defs)
  have ok: "fst (cleanupFiles ex_cfg ex_quiet (\<lambda>_. ex_quiet) ex_sweep_state) = None"
    by (simp add: cleanupFiles_def expired_def Delete_def isFileReferenced_def
        CountDocuments_def Let_def ex_defs)
  then have run: "cleanupFiles ex_cfg ex_quiet (\<lambda>_. ex_quiet) ex_sweep_state
      = (None, snd (cleanupFiles ex_cfg ex_quiet (\<lambda>_. ex_quiet) ex_sweep_state))"
    by (simp add: prod_eq_iff)
  from cleanupFiles_unclaimed_expired[OF d run]
  have "files (snd (cleanupFiles ex_cfg ex_quiet (\<lambda>_. ex_quiet) ex_sweep_state))
       = [ex_file ''b'' ''h1'' 9000 False, ex_file ''c'' ''h2'' 5 True]"
    by (simp add: ex_defs)
  with d ok show ?thesis by simp
qed

subsection \<open>Reads\<close>

lemma GetObject_plain:
  "GetObject t cfg orc f False s = (s3_GetObject orc (primary cfg) (Bucket f) (Hash f), f, s)"
  by simp

lemma GetObject_not_media:
  "\<not> (Bucket f = ''attachments'' \<and> (HasPrefix (Mime f) ''image/'' \<or> HasPrefix (Mime f) ''video/''))
   \<Longrightarrow> GetObject t cfg orc f thumbnail s = (s3_GetObject orc (primary cfg) (Bucket f) (Hash f), f, s)"
  by auto

lemma s3_GetObject_name:
  "s3_GetObject orc r b k = Inr obj \<Longrightarrow> obj = (r, b, k)"
  by (auto simp: s3_GetObject_def split: option.splits)

text \<open>C10: for a file that is not in the bucket \<^verbatim>\<open>attachments\<close>, or whose MIME type is
  neither \<^verbatim>\<open>image/*\<close> nor \<^verbatim>\<open>video/*\<close>, \<^verbatim>\<open>GetObject\<close> with \<^verbatim>\<open>thumbnail = true\<close>
  returns what it returns with \<^verbatim>\<open>thumbnail = false\<close>: the object named by the hash, the
  file and the state untouched. A result that names the object with the suffix
  \<^verbatim>\<open>_thumbnail\<close>, or any change of the file or the state (a thumbnail generated on the
  way), only comes from a thumbnail request for an attachment whose MIME type is
  \<^verbatim>\<open>image/*\<close> or \<^verbatim>\<open>video/*\<close>.\<close>

theorem GetObject_thumbnail_only_for_attachment_media:
  "(\<not> (Bucket f = ''attachments'' \<and> (HasPrefix (Mime f) ''image/'' \<or> HasPrefix (Mime f) ''video/''))
      \<longrightarrow> GetObject t cfg orc f True s = GetObject t cfg orc f False s
          \<and> GetObject t cfg orc f True s = (s3_GetObject orc (primary cfg) (Bucket f) (Hash f), f, s))
   \<and> (GetObject t cfg orc f thumbnail s = (res, f', s')
        \<and> (res = Inr (primary cfg, Bucket f, Hash f @ ''_thumbnail'') \<or> f' \<noteq> f \<or> s' \<noteq> s)
      \<longrightarrow> thumbnail \<and> Bucket f = ''attachments''
          \<and> (HasPrefix (Mime f) ''image/'' \<or> HasPrefix (Mime f) ''video/''))"
proof -
  let ?media = "Bucket f = ''attachments'' \<and> (HasPrefix (Mime f) ''image/'' \<or> HasPrefix (Mime f) ''video/'')"
  have a: "\<not> ?media \<longrightarrow> GetObject t cfg orc f True s = GetObject t cfg orc f False s
          \<and> GetObject t cfg orc f True s = (s3_GetObject orc (primary cfg) (Bucket f) (Hash f), f, s)"
    by (simp add: GetObject_not_media del: GetObject.simps)
  have b: "thumbnail \<and> ?media"
    if run: "GetObject t cfg orc f thumbnail s = (res, f', s')"
    and eff: "res = Inr (primary cfg, Bucket f, Hash f @ ''_thumbnail'') \<or> f' \<noteq> f \<or> s' \<noteq> s"
  proof (rule ccontr)
    assume "\<not> (thumbnail \<and> ?media)"
    then have "GetObject t cfg orc f thumbnail s = (s3_GetObject orc (primary cfg) (Bucket f) (Hash f), f, s)"
      by (cases thumbnail) (simp_all add: GetObject_not_media GetObject_plain del: GetObject.simps)
    with run have r: "res = s3_GetObject orc (primary cfg) (Bucket f) (Hash f)" and "f' = f" "s' = s"
      by simp_all
    with eff have "s3_GetObject orc (primary cfg) (Bucket f) (Hash f) = Inr (primary cfg, Bucket f, Hash f @ ''_thumbnail'')"
      by simp
    from s3_GetObject_name[OF this] show False by simp
  qed
  from a b show ?thesis by blast
qed

theorem GetObject_thumbnail_only_for_attachment_media_witness:
  "\<not> (Bucket ex_icon = ''attachments''
        \<and> (HasPrefix (Mime ex_icon) ''image/'' \<or> HasPrefix (Mime ex_icon) ''video/''))
   \<and> GetObject ex_tools ex_cfg ex_quiet ex_icon True (ex_state [ex_icon])
       = GetObject ex_tools ex_cfg ex_quiet ex_icon False (ex_state [ex_icon])
   \<and> GetObject ex_tools ex_cfg ex_quiet ex_icon True (ex_state [ex_icon])
       = (Inr (''eu'', ''icons'', ''h3''), ex_icon, ex_state [ex_icon])
   \<and> GetObject ex_tools ex_cfg ex_quiet ex_photo True (ex_state [ex_photo])
       = (Inr (''eu'', ''attachments'', ''h1_thumbnail''), ex_photo, ex_state [ex_photo])
   \<and> Bucket ex_photo = ''attachments''
   \<and> (HasPrefix (Mime ex_photo) ''image/'' \<or> HasPrefix (Mime ex_photo) ''video/'')"
proof -
  have no: "\<not> (Bucket ex_icon = ''attachments''
        \<and> (HasPrefix (Mime ex_icon) ''image/'' \<or> HasPrefix (Mime ex_icon) ''video/''))"
    by (simp add: ex_defs)
  have val: "s3_GetObject ex_quiet (primary ex_cfg) (Bucket ex_icon) (Hash ex_icon)
       = Inr (''eu'', ''icons'', ''h3'')"
    by (simp add: ex_defs s3_GetObject_def)
  have photo: "GetObject ex_tools ex_cfg ex_quiet ex_photo True (ex_state [ex_photo])
       = (Inr (''eu'', ''attachments'', ''h1_thumbnail''), ex_photo, ex_state [ex_photo])"
    by (simp add: ex_defs HasPrefix_def s3_GetObject_def)
  have name: "Inr (''eu'', ''attachments'', ''h1_thumbnail'')
       = (Inr (primary ex_cfg, Bucket ex_photo, Hash ex_photo @ ''_thumbnail'') :: error + object_ref)"
    by (simp add: ex_defs)
  from GetObject_thumbnail_only_for_attachment_media
         [of ex_icon ex_tools ex_cfg ex_quiet "ex_state [ex_icon]" True
             "Inr (''eu'', ''icons'', ''h3'')" ex_icon "ex_state [ex_icon]"] no
  have icon: "GetObject ex_tools ex_cfg ex_quiet ex_icon True (ex_state [ex_icon])
       = GetObject ex_tools ex_cfg ex_quiet ex_icon False (ex_state [ex_icon])
     \<and> GetObject ex_tools ex_cfg ex_quiet ex_icon True (ex_state [ex_icon])
       = (s3_GetObject ex_quiet (primary ex_cfg) (Bucket ex_icon) (Hash ex_icon), ex_icon,
          ex_state [ex_icon])"
    by blast
  from GetObject_thumbnail_only_for_attachment_media
         [of ex_photo ex_tools ex_cfg ex_quiet "ex_state [ex_photo]" True
             "Inr (''eu'', ''attachments'', ''h1_thumbnail'')" ex_photo "ex_state [ex_photo]"]
       photo name
  have media: "Bucket ex_photo = ''attachments''"
    "HasPrefix (Mime ex_photo) ''image/'' \<or> HasPrefix (Mime ex_photo) ''video/''"
    by blast+
  have icon1: "GetObject ex_tools ex_cfg ex_quiet ex_icon True (ex_state [ex_icon])
       = GetObject ex_tools ex_cfg ex_quiet ex_icon False (ex_state [ex_icon])"
    using icon by (rule conjunct1)
  have icon2: "GetObject ex_tools ex_cfg ex_quiet ex_icon True (ex_state [ex_icon])
       = (Inr (''eu'', ''icons'', ''h3''), ex_icon, ex_state [ex_icon])"
    using icon[THEN conjunct2] unfolding val .
  show ?thesis by (intro conjI no icon1 icon2 photo media)
qed

subsection \<open>Effects of the steps on the state\<close>

lemma write_scratch_frame [simp]:
  "files (write_scratch i n d s) = files s"
  "s3 (write_scratch i n d s) = s3 s"
  "s3_log (write_scratch i n d s) = s3_log s"
  "blocked_files (write_scratch i n d s) = blocked_files s"
  by (simp_all add: write_scratch_def split: option.splits)

lemma remove_scratch_frame [simp]:
  "files (remove_scratch i n s) = files s"
  "s3 (remove_scratch i n s) = s3 s"
  "s3_log (remove_scratch i n s) = s3_log s"
  "blocked_files (remove_scratch i n s) = blocked_files s"
  by (simp_all add: remove_scratch_def split: option.splits)

lemma RemoveAll_frame [simp]:
  "files (RemoveAll i s) = files s"
  "s3 (RemoveAll i s) = s3 s"
  "s3_log (RemoveAll i s) = s3_log s"
  "blocked_files (RemoveAll i s) = blocked_files s"
  by (simp_all add: RemoveAll_def)

lemma Mkdir_frame:
  assumes "Mkdir orc i s = (res, s')"
  shows "files s' = files s" "s3 s' = s3 s" "s3_log s' = s3_log s" "blocked_files s' = blocked_files s"
  using assms by (auto simp: Mkdir_def split: option.splits if_splits)

lemma first_frame_frame:
  assumes "first_frame t f s = (res, s')"
  shows "files s' = files s" "s3 s' = s3 s" "s3_log s' = s3_log s" "blocked_files s' = blocked_files s"
  using assms by (auto simp: first_frame_def split: if_splits sum.splits)

lemma s3_FPutObject_effect:
  assumes "s3_FPutObject orc r b k d ct s = ((sz, e), s')"
  shows "files s' = files s" "blocked_files s' = blocked_files s" "ingest_dirs s' = ingest_dirs s"
    "s3_log s' = s3_log s @ [FPutObject r b k d ct]"
    "e = put_err orc k"
    "e = None \<Longrightarrow> sz = int (length d) \<and> s3 s' = (s3 s)(r := (s3 s r)((b, k) \<mapsto> \<lparr>content = d, contentType = ct\<rparr>))"
    "e \<noteq> None \<Longrightarrow> sz = 0 \<and> s3 s' = s3 s"
  using assms by (auto simp: s3_FPutObject_def Let_def split: option.splits)

lemma UpdateMany_effect:
  assumes "UpdateMany_thumbnail_mime orc h b tm s = (e, s')"
  shows "s3 s' = s3 s" "s3_log s' = s3_log s" "blocked_files s' = blocked_files s" "ingest_dirs s' = ingest_dirs s"
    "e = None \<Longrightarrow> files s' = map (\<lambda>r. if Hash r = h \<and> Bucket r = b then r\<lparr>ThumbnailMime := tm\<rparr> else r) (files s)"
    "e \<noteq> None \<Longrightarrow> files s' = files s"
  using assms by (auto simp: UpdateMany_thumbnail_mime_def split: option.splits)

lemma render_source_cong:
  assumes "ingest_dirs s (Id_file f) = ingest_dirs s' (Id_file f)"
  shows "render_source t f s = render_source t f s'"
proof -
  have r: "read_scratch s (Id_file f) = read_scratch s' (Id_file f)"
    by (rule ext) (simp add: read_scratch_def assms)
  show ?thesis unfolding render_source_def r ..
qed

lemma render_thumbnail_source:
  assumes ff: "first_frame t f s = (None, s1)"
    and rd: "read_scratch s1 (Id_file f)
               (if HasPrefix (Mime f) ''video/'' then ''first_frame.jpg'' else ''original'') = Some src"
  shows "render_source t f s = Some src"
proof (cases "HasPrefix (Mime f) ''video/''")
  case False
  with ff have "s1 = s" by (simp add: first_frame_def)
  with rd False show ?thesis by (simp add: render_source_def)
next
  case True
  show ?thesis
  proof (cases "read_scratch s (Id_file f) ''first_frame.jpg''")
    case (Some frame)
    with ff True have "s1 = s" by (simp add: first_frame_def)
    with rd True Some show ?thesis by (simp add: render_source_def)
  next
    case None
    with ff True obtain b frame where b: "read_scratch s (Id_file f) ''original'' = Some b"
      and fr: "ffmpeg_first_frame t b = Inr frame"
      and s1: "s1 = write_scratch (Id_file f) ''first_frame.jpg'' frame s"
      by (auto simp: first_frame_def convert_on_def split: sum.splits option.splits)
    from b have "ingest_dirs s (Id_file f) \<noteq> None"
      by (auto simp: read_scratch_def split: option.splits)
    then have "read_scratch s1 (Id_file f) ''first_frame.jpg'' = Some frame"
      by (auto simp: s1 read_scratch_def write_scratch_def)
    with rd True have "src = frame" by simp
    with True None b fr show ?thesis by (simp add: render_source_def)
  qed
qed

lemma render_thumbnail_ok:
  assumes "render_thumbnail t cfg orc f s = (None, f', s')"
  shows "\<exists>src fmt thumb.
      render_source t f s = Some src
      \<and> magick_resize t src (thumbnail_size f) fmt = Inr thumb
      \<and> f' = f\<lparr>ThumbnailMime := ''image/'' @ fmt\<rparr>
      \<and> s3_log s' = s3_log s @ [FPutObject (primary cfg) (Bucket f) (Hash f @ ''_thumbnail'') thumb (''image/'' @ fmt)]
      \<and> s3 s' = (s3 s)(primary cfg := (s3 s (primary cfg))((Bucket f, Hash f @ ''_thumbnail'') \<mapsto>
                   \<lparr>content = thumb, contentType = ''image/'' @ fmt\<rparr>))
      \<and> files s' = map (\<lambda>r. if Hash r = Hash f \<and> Bucket r = Bucket f
                              then r\<lparr>ThumbnailMime := ''image/'' @ fmt\<rparr> else r) (files s)
      \<and> blocked_files s' = blocked_files s"
proof -
  from assms obtain fmt where fmt: "thumbnail_format t f s = Inr fmt"
    by (auto simp: render_thumbnail_def split: sum.splits)
  obtain e1 s1 where ff: "first_frame t f s = (e1, s1)" by (cases "first_frame t f s")
  with assms fmt have e1: "e1 = None"
    by (auto simp: render_thumbnail_def Let_def split: option.splits)
  let ?fp = "if HasPrefix (Mime f) ''video/'' then ''first_frame.jpg'' else ''original''"
  from assms fmt ff e1 obtain thumb where
    conv: "convert_on (\<lambda>b. magick_resize t b (thumbnail_size f) fmt) (read_scratch s1 (Id_file f) ?fp) = Inr thumb"
    by (auto simp: render_thumbnail_def Let_def split: sum.splits)
  then obtain src where rd: "read_scratch s1 (Id_file f) ?fp = Some src"
    and src: "magick_resize t src (thumbnail_size f) fmt = Inr thumb"
    by (auto simp: convert_on_def split: option.splits)
  from render_thumbnail_source[OF ff[unfolded e1] rd] have rs: "render_source t f s = Some src" .
  let ?s2 = "write_scratch (Id_file f) (''thumbnail.'' @ fmt) thumb s1"
  obtain sz pe sc where put: "s3_FPutObject orc (primary cfg) (Bucket f) (Hash f @ ''_thumbnail'') thumb (''image/'' @ fmt) ?s2 = ((sz, pe), sc)"
    by (metis prod.exhaust)
  with assms fmt ff e1 conv have pe: "pe = None"
    by (auto simp: render_thumbnail_def Let_def split: option.splits)
  let ?f1 = "f\<lparr>ThumbnailMime := ''image/'' @ fmt\<rparr>"
  obtain ue sd where upd: "UpdateMany_thumbnail_mime orc (Hash f) (Bucket f) (''image/'' @ fmt) sc = (ue, sd)"
    by (metis prod.exhaust)
  with assms fmt ff e1 conv put pe have res: "ue = None" "f' = ?f1" "s' = sd"
    by (auto simp: render_thumbnail_def Let_def split: option.splits)
  note p = s3_FPutObject_effect[OF put] and u = UpdateMany_effect[OF upd] and fr = first_frame_frame[OF ff]
  have "s3_log s' = s3_log s @ [FPutObject (primary cfg) (Bucket f) (Hash f @ ''_thumbnail'') thumb (''image/'' @ fmt)]"
    using p(4) u(2) fr(3) res(3) by simp
  moreover have "s3 s' = (s3 s)(primary cfg := (s3 s (primary cfg))((Bucket f, Hash f @ ''_thumbnail'') \<mapsto>
                   \<lparr>content = thumb, contentType = ''image/'' @ fmt\<rparr>))"
    using p(6) pe u(1) fr(2) res(3) by simp
  moreover have "files s' = map (\<lambda>r. if Hash r = Hash f \<and> Bucket r = Bucket f
                              then r\<lparr>ThumbnailMime := ''image/'' @ fmt\<rparr> else r) (files s)"
    using u(5) res(1,3) p(1) fr(1) by simp
  moreover have "blocked_files s' = blocked_files s"
    using u(3) p(2) fr(4) res(3) by simp
  ultimately show ?thesis using rs src res(2) by blast
qed

lemma render_thumbnail_any:
  assumes "render_thumbnail t cfg orc f s = (res, f', s')"
  shows "blocked_files s' = blocked_files s"
    and "s3_log s' = s3_log s \<or> (\<exists>thumb ct. s3_log s' = s3_log s @ [FPutObject (primary cfg) (Bucket f) (Hash f @ ''_thumbnail'') thumb ct])"
    and "Id_file f' = Id_file f \<and> Hash f' = Hash f \<and> Bucket f' = Bucket f \<and> Mime f' = Mime f \<and> Width f' = Width f \<and> Height f' = Height f \<and> Size f' = Size f
       \<and> Filename f' = Filename f \<and> UploadRegion f' = UploadRegion f \<and> UploadedBy f' = UploadedBy f \<and> UploadedAt f' = UploadedAt f \<and> Claimed f' = Claimed f"
    and "map without_thumbnail (files s') = map without_thumbnail (files s)"
  using assms
  by (auto simp: render_thumbnail_def Let_def first_frame_def s3_FPutObject_def
      UpdateMany_thumbnail_mime_def without_thumbnail_def
      split: sum.splits option.splits prod.splits if_splits)


lemma GenerateThumbnail_cases:
  assumes "GenerateThumbnail t cfg orc f s = (res, f', s')"
  shows "(ingest_dirs s (Id_file f) \<noteq> None \<and> render_thumbnail t cfg orc f s = (res, f', s'))
       \<or> (ingest_dirs s (Id_file f) = None \<and> res \<noteq> None \<and> f' = f
           \<and> files s' = files s \<and> s3 s' = s3 s \<and> s3_log s' = s3_log s \<and> blocked_files s' = blocked_files s)
       \<or> (ingest_dirs s (Id_file f) = None \<and>
           (\<exists>sa sb ob. files sa = files s \<and> s3 sa = s3 s \<and> s3_log sa = s3_log s \<and> blocked_files sa = blocked_files s
              \<and> s3 s (primary cfg) (Bucket f, Hash f) = Some ob
              \<and> ingest_dirs sa (Id_file f) = Some [''original'' \<mapsto> content ob]
              \<and> render_thumbnail t cfg orc f sa = (res, f', sb) \<and> s' = RemoveAll (Id_file f) sb))"
proof (cases "ingest_dirs s (Id_file f) = None")
  case False
  with assms show ?thesis by simp
next
  case True
  obtain me s1 where mk: "Mkdir orc (Id_file f) s = (me, s1)" by (metis prod.exhaust)
  note m = Mkdir_frame[OF mk]
  from assms True mk
  have "(res \<noteq> None \<and> f' = f \<and> s' = RemoveAll (Id_file f) s1)
      \<or> (\<exists>d sb. me = None \<and> read_object (primary cfg, Bucket f, Hash f) s1 = Inr d
             \<and> render_thumbnail t cfg orc f (write_scratch (Id_file f) ''original'' d s1) = (res, f', sb)
             \<and> s' = RemoveAll (Id_file f) sb)"
    by (auto simp: s3_GetObject_def Let_def split: option.splits sum.splits prod.splits)
  then show ?thesis
  proof
    assume "res \<noteq> None \<and> f' = f \<and> s' = RemoveAll (Id_file f) s1"
    with m True show ?thesis by simp
  next
    assume "\<exists>d sb. me = None \<and> read_object (primary cfg, Bucket f, Hash f) s1 = Inr d
             \<and> render_thumbnail t cfg orc f (write_scratch (Id_file f) ''original'' d s1) = (res, f', sb)
             \<and> s' = RemoveAll (Id_file f) sb"
    then obtain d sb where me: "me = None"
      and ro: "read_object (primary cfg, Bucket f, Hash f) s1 = Inr d"
      and rt: "render_thumbnail t cfg orc f (write_scratch (Id_file f) ''original'' d s1) = (res, f', sb)"
      and s': "s' = RemoveAll (Id_file f) sb" by blast
    let ?sa = "write_scratch (Id_file f) ''original'' d s1"
    from ro m(2) obtain ob where ob: "s3 s (primary cfg) (Bucket f, Hash f) = Some ob" "content ob = d"
      by (auto simp: read_object_def split: option.splits)
    from mk me True have "ingest_dirs s1 (Id_file f) = Some Map.empty"
      by (auto simp: Mkdir_def split: option.splits if_splits)
    then have dir: "ingest_dirs ?sa (Id_file f) = Some [''original'' \<mapsto> content ob]"
      by (simp add: write_scratch_def ob(2))
    from rt s' m ob(1) dir
    have "\<exists>sa sb ob. files sa = files s \<and> s3 sa = s3 s \<and> s3_log sa = s3_log s
              \<and> blocked_files sa = blocked_files s
              \<and> s3 s (primary cfg) (Bucket f, Hash f) = Some ob
              \<and> ingest_dirs sa (Id_file f) = Some [''original'' \<mapsto> content ob]
              \<and> render_thumbnail t cfg orc f sa = (res, f', sb) \<and> s' = RemoveAll (Id_file f) sb"
      by (intro exI[where x="?sa"] exI[where x=sb] exI[where x=ob]) simp
    with True show ?thesis by blast
  qed
qed

lemma thumbnail_source_lazy:
  assumes "ingest_dirs s (Id_file f) = None" and "s3 s (primary cfg) (Bucket f, Hash f) = Some ob"
    and "ingest_dirs sa (Id_file f) = Some [''original'' \<mapsto> content ob]"
  shows "thumbnail_source t cfg f s = render_source t f sa"
proof -
  have "render_source t f
          (s\<lparr>ingest_dirs := (ingest_dirs s)(Id_file f \<mapsto> [''original'' \<mapsto> content ob])\<rparr>)
        = render_source t f sa"
    by (rule render_source_cong) (simp add: assms(3))
  with assms(1,2) show ?thesis by (simp add: thumbnail_source_def)
qed

lemma GenerateThumbnail_ok:
  assumes "GenerateThumbnail t cfg orc f s = (None, f', s')"
  shows "\<exists>src fmt thumb.
      thumbnail_source t cfg f s = Some src
      \<and> magick_resize t src (thumbnail_size f) fmt = Inr thumb
      \<and> f' = f\<lparr>ThumbnailMime := ''image/'' @ fmt\<rparr>
      \<and> s3_log s' = s3_log s @ [FPutObject (primary cfg) (Bucket f) (Hash f @ ''_thumbnail'') thumb (''image/'' @ fmt)]
      \<and> s3 s' = (s3 s)(primary cfg := (s3 s (primary cfg))((Bucket f, Hash f @ ''_thumbnail'') \<mapsto>
                   \<lparr>content = thumb, contentType = ''image/'' @ fmt\<rparr>))
      \<and> files s' = map (\<lambda>r. if Hash r = Hash f \<and> Bucket r = Bucket f
                              then r\<lparr>ThumbnailMime := ''image/'' @ fmt\<rparr> else r) (files s)
      \<and> blocked_files s' = blocked_files s"
  using GenerateThumbnail_cases[OF assms]
proof (elim disjE conjE exE)
  assume dir: "ingest_dirs s (Id_file f) \<noteq> None"
    and "render_thumbnail t cfg orc f s = (None, f', s')"
  from render_thumbnail_ok[OF this(2)] dir show ?thesis
    by (auto simp: thumbnail_source_def)
next
  assume "None \<noteq> (None :: error option)"
  then show ?thesis by simp
next
  fix sa sb ob
  assume nodir: "ingest_dirs s (Id_file f) = None"
    and fr: "files sa = files s" "s3 sa = s3 s" "s3_log sa = s3_log s" "blocked_files sa = blocked_files s"
    and ob: "s3 s (primary cfg) (Bucket f, Hash f) = Some ob"
    and dir: "ingest_dirs sa (Id_file f) = Some [''original'' \<mapsto> content ob]"
    and rt: "render_thumbnail t cfg orc f sa = (None, f', sb)" and s': "s' = RemoveAll (Id_file f) sb"
  from render_thumbnail_ok[OF rt] show ?thesis
    by (simp add: fr s' thumbnail_source_lazy[OF nodir ob dir])
qed

lemma GenerateThumbnail_any:
  assumes "GenerateThumbnail t cfg orc f s = (res, f', s')"
  shows "blocked_files s' = blocked_files s"
    and "s3_log s' = s3_log s \<or> (\<exists>thumb ct. s3_log s' = s3_log s @ [FPutObject (primary cfg) (Bucket f) (Hash f @ ''_thumbnail'') thumb ct])"
    and "Id_file f' = Id_file f \<and> Hash f' = Hash f \<and> Bucket f' = Bucket f \<and> Mime f' = Mime f \<and> Width f' = Width f \<and> Height f' = Height f \<and> Size f' = Size f
       \<and> Filename f' = Filename f \<and> UploadRegion f' = UploadRegion f \<and> UploadedBy f' = UploadedBy f \<and> UploadedAt f' = UploadedAt f \<and> Claimed f' = Claimed f"
    and "map without_thumbnail (files s') = map without_thumbnail (files s)"
proof -
  from GenerateThumbnail_cases[OF assms]
  have "blocked_files s' = blocked_files s
    \<and> (s3_log s' = s3_log s \<or> (\<exists>thumb ct. s3_log s' = s3_log s @ [FPutObject (primary cfg) (Bucket f) (Hash f @ ''_thumbnail'') thumb ct]))
    \<and> (Id_file f' = Id_file f \<and> Hash f' = Hash f \<and> Bucket f' = Bucket f \<and> Mime f' = Mime f \<and> Width f' = Width f \<and> Height f' = Height f \<and> Size f' = Size f
       \<and> Filename f' = Filename f \<and> UploadRegion f' = UploadRegion f \<and> UploadedBy f' = UploadedBy f \<and> UploadedAt f' = UploadedAt f \<and> Claimed f' = Claimed f)
    \<and> map without_thumbnail (files s') = map without_thumbnail (files s)"
  proof (elim disjE conjE exE)
    assume "render_thumbnail t cfg orc f s = (res, f', s')"
    from render_thumbnail_any[OF this] show ?thesis by blast
  next
    assume "f' = f" "files s' = files s" "s3 s' = s3 s" "s3_log s' = s3_log s" "blocked_files s' = blocked_files s"
    then show ?thesis by simp
  next
    fix sa sb ob
    assume fr: "files sa = files s" "s3 sa = s3 s" "s3_log sa = s3_log s" "blocked_files sa = blocked_files s"
      and rt: "render_thumbnail t cfg orc f sa = (res, f', sb)" and s': "s' = RemoveAll (Id_file f) sb"
    from render_thumbnail_any[OF rt] show ?thesis by (simp add: fr s')
  qed
  then show "blocked_files s' = blocked_files s"
    and "s3_log s' = s3_log s \<or> (\<exists>thumb ct. s3_log s' = s3_log s @ [FPutObject (primary cfg) (Bucket f) (Hash f @ ''_thumbnail'') thumb ct])"
    and "Id_file f' = Id_file f \<and> Hash f' = Hash f \<and> Bucket f' = Bucket f \<and> Mime f' = Mime f \<and> Width f' = Width f \<and> Height f' = Height f \<and> Size f' = Size f
       \<and> Filename f' = Filename f \<and> UploadRegion f' = UploadRegion f \<and> UploadedBy f' = UploadedBy f \<and> UploadedAt f' = UploadedAt f \<and> Claimed f' = Claimed f"
    and "map without_thumbnail (files s') = map without_thumbnail (files s)"
    by blast+
qed

subsection \<open>Thumbnails\<close>

lemma thumbnail_size_min: "thumbnail_size f = min 480 (max (Width f) (Height f))"
  by (simp add: thumbnail_size_def Let_def)

subsection \<open>Ingestion: the lookup\<close>

lemma fields_acc_nonempty: "w \<in> set (fields_acc acc s) \<Longrightarrow> w \<noteq> []"
  by (induction s arbitrary: acc) (auto split: if_splits)

lemma index_in_set: "index xs n = Inr x \<Longrightarrow> x \<in> set xs"
  by (auto simp: index_def split: if_splits)

lemma Fields_index_nonempty: "index (Fields out) n = Inr w \<Longrightarrow> w \<noteq> []"
  by (auto simp: Fields_def dest!: index_in_set fields_acc_nonempty)

lemma read_write_scratch:
  "ingest_dirs s i \<noteq> None \<Longrightarrow> read_scratch (write_scratch i n d s) i n = Some d"
  by (auto simp: read_scratch_def write_scratch_def)

lemma write_scratch_dir:
  "ingest_dirs (write_scratch i n d s) j = None \<longleftrightarrow> ingest_dirs s j = None"
  by (auto simp: write_scratch_def split: option.splits)

lemma Mkdir_ok:
  "Mkdir orc i s = (None, s1) \<Longrightarrow> ingest_dirs s i = None \<and> ingest_dirs s1 i \<noteq> None"
  by (auto simp: Mkdir_def split: option.splits if_splits)

lemma save_original_ok:
  "save_original orc i file s = (None, s') \<Longrightarrow> s' = write_scratch i ''original'' file s"
  by (auto simp: save_original_def split: option.splits)

lemma save_original_frame:
  assumes "save_original orc i file s = (res, s')"
  shows "files s' = files s" "s3 s' = s3 s" "s3_log s' = s3_log s" "blocked_files s' = blocked_files s"
  using assms by (auto simp: save_original_def split: option.splits)

lemma ultra_hd_frame:
  assumes "ultra_hd t up i s = (res, s')"
  shows "files s' = files s" "s3 s' = s3 s" "s3_log s' = s3_log s" "blocked_files s' = blocked_files s"
    "ingest_dirs s' i = None \<longleftrightarrow> ingest_dirs s i = None"
  using assms
  by (auto simp: ultra_hd_def Let_def write_scratch_dir split: if_splits sum.splits option.splits)

lemma ultra_hd_ok:
  assumes "ultra_hd t up i s = (None, s')" and "read_scratch s i ''original'' = Some file"
  shows "read_scratch s' i ''original'' = Some (hashed_bytes t up file)"
proof -
  from assms(2) have dir: "ingest_dirs s i \<noteq> None"
    by (auto simp: read_scratch_def split: option.splits)
  with assms show ?thesis
    by (auto simp: ultra_hd_def hashed_bytes_def Let_def run_on_def read_write_scratch
        split: if_splits sum.splits option.splits)
qed

lemma file_hash_ok:
  assumes "file_hash t i s = Inr h" and "read_scratch s i ''original'' = Some b"
  shows "snd (sha256sum t b) = None" "index (Fields (fst (sha256sum t b))) 0 = Inr h" "h \<noteq> []"
proof -
  from assms show a: "snd (sha256sum t b) = None" and b: "index (Fields (fst (sha256sum t b))) 0 = Inr h"
    by (auto simp: file_hash_def run_on_def split: prod.splits option.splits)
  from Fields_index_nonempty[OF b] show "h \<noteq> []" .
qed

lemma check_blocked_frame:
  assumes "check_blocked orc i h s = (res, s')"
  shows "files s' = files s" "s3 s' = s3 s" "s3_log s' = s3_log s" "blocked_files s' = blocked_files s"
  using assms by (auto simp: check_blocked_def Let_def split: prod.splits if_splits)

lemma check_blocked_ok:
  "check_blocked orc i h s = (None, s') \<Longrightarrow> s' = s \<and> h \<notin> set (blocked_files s)"
  by (auto simp: check_blocked_def Let_def getBlockStatus_def CountDocuments_def filter_empty_conv
      split: prod.splits if_splits option.splits)

lemma FindOne_Some: "FindOne p xs = Some r \<Longrightarrow> p r \<and> r \<in> set xs"
  by (auto simp: FindOne_def split: list.splits dest: filter_eq_ConsD)

lemma FindOne_None: "FindOne p xs = None \<longleftrightarrow> (\<forall>r\<in>set xs. \<not> p r)"
proof (cases "filter p xs")
  case Nil
  then show ?thesis by (simp add: FindOne_def filter_empty_conv)
next
  case (Cons a as)
  then have "a \<in> set (filter p xs)" by simp
  then have "a \<in> set xs \<and> p a" by simp
  with Cons show ?thesis by (auto simp: FindOne_def)
qed

lemma existing_file_ok:
  assumes "existing_file orc h bucket s = Inr f0" and "h \<noteq> []"
  shows "Hash f0 = h \<longleftrightarrow> FindOne (\<lambda>r. Hash r = h \<and> Bucket r = bucket) (files s) = Some f0"
    and "Hash f0 \<noteq> h \<longrightarrow> f0 = zero_File"
    and "db_err orc ''files.FindOne'' = None \<Longrightarrow> Hash f0 \<noteq> h
          \<Longrightarrow> \<forall>r\<in>set (files s). \<not> (Hash r = h \<and> Bucket r = bucket)"
  using assms
  by (auto simp: existing_file_def zero_File_def FindOne_None
      split: option.splits if_splits dest: FindOne_Some)

lemma ingest_lookup_frame:
  assumes "ingest_lookup t orc i bucket file up s = (res, s1)"
  shows "files s1 = files s \<and> s3 s1 = s3 s \<and> s3_log s1 = s3_log s \<and> blocked_files s1 = blocked_files s"
proof -
  obtain e1 sa where a: "Mkdir orc i s = (e1, sa)" by (metis prod.exhaust)
  obtain e2 sb where b: "save_original orc i file sa = (e2, sb)" by (metis prod.exhaust)
  obtain e3 sc where c: "ultra_hd t up i sb = (e3, sc)" by (metis prod.exhaust)
  note fa = Mkdir_frame[OF a] and fb = save_original_frame[OF b] and fc = ultra_hd_frame[OF c]
  show ?thesis
  proof (cases "file_hash t i sc")
    case (Inl e)
    with assms a b c fa fb fc show ?thesis
      by (auto simp: ingest_lookup_def split: option.splits)
  next
    case (Inr h)
    obtain e4 sd where d: "check_blocked orc i h sc = (e4, sd)" by (metis prod.exhaust)
    note fd = check_blocked_frame[OF d]
    from assms a b c d Inr fa fb fc fd show ?thesis
      by (auto simp: ingest_lookup_def split: option.splits sum.splits)
  qed
qed

lemma ingest_lookup_ok:
  assumes "ingest_lookup t orc i bucket file up s = (Inr (h, f0), s1)"
  shows "read_scratch s1 i ''original'' = Some (hashed_bytes t up file)"
    and "snd (sha256sum t (hashed_bytes t up file)) = None"
    and "index (Fields (fst (sha256sum t (hashed_bytes t up file)))) 0 = Inr h"
    and "h \<noteq> []"
    and "ingest_dirs s1 i \<noteq> None"
    and "existing_file orc h bucket s = Inr f0"
proof -
  obtain e1 sa where a: "Mkdir orc i s = (e1, sa)" by (metis prod.exhaust)
  obtain e2 sb where b: "save_original orc i file sa = (e2, sb)" by (metis prod.exhaust)
  obtain e3 sc where c: "ultra_hd t up i sb = (e3, sc)" by (metis prod.exhaust)
  from assms a b c have ok: "e1 = None" "e2 = None" "e3 = None"
    by (auto simp: ingest_lookup_def split: option.splits)
  from assms a b c ok obtain h' where fh: "file_hash t i sc = Inr h'"
    by (auto simp: ingest_lookup_def split: sum.splits)
  obtain e4 sd where d: "check_blocked orc i h' sc = (e4, sd)" by (metis prod.exhaust)
  from assms a b c ok fh d have e4: "e4 = None"
    by (auto simp: ingest_lookup_def split: option.splits)
  from assms a b c ok fh d e4 have ex: "existing_file orc h' bucket sd = Inr f0" and hh: "h' = h" and s1: "s1 = sd"
    by (auto simp: ingest_lookup_def split: sum.splits)
  from check_blocked_ok[OF d[unfolded e4]] have sd: "sd = sc" by simp
  from Mkdir_ok[OF a[unfolded ok]] have dira: "ingest_dirs sa i \<noteq> None" by simp
  from save_original_ok[OF b[unfolded ok]] have sb: "sb = write_scratch i ''original'' file sa" .
  with dira have rb: "read_scratch sb i ''original'' = Some file"
    by (simp add: read_write_scratch)
  from ultra_hd_ok[OF c[unfolded ok] rb] show r: "read_scratch s1 i ''original'' = Some (hashed_bytes t up file)"
    by (simp add: s1 sd)
  from file_hash_ok[OF fh] r show "snd (sha256sum t (hashed_bytes t up file)) = None"
    and "index (Fields (fst (sha256sum t (hashed_bytes t up file)))) 0 = Inr h" and "h \<noteq> []"
    by (simp_all add: s1 sd hh)
  from r show "ingest_dirs s1 i \<noteq> None"
    by (auto simp: read_scratch_def split: option.splits)
  have "existing_file orc h' bucket sd = existing_file orc h' bucket s"
    using ingest_lookup_frame[OF assms] by (simp add: existing_file_def s1 cong: option.case_cong)
  with ex hh show "existing_file orc h bucket s = Inr f0" by simp
qed

subsection \<open>Ingestion: new content\<close>

lemma ingest_square_ok:
  assumes "ingest_square t cfg orc bucket h f s = (Inr f', s')"
  shows "\<exists>frames orig data w ht.
     HasPrefix (Mime f) ''image/'' \<and> read_scratch s (Id_file f) ''original'' = Some orig
     \<and> identify_n t orig = (frames, None)
     \<and> magick_reencode t orig (square_size bucket (Width f) (Height f))
          (if frames \<noteq> ''1'' then ''gif'' else ''webp'') = Inr data
     \<and> f' = f\<lparr>Mime := (if frames \<noteq> ''1'' then ''image/gif'' else ''image/webp''),
               Size := (if put_err orc h = None then int (length data) else 0),
               Width := w, Height := ht\<rparr>
     \<and> s3_log s' = s3_log s @ [FPutObject (primary cfg) bucket h data
                                 (if frames \<noteq> ''1'' then ''image/gif'' else ''image/webp'')]
     \<and> files s' = files s \<and> blocked_files s' = blocked_files s
     \<and> s3 s' = (if put_err orc h = None
                then (s3 s)(primary cfg := (s3 s (primary cfg))((bucket, h) \<mapsto>
                       \<lparr>content = data,
                        contentType = (if frames \<noteq> ''1'' then ''image/gif'' else ''image/webp'')\<rparr>))
                else s3 s)"
proof -
  from assms have img: "HasPrefix (Mime f) ''image/''"
    by (auto simp: ingest_square_def split: if_splits)
  obtain frames e where n: "run_on (identify_n t) (read_scratch s (Id_file f) ''original'') = (frames, e)"
    by (metis prod.exhaust)
  with assms img have e: "e = None"
    by (auto simp: ingest_square_def split: option.splits)
  from n e obtain orig where orig: "read_scratch s (Id_file f) ''original'' = Some orig"
    and idn: "identify_n t orig = (frames, None)"
    by (auto simp: run_on_def split: option.splits)
  let ?fmt = "if frames \<noteq> ''1'' then ''gif'' else ''webp''"
  let ?mime = "if frames \<noteq> ''1'' then ''image/gif'' else ''image/webp''"
  from assms img n e orig obtain data where
    re: "magick_reencode t orig (square_size bucket (Width f) (Height f)) ?fmt = Inr data"
    by (auto simp: ingest_square_def Let_def convert_on_def split: sum.splits if_splits)
  let ?s1 = "write_scratch (Id_file f) (''.'' @ ?fmt) data s"
  obtain sz pe s2 where put: "s3_FPutObject orc (primary cfg) bucket h data (''image/'' @ ?fmt) ?s1 = ((sz, pe), s2)"
    by (metis prod.exhaust)
  note p = s3_FPutObject_effect[OF put]
  have ct: "''image/'' @ ?fmt = ?mime" by simp
  from assms img n e orig re put obtain w ht where
    f': "f' = f\<lparr>Mime := ?mime, Size := sz, Width := w, Height := ht\<rparr>" and s': "s' = s2"
    by (auto simp: ingest_square_def Let_def convert_on_def split: sum.splits if_splits prod.splits)
  have sz: "sz = (if put_err orc h = None then int (length data) else 0)"
    using p(5,6,7) by auto
  have lg: "s3_log s' = s3_log s @ [FPutObject (primary cfg) bucket h data ?mime]"
    using p(4) s' ct by simp
  have st: "s3 s' = (if put_err orc h = None
                then (s3 s)(primary cfg := (s3 s (primary cfg))((bucket, h) \<mapsto>
                       \<lparr>content = data, contentType = ?mime\<rparr>))
                else s3 s)"
    using p(5,6,7) s' ct by auto
  have fr: "files s' = files s" "blocked_files s' = blocked_files s"
    using p(1,2) s' by simp_all
  from img orig idn re f' sz lg st fr show ?thesis by blast
qed


lemma same_upload_refl [simp]: "same_upload f f"
  by (simp add: same_upload_def)

lemma same_upload_trans: "same_upload f g \<Longrightarrow> same_upload g k \<Longrightarrow> same_upload f k"
  by (simp add: same_upload_def)

lemma GenerateThumbnail_same_upload:
  "GenerateThumbnail t cfg orc f s = (res, f', s') \<Longrightarrow> same_upload f f'"
  by (drule GenerateThumbnail_any(3)) (simp add: same_upload_def)

lemma ingest_square_facts:
  assumes "ingest_square t cfg orc bucket h f s = (Inr f', s')"
  shows "same_upload f f'"
    and "\<exists>qs. s3_log s' = s3_log s @ qs \<and> one_canonical_put cfg bucket h qs"
    and "map without_thumbnail (files s') = map without_thumbnail (files s)"
    and "blocked_files s' = blocked_files s"
proof -
  from ingest_square_ok[OF assms] obtain frames data w ht where
    f': "f' = f\<lparr>Mime := (if frames \<noteq> ''1'' then ''image/gif'' else ''image/webp''),
               Size := (if put_err orc h = None then int (length data) else 0),
               Width := w, Height := ht\<rparr>"
    and lg: "s3_log s' = s3_log s @ [FPutObject (primary cfg) bucket h data
                                 (if frames \<noteq> ''1'' then ''image/gif'' else ''image/webp'')]"
    and fr: "files s' = files s" "blocked_files s' = blocked_files s"
    by blast
  show "same_upload f f'" by (simp add: f' same_upload_def)
  show "\<exists>qs. s3_log s' = s3_log s @ qs \<and> one_canonical_put cfg bucket h qs"
    using lg by (auto simp: one_canonical_put_def)
  show "map without_thumbnail (files s') = map without_thumbnail (files s)"
    "blocked_files s' = blocked_files s" using fr by simp_all
qed

lemma canonical_then_thumbnail:
  assumes put: "s3_FPutObject orc (primary cfg) bucket h data ct s0 = ((sz, pe), s1)"
    and pre: "files s0 = files s" "s3_log s0 = s3_log s" "blocked_files s0 = blocked_files s"
    and mid: "files s2 = files s1" "s3_log s2 = s3_log s1" "blocked_files s2 = blocked_files s1"
    and gen: "GenerateThumbnail t cfg orc f s2 = (te, f', s')"
    and fb: "Bucket f = bucket" "Hash f = h"
  shows "\<exists>qs. s3_log s' = s3_log s @ qs \<and> one_canonical_put cfg bucket h qs"
    and "map without_thumbnail (files s') = map without_thumbnail (files s)"
    and "blocked_files s' = blocked_files s"
proof -
  note p = s3_FPutObject_effect[OF put] and g = GenerateThumbnail_any[OF gen]
  from g(2) show "\<exists>qs. s3_log s' = s3_log s @ qs \<and> one_canonical_put cfg bucket h qs"
  proof
    assume "s3_log s' = s3_log s2"
    then have "s3_log s' = s3_log s @ [FPutObject (primary cfg) bucket h data ct]"
      using p(4) pre(2) mid(2) by simp
    then show ?thesis by (auto simp: one_canonical_put_def)
  next
    assume "\<exists>thumb ct'. s3_log s' = s3_log s2 @ [FPutObject (primary cfg) (Bucket f) (Hash f @ ''_thumbnail'') thumb ct']"
    then obtain thumb ct' where
      "s3_log s' = s3_log s2 @ [FPutObject (primary cfg) (Bucket f) (Hash f @ ''_thumbnail'') thumb ct']"
      by blast
    then have "s3_log s' = s3_log s @ (FPutObject (primary cfg) bucket h data ct
                  # [FPutObject (primary cfg) bucket (h @ ''_thumbnail'') thumb ct'])"
      using p(4) pre(2) mid(2) fb by simp
    then show ?thesis unfolding one_canonical_put_def by blast
  qed
  show "map without_thumbnail (files s') = map without_thumbnail (files s)"
    using g(4) p(1) pre(1) mid(1) by simp
  show "blocked_files s' = blocked_files s"
    using g(1) p(2) pre(3) mid(3) by simp
qed

lemma ingest_attachment_image_facts:
  assumes "ingest_attachment_image t cfg orc bucket h f s = (Inr f', s')"
    and fb: "Bucket f = bucket" "Hash f = h"
  shows "same_upload f f'"
    and "\<exists>qs. s3_log s' = s3_log s @ qs \<and> one_canonical_put cfg bucket h qs"
    and "map without_thumbnail (files s') = map without_thumbnail (files s)"
    and "blocked_files s' = blocked_files s"
proof -
  from assms(1) obtain data where
    opt: "convert_on (magick_optimize t) (read_scratch s (Id_file f) ''original'') = Inr data"
    by (auto simp: ingest_attachment_image_def split: sum.splits)
  let ?s1 = "write_scratch (Id_file f) ''optimized'' data s"
  obtain sz pe s2 where put: "s3_FPutObject orc (primary cfg) bucket h data (Mime f) ?s1 = ((sz, pe), s2)"
    by (metis prod.exhaust)
  obtain te f2 sc where gen: "GenerateThumbnail t cfg orc (f\<lparr>Size := sz\<rparr>) s2 = (te, f2, sc)"
    by (metis prod.exhaust)
  from assms(1) opt put gen have res: "f' = f2" "s' = sc"
    by (auto simp: ingest_attachment_image_def Let_def split: option.splits)
  have "same_upload (f\<lparr>Size := sz\<rparr>) f2" by (rule GenerateThumbnail_same_upload[OF gen])
  then show "same_upload f f'" by (simp add: same_upload_def res)
  have fb': "Bucket (f\<lparr>Size := sz\<rparr>) = bucket" "Hash (f\<lparr>Size := sz\<rparr>) = h" using fb by simp_all
  from canonical_then_thumbnail[OF put _ _ _ refl refl refl gen fb', of s]
  show "\<exists>qs. s3_log s' = s3_log s @ qs \<and> one_canonical_put cfg bucket h qs"
    and "map without_thumbnail (files s') = map without_thumbnail (files s)"
    and "blocked_files s' = blocked_files s"
    by (simp_all add: res)
qed

lemma probe_dimensions_same:
  "probe_dimensions t f name s = Inr f' \<Longrightarrow>
     same_upload f f' \<and> Mime f' = Mime f \<and> Size f' = Size f \<and> ThumbnailMime f' = ThumbnailMime f"
  by (auto simp: probe_dimensions_def same_upload_def split: prod.splits option.splits sum.splits)

lemma FPutObject_file_Some:
  "FPutObject_file orc r b k (Some d) ct s = s3_FPutObject orc r b k d ct s"
  by (simp add: FPutObject_file_def)

lemma ingest_attachment_video_facts:
  assumes "ingest_attachment_video t cfg orc bucket h f s = (Inr f', s')"
    and fb: "Bucket f = bucket" "Hash f = h"
  shows "same_upload f f'"
    and "\<exists>qs. s3_log s' = s3_log s @ qs \<and> one_canonical_put cfg bucket h qs"
    and "map without_thumbnail (files s') = map without_thumbnail (files s)"
    and "blocked_files s' = blocked_files s"
proof -
  obtain sz pe s1 where put0: "FPutObject_file orc (primary cfg) bucket h
             (read_scratch s (Id_file f) ''original'') (Mime f) s = ((sz, pe), s1)"
    by (metis prod.exhaust)
  from assms(1) put0 obtain frame where
    fr: "convert_on (ffmpeg_first_frame t) (read_scratch s1 (Id_file f) ''original'') = Inr frame"
    by (auto simp: ingest_attachment_video_def split: sum.splits)
  then obtain orig where o1: "read_scratch s1 (Id_file f) ''original'' = Some orig"
    by (auto simp: convert_on_def split: option.splits)
  have dirs: "ingest_dirs s1 = ingest_dirs s"
    using put0 by (auto simp: FPutObject_file_def s3_FPutObject_def Let_def split: option.splits)
  with o1 have o0: "read_scratch s (Id_file f) ''original'' = Some orig"
    by (simp add: read_scratch_def)
  from put0 o0 have put: "s3_FPutObject orc (primary cfg) bucket h orig (Mime f) s = ((sz, pe), s1)"
    by (simp add: FPutObject_file_Some)
  let ?s2 = "write_scratch (Id_file f) ''first_frame.jpg'' frame s1"
  from assms(1) put0 fr obtain f2 where
    pd: "probe_dimensions t (f\<lparr>Size := sz\<rparr>) ''first_frame.jpg'' ?s2 = Inr f2"
    by (auto simp: ingest_attachment_video_def Let_def split: sum.splits)
  obtain te f3 sc where gen: "GenerateThumbnail t cfg orc f2 ?s2 = (te, f3, sc)"
    by (metis prod.exhaust)
  from assms(1) put0 fr pd gen have res: "f' = f3" "s' = sc"
    by (auto simp: ingest_attachment_video_def Let_def split: option.splits)
  from probe_dimensions_same[OF pd] have su2: "same_upload (f\<lparr>Size := sz\<rparr>) f2" by simp
  have "same_upload f2 f3" by (rule GenerateThumbnail_same_upload[OF gen])
  with su2 have "same_upload (f\<lparr>Size := sz\<rparr>) f3" by (rule same_upload_trans)
  then show "same_upload f f'" by (simp add: same_upload_def res)
  from su2 fb have fb2: "Bucket f2 = bucket" "Hash f2 = h" by (simp_all add: same_upload_def)
  from canonical_then_thumbnail[OF put refl refl refl _ _ _ gen fb2]
  show "\<exists>qs. s3_log s' = s3_log s @ qs \<and> one_canonical_put cfg bucket h qs"
    and "map without_thumbnail (files s') = map without_thumbnail (files s)"
    and "blocked_files s' = blocked_files s"
    by (simp_all add: res)
qed

lemma ingest_attachment_other_facts:
  assumes "ingest_attachment_other cfg orc bucket h f s = (Inr f', s')"
  shows "same_upload f f'"
    and "\<exists>qs. s3_log s' = s3_log s @ qs \<and> one_canonical_put cfg bucket h qs"
    and "map without_thumbnail (files s') = map without_thumbnail (files s)"
    and "blocked_files s' = blocked_files s"
    and "put_err orc h = None"
proof -
  obtain sz pe s1 where put0: "FPutObject_file orc (primary cfg) bucket h
             (read_scratch s (Id_file f) ''original'') (Mime f) s = ((sz, pe), s1)"
    by (metis prod.exhaust)
  with assms have res: "pe = None" "f' = f\<lparr>Size := sz\<rparr>" "s' = s1"
    by (auto simp: ingest_attachment_other_def split: option.splits)
  from put0 res(1) obtain orig where o0: "read_scratch s (Id_file f) ''original'' = Some orig"
    by (auto simp: FPutObject_file_def split: option.splits)
  from put0 o0 have put: "s3_FPutObject orc (primary cfg) bucket h orig (Mime f) s = ((sz, pe), s1)"
    by (simp add: FPutObject_file_Some)
  note p = s3_FPutObject_effect[OF put]
  show "same_upload f f'" by (simp add: res same_upload_def)
  show "\<exists>qs. s3_log s' = s3_log s @ qs \<and> one_canonical_put cfg bucket h qs"
    using p(4) res(3) by (auto simp: one_canonical_put_def)
  show "map without_thumbnail (files s') = map without_thumbnail (files s)"
    "blocked_files s' = blocked_files s" using p(1,2) res(3) by simp_all
  show "put_err orc h = None" using p(5) res(1) by simp
qed

lemma ingest_new_facts:
  assumes "ingest_new t cfg orc i bucket h filename up s = (Inr f, s')"
  shows "same_upload (zero_File\<lparr>Id_file := i, Hash := h, Bucket := bucket,
                Filename := cleanFilename filename, UploadRegion := primary cfg,
                UploadedBy := Username up, UploadedAt := unix_now orc\<rparr>) f"
    and "bucket \<in> {''icons'', ''emojis'', ''stickers'', ''attachments''} \<Longrightarrow>
           \<exists>qs. s3_log s' = s3_log s @ qs \<and> one_canonical_put cfg bucket h qs"
    and "map without_thumbnail (files s') = map without_thumbnail (files s)"
    and "blocked_files s' = blocked_files s"
proof -
  let ?f = "zero_File\<lparr>Id_file := i, Hash := h, Bucket := bucket,
                Filename := cleanFilename filename, UploadRegion := primary cfg,
                UploadedBy := Username up, UploadedAt := unix_now orc\<rparr>"
  from assms obtain m where m: "detect_mime t i s = Inr m"
    by (auto simp: ingest_new_def Let_def split: sum.splits)
  let ?probe = "if HasPrefix m ''image/'' then probe_dimensions t (?f\<lparr>Mime := m\<rparr>) ''original'' s
                else Inr (?f\<lparr>Mime := m\<rparr>)"
  from assms m obtain f2 where f2: "?probe = Inr f2"
    by (auto simp: ingest_new_def Let_def split: sum.splits)
  have su: "same_upload ?f f2"
  proof (cases "HasPrefix m ''image/''")
    case True
    with f2 have "probe_dimensions t (?f\<lparr>Mime := m\<rparr>) ''original'' s = Inr f2" by simp
    from probe_dimensions_same[OF this] show ?thesis by (simp add: same_upload_def)
  next
    case False
    with f2 show ?thesis by (auto simp: same_upload_def)
  qed
  then have fb: "Bucket f2 = bucket" "Hash f2 = h" by (simp_all add: same_upload_def)
  from assms m f2 have branch:
    "(if bucket = ''icons'' \<or> bucket = ''emojis'' \<or> bucket = ''stickers''
      then ingest_square t cfg orc bucket h f2 s
      else if bucket = ''attachments''
      then (if HasPrefix (Mime f2) ''image''
            then ingest_attachment_image t cfg orc bucket h f2 s
            else if HasPrefix (Mime f2) ''video''
            then ingest_attachment_video t cfg orc bucket h f2 s
            else ingest_attachment_other cfg orc bucket h f2 s)
      else (Inr f2, s)) = (Inr f, s')"
    by (simp add: ingest_new_def Let_def)
  have all: "same_upload f2 f
      \<and> (bucket \<in> {''icons'', ''emojis'', ''stickers'', ''attachments''} \<longrightarrow>
           (\<exists>qs. s3_log s' = s3_log s @ qs \<and> one_canonical_put cfg bucket h qs))
      \<and> map without_thumbnail (files s') = map without_thumbnail (files s)
      \<and> blocked_files s' = blocked_files s"
  proof (cases "bucket = ''icons'' \<or> bucket = ''emojis'' \<or> bucket = ''stickers''")
    case True
    with branch have "ingest_square t cfg orc bucket h f2 s = (Inr f, s')" by simp
    from ingest_square_facts[OF this] show ?thesis by simp
  next
    case notsq: False
    show ?thesis
    proof (cases "bucket = ''attachments''")
      case False
      with notsq branch show ?thesis by auto
    next
      case att: True
      show ?thesis
      proof (cases "HasPrefix (Mime f2) ''image''")
        case True
        with notsq att branch have "ingest_attachment_image t cfg orc bucket h f2 s = (Inr f, s')"
          by simp
        from ingest_attachment_image_facts[OF this fb] show ?thesis by simp
      next
        case noimg: False
        show ?thesis
        proof (cases "HasPrefix (Mime f2) ''video''")
          case True
          with notsq att noimg branch
          have "ingest_attachment_video t cfg orc bucket h f2 s = (Inr f, s')" by simp
          from ingest_attachment_video_facts[OF this fb] show ?thesis by simp
        next
          case False
          with notsq att noimg branch
          have "ingest_attachment_other cfg orc bucket h f2 s = (Inr f, s')" by simp
          from ingest_attachment_other_facts[OF this] show ?thesis by simp
        qed
      qed
    qed
  qed
  from all su show "same_upload ?f f" by (blast intro: same_upload_trans)
  from all show "bucket \<in> {''icons'', ''emojis'', ''stickers'', ''attachments''} \<Longrightarrow>
           \<exists>qs. s3_log s' = s3_log s @ qs \<and> one_canonical_put cfg bucket h qs"
    and "map without_thumbnail (files s') = map without_thumbnail (files s)"
    and "blocked_files s' = blocked_files s" by blast+
qed

lemma InsertOne_ok:
  assumes "InsertOne orc f s = (None, s')"
  shows "files s' = files s @ [f]" "Id_file f \<notin> Id_file ` set (files s)"
    "s3 s' = s3 s" "s3_log s' = s3_log s" "blocked_files s' = blocked_files s"
  using assms by (auto simp: InsertOne_def split: option.splits if_splits)

lemma InsertOne_frame:
  assumes "InsertOne orc f s = (res, s')"
  shows "s3 s' = s3 s" "s3_log s' = s3_log s" "blocked_files s' = blocked_files s"
    "res \<noteq> None \<Longrightarrow> files s' = files s"
  using assms by (auto simp: InsertOne_def split: option.splits if_splits)

lemma IngestMultipartFile_assembled:
  assumes "IngestMultipartFile t cfg orc bucket file filename up s = ((Some f, e), s')"
  shows "\<exists>i h f0 s1 s2 sc.
       generateId orc = (i, None)
     \<and> ingest_lookup t orc i bucket file up s = (Inr (h, f0), s1)
     \<and> ingest_process t cfg orc i bucket h f0 filename up s1 = (Inr f, s2)
     \<and> InsertOne orc f s2 = (e, sc) \<and> s' = RemoveAll i sc"
proof -
  obtain i ge where g: "generateId orc = (i, ge)" by (metis prod.exhaust)
  with assms have ge: "ge = None" by (auto simp: IngestMultipartFile_def split: option.splits)
  obtain r1 s1 where l: "ingest_lookup t orc i bucket file up s = (r1, s1)" by (metis prod.exhaust)
  with assms g ge obtain h f0 where r1: "r1 = Inr (h, f0)"
    by (cases r1) (auto simp: IngestMultipartFile_def)
  obtain r2 s2 where p: "ingest_process t cfg orc i bucket h f0 filename up s1 = (r2, s2)"
    by (metis prod.exhaust)
  with assms g ge l r1 obtain f2 where r2: "r2 = Inr f2"
    by (cases r2) (auto simp: IngestMultipartFile_def)
  obtain ie sc where ins: "InsertOne orc f2 s2 = (ie, sc)" by (metis prod.exhaust)
  with assms g ge l r1 p r2 have "ie = e" "f2 = f" "s' = RemoveAll i sc"
    by (auto simp: IngestMultipartFile_def split: option.splits)
  with g ge l r1 p r2 ins show ?thesis by blast
qed

lemma ingest_process_facts:
  assumes "ingest_process t cfg orc i bucket h f0 filename up s = (Inr f, s')"
    and "existing_file orc h bucket s0 = Inr f0" and "h \<noteq> []"
  shows "Id_file f = i" "Hash f = h" "Bucket f = bucket" "Filename f = cleanFilename filename"
    "UploadedBy f = Username up" "UploadedAt f = unix_now orc"
proof -
  have "Id_file f = i \<and> Hash f = h \<and> Bucket f = bucket \<and> Filename f = cleanFilename filename
      \<and> UploadedBy f = Username up \<and> UploadedAt f = unix_now orc"
  proof (cases "Hash f0 = h")
    case True
    with existing_file_ok(1)[OF assms(2,3)]
    have "FindOne (\<lambda>r. Hash r = h \<and> Bucket r = bucket) (files s0) = Some f0" by simp
    from FindOne_Some[OF this] have "Bucket f0 = bucket" by simp
    with True assms(1) show ?thesis by (auto simp: ingest_process_def)
  next
    case False
    with assms(1) have "ingest_new t cfg orc i bucket h filename up s = (Inr f, s')"
      by (simp add: ingest_process_def)
    from ingest_new_facts(1)[OF this] show ?thesis by (simp add: same_upload_def)
  qed
  then show "Id_file f = i" "Hash f = h" "Bucket f = bucket" "Filename f = cleanFilename filename"
    "UploadedBy f = Username up" "UploadedAt f = unix_now orc" by simp_all
qed

subsection \<open>Ingestion: claims on new content\<close>

lemma existing_file_fresh:
  assumes "existing_file orc h bucket s = Inr f0" and "h \<noteq> []"
    and "\<forall>r\<in>set (files s). \<not> (Hash r = h \<and> Bucket r = bucket)"
  shows "Hash f0 \<noteq> h"
proof
  assume "Hash f0 = h"
  with existing_file_ok(1)[OF assms(1,2)]
  have "FindOne (\<lambda>r. Hash r = h \<and> Bucket r = bucket) (files s) = Some f0" by simp
  from FindOne_Some[OF this] assms(3) show False by blast
qed

lemma detect_mime_eq:
  assumes "read_scratch s i ''original'' = Some b"
  shows "detect_mime t i s = (case file_mime_type t b of (_, Some e) \<Rightarrow> Inl e
                                | (out, None) \<Rightarrow> index (Fields out) 1)"
  using assms by (simp add: detect_mime_def run_on_def)

text \<open>C7: an upload into the bucket \<^verbatim>\<open>icons\<close>, \<^verbatim>\<open>emojis\<close> or \<^verbatim>\<open>stickers\<close> that is
  saved, hashed and looked up without error, whose content is new to the bucket and
  for which \<^verbatim>\<open>file\<close> reports a MIME type that does not start with \<^verbatim>\<open>image/\<close>, is
  refused with \<^verbatim>\<open>ErrUnsupportedFile\<close>; no request is sent to the object store, and the
  objects and the documents are as before.\<close>

theorem ingest_non_image_unsupported:
  assumes gen: "generateId orc = (i, None)"
    and lookup: "ingest_lookup t orc i bucket file uploader s = (Inr (hashHex, f0), s1)"
    and new: "\<forall>r\<in>set (files s). \<not> (Hash r = hashHex \<and> Bucket r = bucket)"
    and mime: "file_mime_type t (hashed_bytes t uploader file) = (out, None)"
              "index (Fields out) 1 = Inr m" "\<not> HasPrefix m ''image/''"
    and bucket: "bucket = ''icons'' \<or> bucket = ''emojis'' \<or> bucket = ''stickers''"
  shows "fst (IngestMultipartFile t cfg orc bucket file filename uploader s)
           = (None, Some ErrUnsupportedFile)
       \<and> s3_log (snd (IngestMultipartFile t cfg orc bucket file filename uploader s)) = s3_log s
       \<and> s3 (snd (IngestMultipartFile t cfg orc bucket file filename uploader s)) = s3 s
       \<and> files (snd (IngestMultipartFile t cfg orc bucket file filename uploader s)) = files s"
proof -
  note ok = ingest_lookup_ok[OF lookup] and fr = ingest_lookup_frame[OF lookup]
  from existing_file_fresh[OF ok(6) ok(4) new] have nh: "Hash f0 \<noteq> hashHex" .
  have dm: "detect_mime t i s1 = Inr m"
    using mime(1,2) by (simp add: detect_mime_eq[OF ok(1)])
  have "ingest_new t cfg orc i bucket hashHex filename uploader s1 = (Inl ErrUnsupportedFile, s1)"
    using dm mime(3) bucket by (auto simp: ingest_new_def Let_def ingest_square_def)
  with nh have "ingest_process t cfg orc i bucket hashHex f0 filename uploader s1
                  = (Inl ErrUnsupportedFile, s1)"
    by (simp add: ingest_process_def)
  with gen lookup have "IngestMultipartFile t cfg orc bucket file filename uploader s
      = ((None, Some ErrUnsupportedFile), RemoveAll i s1)"
    by (simp add: IngestMultipartFile_def)
  with fr show ?thesis by simp
qed

lemma ingest_new_square:
  assumes run: "ingest_new t cfg orc i bucket h filename up s = (Inr f, s')"
    and bucket: "bucket = ''icons'' \<or> bucket = ''emojis'' \<or> bucket = ''stickers''"
    and orig: "read_scratch s i ''original'' = Some hb"
  shows "\<exists>out w ht frames data.
       identify_wh t hb = (out, None) \<and> parse_dimensions out = Inr (w, ht)
     \<and> identify_n t hb = (frames, None)
     \<and> magick_reencode t hb (square_size bucket w ht)
          (if frames \<noteq> ''1'' then ''gif'' else ''webp'') = Inr data
     \<and> Mime f = (if frames \<noteq> ''1'' then ''image/gif'' else ''image/webp'')
     \<and> Size f = (if put_err orc h = None then int (length data) else 0)
     \<and> s3_log s' = s3_log s @ [FPutObject (primary cfg) bucket h data (Mime f)]
     \<and> s3 s' = (if put_err orc h = None
                then (s3 s)(primary cfg := (s3 s (primary cfg))((bucket, h) \<mapsto>
                       \<lparr>content = data, contentType = Mime f\<rparr>))
                else s3 s)
     \<and> files s' = files s"
proof -
  let ?f = "zero_File\<lparr>Id_file := i, Hash := h, Bucket := bucket,
                Filename := cleanFilename filename, UploadRegion := primary cfg,
                UploadedBy := Username up, UploadedAt := unix_now orc\<rparr>"
  from run obtain m where m: "detect_mime t i s = Inr m"
    by (auto simp: ingest_new_def Let_def split: sum.splits)
  let ?probe = "if HasPrefix m ''image/'' then probe_dimensions t (?f\<lparr>Mime := m\<rparr>) ''original'' s
                else Inr (?f\<lparr>Mime := m\<rparr>)"
  from run m obtain f2 where f2: "?probe = Inr f2"
    by (auto simp: ingest_new_def Let_def split: sum.splits)
  from run m f2 bucket have sq: "ingest_square t cfg orc bucket h f2 s = (Inr f, s')"
    by (auto simp: ingest_new_def Let_def)
  from ingest_square_ok[OF sq] obtain frames orig data w' ht' where
    img: "HasPrefix (Mime f2) ''image/''"
    and o2: "read_scratch s (Id_file f2) ''original'' = Some orig"
    and idn: "identify_n t orig = (frames, None)"
    and re: "magick_reencode t orig (square_size bucket (Width f2) (Height f2))
          (if frames \<noteq> ''1'' then ''gif'' else ''webp'') = Inr data"
    and f: "f = f2\<lparr>Mime := (if frames \<noteq> ''1'' then ''image/gif'' else ''image/webp''),
               Size := (if put_err orc h = None then int (length data) else 0),
               Width := w', Height := ht'\<rparr>"
    and lg: "s3_log s' = s3_log s @ [FPutObject (primary cfg) bucket h data
                                 (if frames \<noteq> ''1'' then ''image/gif'' else ''image/webp'')]"
    and st: "s3 s' = (if put_err orc h = None
                then (s3 s)(primary cfg := (s3 s (primary cfg))((bucket, h) \<mapsto>
                       \<lparr>content = data,
                        contentType = (if frames \<noteq> ''1'' then ''image/gif'' else ''image/webp'')\<rparr>))
                else s3 s)"
    and fs: "files s' = files s"
    by blast
  have mm: "HasPrefix m ''image/''"
  proof (rule ccontr)
    assume "\<not> HasPrefix m ''image/''"
    with f2 have "f2 = ?f\<lparr>Mime := m\<rparr>" by simp
    with img \<open>\<not> HasPrefix m ''image/''\<close> show False by simp
  qed
  with f2 have pd: "probe_dimensions t (?f\<lparr>Mime := m\<rparr>) ''original'' s = Inr f2" by simp
  then obtain out w ht where
    wh: "run_on (identify_wh t) (read_scratch s i ''original'') = (out, None)"
    and pa: "parse_dimensions out = Inr (w, ht)" and f2': "f2 = ?f\<lparr>Mime := m, Width := w, Height := ht\<rparr>"
    by (auto simp: probe_dimensions_def split: prod.splits option.splits sum.splits)
  from f2' have id2: "Id_file f2 = i" "Width f2 = w" "Height f2 = ht" by simp_all
  from o2 orig id2 have oo: "orig = hb" by simp
  from wh orig have wh': "identify_wh t hb = (out, None)" by (simp add: run_on_def)
  have mf: "Mime f = (if frames \<noteq> ''1'' then ''image/gif'' else ''image/webp'')"
    and sf: "Size f = (if put_err orc h = None then int (length data) else 0)"
    by (simp_all add: f)
  have lg': "s3_log s' = s3_log s @ [FPutObject (primary cfg) bucket h data (Mime f)]"
    using lg mf by simp
  have st': "s3 s' = (if put_err orc h = None
                then (s3 s)(primary cfg := (s3 s (primary cfg))((bucket, h) \<mapsto>
                       \<lparr>content = data, contentType = Mime f\<rparr>))
                else s3 s)"
    using st mf by simp
  have re': "magick_reencode t hb (square_size bucket w ht)
          (if frames \<noteq> ''1'' then ''gif'' else ''webp'') = Inr data"
    using re by (simp add: oo id2)
  have idn': "identify_n t hb = (frames, None)" using idn by (simp add: oo)
  show ?thesis
    apply (intro exI conjI)
            apply (rule wh')
           apply (rule pa)
          apply (rule idn')
         apply (rule re')
        apply (rule mf)
       apply (rule sf)
      apply (rule lg')
     apply (rule st')
    apply (rule fs)
    done
qed

lemma IngestMultipartFile_square:
  assumes run: "IngestMultipartFile t cfg orc bucket file filename up s = ((Some f, e), s')"
    and new: "\<forall>r\<in>set (files s). \<not> (Hash r = Hash f \<and> Bucket r = bucket)"
    and bucket: "bucket = ''icons'' \<or> bucket = ''emojis'' \<or> bucket = ''stickers''"
  shows "\<exists>out w ht frames data.
       identify_wh t (hashed_bytes t up file) = (out, None) \<and> parse_dimensions out = Inr (w, ht)
     \<and> identify_n t (hashed_bytes t up file) = (frames, None)
     \<and> magick_reencode t (hashed_bytes t up file) (square_size bucket w ht)
          (if frames \<noteq> ''1'' then ''gif'' else ''webp'') = Inr data
     \<and> Mime f = (if frames \<noteq> ''1'' then ''image/gif'' else ''image/webp'')
     \<and> Size f = (if put_err orc (Hash f) = None then int (length data) else 0)
     \<and> s3_log s' = s3_log s @ [FPutObject (primary cfg) bucket (Hash f) data (Mime f)]
     \<and> s3 s' = (if put_err orc (Hash f) = None
                then (s3 s)(primary cfg := (s3 s (primary cfg))((bucket, Hash f) \<mapsto>
                       \<lparr>content = data, contentType = Mime f\<rparr>))
                else s3 s)"
proof -
  from IngestMultipartFile_assembled[OF run] obtain i h f0 s1 s2 sc where
    lookup: "ingest_lookup t orc i bucket file up s = (Inr (h, f0), s1)"
    and proc: "ingest_process t cfg orc i bucket h f0 filename up s1 = (Inr f, s2)"
    and ins: "InsertOne orc f s2 = (e, sc)" and s': "s' = RemoveAll i sc"
    by blast
  note ok = ingest_lookup_ok[OF lookup] and fr = ingest_lookup_frame[OF lookup]
  from ingest_process_facts(2)[OF proc ok(6) ok(4)] have hf: "Hash f = h" .
  from existing_file_fresh[OF ok(6) ok(4)] new hf have "Hash f0 \<noteq> h" by simp
  with proc have nw: "ingest_new t cfg orc i bucket h filename up s1 = (Inr f, s2)"
    by (simp add: ingest_process_def)
  from ingest_new_square[OF nw bucket ok(1)] obtain out w ht frames data where
    a: "identify_wh t (hashed_bytes t up file) = (out, None)" "parse_dimensions out = Inr (w, ht)"
       "identify_n t (hashed_bytes t up file) = (frames, None)"
       "magick_reencode t (hashed_bytes t up file) (square_size bucket w ht)
          (if frames \<noteq> ''1'' then ''gif'' else ''webp'') = Inr data"
       "Mime f = (if frames \<noteq> ''1'' then ''image/gif'' else ''image/webp'')"
       "Size f = (if put_err orc h = None then int (length data) else 0)"
    and lg: "s3_log s2 = s3_log s1 @ [FPutObject (primary cfg) bucket h data (Mime f)]"
    and st: "s3 s2 = (if put_err orc h = None
                then (s3 s1)(primary cfg := (s3 s1 (primary cfg))((bucket, h) \<mapsto>
                       \<lparr>content = data, contentType = Mime f\<rparr>))
                else s3 s1)"
    by blast
  note i = InsertOne_frame[OF ins]
  have lg': "s3_log s' = s3_log s @ [FPutObject (primary cfg) bucket (Hash f) data (Mime f)]"
    using lg i(2) fr s' hf by simp
  have st': "s3 s' = (if put_err orc (Hash f) = None
                then (s3 s)(primary cfg := (s3 s (primary cfg))((bucket, Hash f) \<mapsto>
                       \<lparr>content = data, contentType = Mime f\<rparr>))
                else s3 s)"
    using st i(1) fr s' hf by simp
  have sz: "Size f = (if put_err orc (Hash f) = None then int (length data) else 0)"
    using a(6) hf by simp
  show ?thesis
    apply (intro exI conjI)
           apply (rule a(1))
          apply (rule a(2))
         apply (rule a(3))
        apply (rule a(4))
       apply (rule a(5))
      apply (rule sz)
     apply (rule lg')
    apply (rule st')
    done
qed

text \<open>C8: when an upload of new content into the bucket \<^verbatim>\<open>icons\<close>, \<^verbatim>\<open>emojis\<close> or
  \<^verbatim>\<open>stickers\<close> yields a file, its MIME type is \<^verbatim>\<open>image/webp\<close> when \<^verbatim>\<open>identify\<close> prints
  \<^verbatim>\<open>1\<close> for the number of frames and \<^verbatim>\<open>image/gif\<close> otherwise; the canonical object that
  is written is the re-encoding in that format, sent with that content type.\<close>

theorem ingest_square_format:
  assumes run: "IngestMultipartFile t cfg orc bucket file filename up s = ((Some f, e), s')"
    and new: "\<forall>r\<in>set (files s). \<not> (Hash r = Hash f \<and> Bucket r = bucket)"
    and bucket: "bucket = ''icons'' \<or> bucket = ''emojis'' \<or> bucket = ''stickers''"
  shows "Mime f = (if fst (identify_n t (hashed_bytes t up file)) = ''1''
                   then ''image/webp'' else ''image/gif'')
       \<and> (\<exists>n data. magick_reencode t (hashed_bytes t up file) n
                      (if fst (identify_n t (hashed_bytes t up file)) = ''1''
                       then ''webp'' else ''gif'') = Inr data
            \<and> s3_log s' = s3_log s @ [FPutObject (primary cfg) bucket (Hash f) data (Mime f)])"
proof -
  from IngestMultipartFile_square[OF run new bucket] obtain w ht frames data where
    a: "identify_n t (hashed_bytes t up file) = (frames, None)"
       "magick_reencode t (hashed_bytes t up file) (square_size bucket w ht)
          (if frames \<noteq> ''1'' then ''gif'' else ''webp'') = Inr data"
       "Mime f = (if frames \<noteq> ''1'' then ''image/gif'' else ''image/webp'')"
       "s3_log s' = s3_log s @ [FPutObject (primary cfg) bucket (Hash f) data (Mime f)]"
    by blast
  from a(1) have fr: "fst (identify_n t (hashed_bytes t up file)) = frames" by simp
  have m: "Mime f = (if fst (identify_n t (hashed_bytes t up file)) = ''1''
                   then ''image/webp'' else ''image/gif'')"
    using a(3) by (simp add: fr)
  have r: "magick_reencode t (hashed_bytes t up file) (square_size bucket w ht)
                      (if fst (identify_n t (hashed_bytes t up file)) = ''1''
                       then ''webp'' else ''gif'') = Inr data"
    using a(2) by (cases "frames = ''1''") (simp_all add: fr)
  from m r a(4) show ?thesis by blast
qed

subsection \<open>What the code reads from the output of identify\<close>

text \<open>The width is read as printed. The height is read as printed when the image has
  one frame; with more frames the second field of the output is the height of the
  first frame followed by the width of the second, and the number read is at least
  the width.\<close>

lemma digit_char:
  assumes "d < 10"
  shows "isDigit (''0123456789'' ! d)" and "int (of_char (''0123456789'' ! d)) - 48 = int d"
    and "''0123456789'' ! d \<noteq> CHR '',''"
proof -
  from assms have "d = 0 \<or> d = 1 \<or> d = 2 \<or> d = 3 \<or> d = 4 \<or> d = 5 \<or> d = 6 \<or> d = 7 \<or> d = 8 \<or> d = 9"
    by arith
  then show "isDigit (''0123456789'' ! d)" and "int (of_char (''0123456789'' ! d)) - 48 = int d"
    and "''0123456789'' ! d \<noteq> CHR '',''"
    by (auto simp: isDigit_def)
qed


lemma decimal_digits: "list_all isDigit (decimal n)"
proof (induction n rule: decimal.induct)
  case (1 n)
  show ?case
  proof (cases "n < 10")
    case True
    then show ?thesis using digit_char(1)[of n] by (simp add: decimal.simps[of n])
  next
    case False
    have "n mod 10 < 10" by simp
    from digit_char(1)[OF this] 1[OF False] False show ?thesis
      by (simp add: decimal.simps[of n])
  qed
qed

lemma decimal_nonempty: "decimal n \<noteq> []"
  by (subst decimal.simps) simp

lemma digits_value_snoc: "digits_value (ds @ [c]) = 10 * digits_value ds + (int (of_char c) - 48)"
  by (simp add: digits_value_def)

lemma digits_value_decimal: "digits_value (decimal n) = int n"
proof (induction n rule: decimal.induct)
  case (1 n)
  show ?case
  proof (cases "n < 10")
    case True
    from digit_char(2)[OF True] have "digits_value [''0123456789'' ! n] = int n"
      unfolding digits_value_def by simp
    with True show ?thesis by (simp add: decimal.simps[of n])
  next
    case False
    have "n mod 10 < 10" by simp
    from digit_char(2)[OF this] have d: "int (of_char (''0123456789'' ! (n mod 10))) - 48 = int (n mod 10)" .
    have "digits_value (decimal n) = 10 * digits_value (decimal (n div 10)) + int (n mod 10)"
      using False by (simp only: decimal.simps[of n] if_False digits_value_snoc d)
    also have "\<dots> = 10 * int (n div 10) + int (n mod 10)" by (simp only: 1[OF False])
    also have "\<dots> = int n" by (simp add: zdiv_int zmod_int)
    finally show ?thesis .
  qed
qed

lemma digits_value_nonneg: "list_all isDigit ds \<Longrightarrow> 0 \<le> digits_value ds"
proof (induction ds rule: rev_induct)
  case Nil
  then show ?case by (simp add: digits_value_def)
next
  case (snoc c ds)
  then have "0 \<le> digits_value ds" and "isDigit c" by simp_all
  then show ?case unfolding digits_value_snoc by (simp add: isDigit_def)
qed

lemma digits_value_append:
  "list_all isDigit as \<Longrightarrow> list_all isDigit bs \<Longrightarrow> digits_value bs \<le> digits_value (as @ bs)"
proof (induction bs rule: rev_induct)
  case Nil
  then show ?case using digits_value_nonneg[of as] by (simp add: digits_value_def)
next
  case (snoc c bs)
  then have "digits_value bs \<le> digits_value (as @ bs)" by simp
  moreover have "digits_value (as @ bs @ [c]) = 10 * digits_value (as @ bs) + (int (of_char c) - 48)"
    using digits_value_snoc[of "as @ bs" c] by simp
  ultimately show ?case by (simp add: digits_value_snoc)
qed

lemma Atoi_digits:
  assumes "ds \<noteq> []" and "list_all isDigit ds"
  shows "Atoi ds = min (2 ^ 63 - 1) (digits_value ds)"
proof -
  from assms obtain c cs where ds: "ds = c # cs" by (cases ds) auto
  with assms(2) have "isDigit c" by simp
  then have "c \<noteq> CHR ''-''" "c \<noteq> CHR ''+''" by (auto simp: isDigit_def)
  with assms show ?thesis by (simp add: Atoi_def ds)
qed

lemma split_acc_digits:
  "list_all isDigit as \<Longrightarrow>
     split_acc (CHR '','') acc (as @ rest) = split_acc (CHR '','') (acc @ as) rest"
  by (induction as arbitrary: acc) (auto simp: isDigit_def)

lemma Split_prints_one: "Split (identify_prints 1 w h) (CHR '','') = [decimal w, decimal h]"
  using split_acc_digits[OF decimal_digits, of "[]" w "CHR '','' # decimal h"]
    split_acc_digits[OF decimal_digits, of "[]" h "[]"]
  by (simp add: Split_def identify_prints_def)

lemma Split_prints_more:
  "\<exists>rest. Split (identify_prints (Suc (Suc k)) w h) (CHR '','')
     = decimal w # (decimal h @ decimal w) # rest"
proof -
  let ?r = "concat (replicate k (decimal w @ '','' @ decimal h))"
  have dd: "list_all isDigit (decimal h @ decimal w)" by (simp add: decimal_digits)
  have "Split (identify_prints (Suc (Suc k)) w h) (CHR '','')
      = split_acc (CHR '','') [] (decimal w @ (CHR '','' # ((decimal h @ decimal w) @ (CHR '','' # (decimal h @ ?r)))))"
    by (simp add: Split_def identify_prints_def)
  also have "\<dots> = split_acc (CHR '','') ([] @ decimal w) (CHR '','' # ((decimal h @ decimal w) @ (CHR '','' # (decimal h @ ?r))))"
    by (rule split_acc_digits[OF decimal_digits])
  also have "\<dots> = decimal w # split_acc (CHR '','') [] ((decimal h @ decimal w) @ (CHR '','' # (decimal h @ ?r)))"
    by simp
  also have "\<dots> = decimal w # split_acc (CHR '','') ([] @ (decimal h @ decimal w)) (CHR '','' # (decimal h @ ?r))"
    by (simp only: split_acc_digits[OF dd])
  also have "\<dots> = decimal w # (decimal h @ decimal w) # split_acc (CHR '','') [] (decimal h @ ?r)"
    by simp
  finally show ?thesis by blast
qed

lemma parse_dimensions_prints:
  assumes "0 < n"
  shows "\<exists>ht. parse_dimensions (identify_prints n w h) = Inr (min (2 ^ 63 - 1) (int w), ht)
     \<and> (n = 1 \<longrightarrow> ht = min (2 ^ 63 - 1) (int h))
     \<and> (1 < n \<longrightarrow> min (2 ^ 63 - 1) (int w) \<le> ht)"
proof (cases n)
  case 0
  with assms show ?thesis by simp
next
  case (Suc m)
  show ?thesis
  proof (cases m)
    case 0
    with Suc have n: "n = 1" by simp
    show ?thesis unfolding n
      by (simp add: parse_dimensions_def Split_prints_one[unfolded One_nat_def] index_def
          Atoi_digits decimal_digits decimal_nonempty digits_value_decimal Let_def)
  next
    case (Suc k)
    with \<open>n = Suc m\<close> have n: "n = Suc (Suc k)" by simp
    from Split_prints_more obtain rest where
      sp: "Split (identify_prints (Suc (Suc k)) w h) (CHR '','') = decimal w # (decimal h @ decimal w) # rest"
      by blast
    have dd: "list_all isDigit (decimal h @ decimal w)" by (simp add: decimal_digits)
    have ne: "decimal h @ decimal w \<noteq> []" by (simp add: decimal_nonempty)
    have le: "int w \<le> digits_value (decimal h @ decimal w)"
      using digits_value_append[OF decimal_digits[of h] decimal_digits[of w]]
      by (simp add: digits_value_decimal)
    have "parse_dimensions (identify_prints (Suc (Suc k)) w h)
        = Inr (min (2 ^ 63 - 1) (int w), min (2 ^ 63 - 1) (digits_value (decimal h @ decimal w)))"
      by (simp add: parse_dimensions_def sp index_def Atoi_digits[OF decimal_nonempty decimal_digits]
          Atoi_digits[OF ne dd] digits_value_decimal Let_def)
    with le show ?thesis unfolding n by auto
  qed
qed


lemma square_size_facts:
  "square_size bucket w ht = (if w < square_cap bucket then w else min (square_cap bucket) ht)"
  "square_size bucket w ht \<le> square_cap bucket"
  "square_size bucket w ht \<le> max w ht"
  "square_cap bucket \<le> w \<or> w \<le> ht \<Longrightarrow> square_size bucket w ht = min (square_cap bucket) (min w ht)"
  by (auto simp: square_size_def Let_def)

text \<open>The box of a thumbnail, from the sides read for an attachment: with one frame it
  is \<open>min 480 (max w h)\<close>; with more frames it is taken from the height that was read,
  and only bounded below.\<close>

lemma thumbnail_size_prints:
  assumes "0 < n" and p: "parse_dimensions (identify_prints n w h) = Inr (wd, ht)"
  shows "n = 1 \<Longrightarrow> thumbnail_size (f\<lparr>Width := wd, Height := ht\<rparr>) = min 480 (max (int w) (int h))"
    and "1 < n \<Longrightarrow> min 480 (int w) \<le> thumbnail_size (f\<lparr>Width := wd, Height := ht\<rparr>)"
proof -
  from parse_dimensions_prints[OF assms(1), of w h] p
  have wd: "wd = min (2 ^ 63 - 1) (int w)"
    and one: "n = 1 \<Longrightarrow> ht = min (2 ^ 63 - 1) (int h)"
    and more: "1 < n \<Longrightarrow> min (2 ^ 63 - 1) (int w) \<le> ht" by auto
  show "n = 1 \<Longrightarrow> thumbnail_size (f\<lparr>Width := wd, Height := ht\<rparr>) = min 480 (max (int w) (int h))"
    using wd one by (auto simp: thumbnail_size_def Let_def)
  show "1 < n \<Longrightarrow> min 480 (int w) \<le> thumbnail_size (f\<lparr>Width := wd, Height := ht\<rparr>)"
    using wd more by (auto simp: thumbnail_size_def Let_def)
qed


subsection \<open>Ingestion: the same bytes twice\<close>

lemma hashed_bytes_flag:
  "(Flags up1 AND FlagUltraHDUploads \<noteq> 0) = (Flags up2 AND FlagUltraHDUploads \<noteq> 0)
   \<Longrightarrow> hashed_bytes t up1 file = hashed_bytes t up2 file"
  by (simp add: hashed_bytes_def)

lemma without_thumbnail_keys:
  assumes "map without_thumbnail xs = map without_thumbnail ys"
    and "\<forall>r\<in>set ys. \<not> (Hash r = h \<and> Bucket r = b)"
  shows "\<forall>r\<in>set xs. \<not> (Hash r = h \<and> Bucket r = b)"
proof
  fix r assume "r \<in> set xs"
  then have "without_thumbnail r \<in> set (map without_thumbnail ys)"
    using assms(1) by (metis imageI set_map)
  then obtain r' where "r' \<in> set ys" "without_thumbnail r' = without_thumbnail r" by auto
  then have "r' \<in> set ys" "Hash r' = Hash r" "Bucket r' = Bucket r"
    by (auto simp: without_thumbnail_def dest: arg_cong[where f=Hash] arg_cong[where f=Bucket])
  with assms(2) show "\<not> (Hash r = h \<and> Bucket r = b)" by metis
qed

lemma one_canonical_put_count:
  assumes "one_canonical_put cfg bucket h qs"
  shows "length (filter (canonical_put bucket h) (lg @ qs))
       = length (filter (canonical_put bucket h) lg) + 1"
  using assms by (auto simp: one_canonical_put_def canonical_put_def)

lemma IngestMultipartFile_stored:
  assumes run: "IngestMultipartFile t cfg orc bucket file filename up s = ((Some f, None), s')"
  shows "\<exists>fs. files s' = fs @ [f] \<and> map without_thumbnail fs = map without_thumbnail (files s)
              \<and> Id_file f \<notin> Id_file ` set fs"
    and "Bucket f = bucket"
    and "index (Fields (fst (sha256sum t (hashed_bytes t up file)))) 0 = Inr (Hash f)"
    and "Hash f \<noteq> []"
    and "(\<forall>r\<in>set (files s). \<not> (Hash r = Hash f \<and> Bucket r = bucket)) \<Longrightarrow>
         bucket \<in> {''icons'', ''emojis'', ''stickers'', ''attachments''} \<Longrightarrow>
         length (filter (canonical_put bucket (Hash f)) (s3_log s'))
           = length (filter (canonical_put bucket (Hash f)) (s3_log s)) + 1"
    and "(\<forall>r\<in>set (files s). \<not> (Hash r = Hash f \<and> Bucket r = bucket)) \<Longrightarrow> Claimed f = False"
proof -
  from IngestMultipartFile_assembled[OF run] obtain i h f0 s1 s2 sc where
    lookup: "ingest_lookup t orc i bucket file up s = (Inr (h, f0), s1)"
    and proc: "ingest_process t cfg orc i bucket h f0 filename up s1 = (Inr f, s2)"
    and ins: "InsertOne orc f s2 = (None, sc)" and s': "s' = RemoveAll i sc"
    by blast
  note ok = ingest_lookup_ok[OF lookup] and fr = ingest_lookup_frame[OF lookup]
  note pf = ingest_process_facts[OF proc ok(6) ok(4)] and io = InsertOne_ok[OF ins]
  show "Bucket f = bucket" by (rule pf(3))
  show "index (Fields (fst (sha256sum t (hashed_bytes t up file)))) 0 = Inr (Hash f)"
    using ok(3) pf(2) by simp
  show "Hash f \<noteq> []" using ok(4) pf(2) by simp
  have w2: "map without_thumbnail (files s2) = map without_thumbnail (files s)"
  proof (cases "Hash f0 = h")
    case True
    with proc have "s2 = s1" by (simp add: ingest_process_def)
    with fr show ?thesis by simp
  next
    case False
    with proc have "ingest_new t cfg orc i bucket h filename up s1 = (Inr f, s2)"
      by (simp add: ingest_process_def)
    from ingest_new_facts(3)[OF this] fr show ?thesis by simp
  qed
  have "files s' = files s2 @ [f]" using io(1) s' by simp
  with w2 io(2) show "\<exists>fs. files s' = fs @ [f] \<and> map without_thumbnail fs = map without_thumbnail (files s)
              \<and> Id_file f \<notin> Id_file ` set fs" by blast
  {
    assume new: "\<forall>r\<in>set (files s). \<not> (Hash r = Hash f \<and> Bucket r = bucket)"
    from existing_file_fresh[OF ok(6) ok(4)] new pf(2) have "Hash f0 \<noteq> h" by simp
    with proc have nw: "ingest_new t cfg orc i bucket h filename up s1 = (Inr f, s2)"
      by (simp add: ingest_process_def)
    from ingest_new_facts(1)[OF nw] show "Claimed f = False"
      by (simp add: same_upload_def zero_File_def)
    assume "bucket \<in> {''icons'', ''emojis'', ''stickers'', ''attachments''}"
    from ingest_new_facts(2)[OF nw this] obtain qs where
      "s3_log s2 = s3_log s1 @ qs" "one_canonical_put cfg bucket h qs" by blast
    with one_canonical_put_count[of cfg bucket h qs "s3_log s"] fr io(4) s' pf(2)
    show "length (filter (canonical_put bucket (Hash f)) (s3_log s'))
           = length (filter (canonical_put bucket (Hash f)) (s3_log s)) + 1"
      by simp
  }
qed

lemma IngestMultipartFile_dedup:
  assumes run: "IngestMultipartFile t cfg orc bucket file filename up s = ((Some f, None), s')"
    and found: "r \<in> set (files s)" "Bucket r = bucket"
               "index (Fields (fst (sha256sum t (hashed_bytes t up file)))) 0 = Inr (Hash r)"
    and nodoc: "db_err orc ''files.FindOne'' \<noteq> Some ErrNoDocuments"
  shows "\<exists>r'. FindOne (\<lambda>x. Hash x = Hash r \<and> Bucket x = bucket) (files s) = Some r'
             \<and> f = r'\<lparr>Id_file := Id_file f, Filename := cleanFilename filename,
                       UploadedBy := Username up, UploadedAt := unix_now orc\<rparr>"
    and "s3_log s' = s3_log s" and "s3 s' = s3 s" and "files s' = files s @ [f]"
    and "Id_file f \<notin> Id_file ` set (files s)"
proof -
  from IngestMultipartFile_assembled[OF run] obtain i h f0 s1 s2 sc where
    lookup: "ingest_lookup t orc i bucket file up s = (Inr (h, f0), s1)"
    and proc: "ingest_process t cfg orc i bucket h f0 filename up s1 = (Inr f, s2)"
    and ins: "InsertOne orc f s2 = (None, sc)" and s': "s' = RemoveAll i sc"
    by blast
  note ok = ingest_lookup_ok[OF lookup] and fr = ingest_lookup_frame[OF lookup]
  note io = InsertOne_ok[OF ins]
  from ok(3) found(3) have h: "h = Hash r" by simp
  have "FindOne (\<lambda>x. Hash x = h \<and> Bucket x = bucket) (files s) \<noteq> None"
    using found(1,2) h by (auto simp: FindOne_None)
  then obtain r' where r': "FindOne (\<lambda>x. Hash x = h \<and> Bucket x = bucket) (files s) = Some r'"
    by blast
  with ok(6) nodoc have f0: "f0 = r'"
    by (auto simp: existing_file_def split: option.splits if_splits)
  from FindOne_Some[OF r'] have hr: "Hash r' = h" by simp
  with proc f0 have f: "f = r'\<lparr>Id_file := i, Filename := cleanFilename filename,
                       UploadedBy := Username up, UploadedAt := unix_now orc\<rparr>" and s2: "s2 = s1"
    by (auto simp: ingest_process_def)
  from f have "Id_file f = i" by simp
  with f r' h show "\<exists>r'. FindOne (\<lambda>x. Hash x = Hash r \<and> Bucket x = bucket) (files s) = Some r'
             \<and> f = r'\<lparr>Id_file := Id_file f, Filename := cleanFilename filename,
                       UploadedBy := Username up, UploadedAt := unix_now orc\<rparr>"
    by auto
  show "s3_log s' = s3_log s" "s3 s' = s3 s" "files s' = files s @ [f]"
    "Id_file f \<notin> Id_file ` set (files s)"
    using io fr s' s2 by simp_all
qed

text \<open>C4, as the code has it: when the same bytes are uploaded twice to the same bucket
  by uploaders whose Ultra-HD flag agrees, and both uploads yield a file, the two files
  have different ids and the same hash; the second file is a copy of a document of
  that hash and bucket, but for its id, file name, uploader and time; the second upload
  sends nothing to the object store. When the content was new to the bucket before the
  first upload, the second file copies the first, and the two uploads together send
  exactly one write of the canonical object.\<close>

theorem ingest_twice_same_flag:
  assumes first: "IngestMultipartFile t cfg orc1 bucket file name1 up1 s0 = ((Some f1, None), s1)"
    and second: "IngestMultipartFile t cfg orc2 bucket file name2 up2 s1 = ((Some f2, None), s2)"
    and flag: "(Flags up1 AND FlagUltraHDUploads \<noteq> 0) = (Flags up2 AND FlagUltraHDUploads \<noteq> 0)"
    and nodoc: "db_err orc2 ''files.FindOne'' \<noteq> Some ErrNoDocuments"
  shows "Id_file f1 \<noteq> Id_file f2 \<and> Hash f2 = Hash f1
       \<and> (\<exists>r\<in>set (files s1). Hash r = Hash f1 \<and> Bucket r = bucket
             \<and> f2 = r\<lparr>Id_file := Id_file f2, Filename := cleanFilename name2,
                       UploadedBy := Username up2, UploadedAt := unix_now orc2\<rparr>)
       \<and> s3_log s2 = s3_log s1 \<and> s3 s2 = s3 s1
       \<and> ((\<forall>r\<in>set (files s0). \<not> (Hash r = Hash f1 \<and> Bucket r = bucket))
            \<and> bucket \<in> {''icons'', ''emojis'', ''stickers'', ''attachments''} \<longrightarrow>
            f2 = f1\<lparr>Id_file := Id_file f2, Filename := cleanFilename name2,
                     UploadedBy := Username up2, UploadedAt := unix_now orc2\<rparr>
            \<and> length (filter (canonical_put bucket (Hash f1)) (s3_log s2))
                = length (filter (canonical_put bucket (Hash f1)) (s3_log s0)) + 1)"
proof -
  note a = IngestMultipartFile_stored[OF first]
  from a(1) obtain fs where fs: "files s1 = fs @ [f1]"
    "map without_thumbnail fs = map without_thumbnail (files s0)" by blast
  have in1: "f1 \<in> set (files s1)" using fs(1) by simp
  have hb: "hashed_bytes t up2 file = hashed_bytes t up1 file"
    using hashed_bytes_flag[OF flag] by simp
  have h2: "index (Fields (fst (sha256sum t (hashed_bytes t up2 file)))) 0 = Inr (Hash f1)"
    using a(3) hb by simp
  note b = IngestMultipartFile_dedup[OF second in1 a(2) h2 nodoc]
  from b(1) obtain r where
    r: "FindOne (\<lambda>x. Hash x = Hash f1 \<and> Bucket x = bucket) (files s1) = Some r"
    and f2: "f2 = r\<lparr>Id_file := Id_file f2, Filename := cleanFilename name2,
                       UploadedBy := Username up2, UploadedAt := unix_now orc2\<rparr>"
    by blast
  from FindOne_Some[OF r] have rr: "Hash r = Hash f1" "Bucket r = bucket" "r \<in> set (files s1)"
    by simp_all
  have c1: "Id_file f1 \<noteq> Id_file f2" using b(5) in1 by (metis imageI)
  have c2: "Hash f2 = Hash f1" using arg_cong[OF f2, of Hash] rr(1) by simp
  have c3: "\<exists>r\<in>set (files s1). Hash r = Hash f1 \<and> Bucket r = bucket
             \<and> f2 = r\<lparr>Id_file := Id_file f2, Filename := cleanFilename name2,
                       UploadedBy := Username up2, UploadedAt := unix_now orc2\<rparr>"
    using rr f2 by blast
  have c5: "f2 = f1\<lparr>Id_file := Id_file f2, Filename := cleanFilename name2,
                     UploadedBy := Username up2, UploadedAt := unix_now orc2\<rparr>
            \<and> length (filter (canonical_put bucket (Hash f1)) (s3_log s2))
                = length (filter (canonical_put bucket (Hash f1)) (s3_log s0)) + 1"
    if new: "\<forall>r\<in>set (files s0). \<not> (Hash r = Hash f1 \<and> Bucket r = bucket)"
    and bk: "bucket \<in> {''icons'', ''emojis'', ''stickers'', ''attachments''}"
  proof -
    from without_thumbnail_keys[OF fs(2) new]
    have "filter (\<lambda>x. Hash x = Hash f1 \<and> Bucket x = bucket) fs = []"
      by (simp add: filter_empty_conv)
    with r fs(1) a(2) have "r = f1" by (simp add: FindOne_def)
    with f2 a(5)[OF new bk] b(2) show ?thesis by simp
  qed
  from c1 c2 c3 b(2,3) c5 show ?thesis by blast
qed

subsection \<open>The ids of the documents stay distinct\<close>

text \<open>\<^verbatim>\<open>_id\<close> is the primary key of the collection. Every operation of the model keeps
  the ids of the documents distinct, whatever it returns: an ingestion, a read, a
  \<^verbatim>\<open>Delete\<close> and a sweep. So the statements about \<^verbatim>\<open>Delete\<close> and the sweep, which
  ask for distinct ids, hold in every state these operations reach from an empty
  collection.\<close>

lemma without_thumbnail_ids:
  "map without_thumbnail xs = map without_thumbnail ys \<Longrightarrow> map Id_file xs = map Id_file ys"
proof -
  assume a: "map without_thumbnail xs = map without_thumbnail ys"
  have "map Id_file xs = map Id_file (map without_thumbnail xs)"
    by (simp add: without_thumbnail_def o_def)
  also have "\<dots> = map Id_file (map without_thumbnail ys)" by (simp only: a)
  also have "\<dots> = map Id_file ys" by (simp add: without_thumbnail_def o_def)
  finally show ?thesis .
qed

lemma ingest_square_files:
  "ingest_square t cfg orc bucket h f s = (r, s') \<Longrightarrow> files s' = files s"
  by (auto simp: ingest_square_def Let_def s3_FPutObject_def
      split: if_splits prod.splits option.splits sum.splits)

lemma ingest_attachment_image_files:
  assumes "ingest_attachment_image t cfg orc bucket h f s = (r, s')"
  shows "map without_thumbnail (files s') = map without_thumbnail (files s)"
proof (cases "convert_on (magick_optimize t) (read_scratch s (Id_file f) ''original'')")
  case (Inl e)
  with assms show ?thesis by (simp add: ingest_attachment_image_def)
next
  case (Inr data)
  let ?s1 = "write_scratch (Id_file f) ''optimized'' data s"
  obtain sz pe s2 where put: "s3_FPutObject orc (primary cfg) bucket h data (Mime f) ?s1 = ((sz, pe), s2)"
    by (metis prod.exhaust)
  obtain te f2 sc where gen: "GenerateThumbnail t cfg orc (f\<lparr>Size := sz\<rparr>) s2 = (te, f2, sc)"
    by (metis prod.exhaust)
  from assms Inr put gen have "s' = sc"
    by (auto simp: ingest_attachment_image_def Let_def split: option.splits)
  with GenerateThumbnail_any(4)[OF gen] s3_FPutObject_effect(1)[OF put] show ?thesis by simp
qed

lemma FPutObject_file_files:
  "FPutObject_file orc r b k file ct s = (res, s') \<Longrightarrow> files s' = files s"
  by (auto simp: FPutObject_file_def s3_FPutObject_def Let_def split: option.splits)

lemma ingest_attachment_video_files:
  assumes "ingest_attachment_video t cfg orc bucket h f s = (r, s')"
  shows "map without_thumbnail (files s') = map without_thumbnail (files s)"
proof -
  obtain sz pe s1 where put: "FPutObject_file orc (primary cfg) bucket h
             (read_scratch s (Id_file f) ''original'') (Mime f) s = ((sz, pe), s1)"
    by (metis prod.exhaust)
  note p = FPutObject_file_files[OF put]
  show ?thesis
  proof (cases "convert_on (ffmpeg_first_frame t) (read_scratch s1 (Id_file f) ''original'')")
    case (Inl e)
    with assms put p show ?thesis by (simp add: ingest_attachment_video_def)
  next
    case (Inr frame)
    let ?s2 = "write_scratch (Id_file f) ''first_frame.jpg'' frame s1"
    show ?thesis
    proof (cases "probe_dimensions t (f\<lparr>Size := sz\<rparr>) ''first_frame.jpg'' ?s2")
      case (Inl e)
      with assms put p Inr show ?thesis
        by (auto simp: ingest_attachment_video_def Let_def write_scratch_def split: option.splits)
    next
      case f2: (Inr f2)
      obtain te f3 sc where gen: "GenerateThumbnail t cfg orc f2 ?s2 = (te, f3, sc)"
        by (metis prod.exhaust)
      from assms put Inr f2 gen have "s' = sc"
        by (auto simp: ingest_attachment_video_def Let_def split: option.splits)
      with GenerateThumbnail_any(4)[OF gen] p show ?thesis by simp
    qed
  qed
qed

lemma ingest_attachment_other_files:
  "ingest_attachment_other cfg orc bucket h f s = (r, s') \<Longrightarrow> files s' = files s"
  by (auto simp: ingest_attachment_other_def split: prod.splits option.splits
      dest: FPutObject_file_files)

lemma ingest_new_files:
  assumes "ingest_new t cfg orc i bucket h filename up s = (r, s')"
  shows "map without_thumbnail (files s') = map without_thumbnail (files s)"
  using assms
  by (auto simp: ingest_new_def Let_def split: sum.splits if_splits
      dest: ingest_square_files ingest_attachment_image_files ingest_attachment_video_files
        ingest_attachment_other_files)

lemma ingest_process_files:
  assumes "ingest_process t cfg orc i bucket h f0 filename up s = (r, s')"
  shows "map without_thumbnail (files s') = map without_thumbnail (files s)"
  using assms by (auto simp: ingest_process_def split: if_splits dest: ingest_new_files)

lemma InsertOne_distinct:
  assumes "InsertOne orc f s = (res, s')" and "distinct (map Id_file (files s))"
  shows "distinct (map Id_file (files s'))"
  using assms by (auto simp: InsertOne_def split: option.splits if_splits)

lemma IngestMultipartFile_distinct:
  assumes run: "IngestMultipartFile t cfg orc bucket file filename up s = (res, s')"
    and d: "distinct (map Id_file (files s))"
  shows "distinct (map Id_file (files s'))"
proof -
  obtain i ge where g: "generateId orc = (i, ge)" by (metis prod.exhaust)
  show ?thesis
  proof (cases ge)
    case (Some e)
    with run g d show ?thesis by (simp add: IngestMultipartFile_def)
  next
    case None
    obtain r1 s1 where l: "ingest_lookup t orc i bucket file up s = (r1, s1)" by (metis prod.exhaust)
    note fr = ingest_lookup_frame[OF l]
    show ?thesis
    proof (cases r1)
      case (Inl e)
      with run g None l fr d show ?thesis
        by (auto simp: IngestMultipartFile_def RemoveAll_def)
    next
      case (Inr hf)
      obtain h f0 where hf: "hf = (h, f0)" by (metis prod.exhaust)
      obtain r2 s2 where p: "ingest_process t cfg orc i bucket h f0 filename up s1 = (r2, s2)"
        by (metis prod.exhaust)
      from without_thumbnail_ids[OF ingest_process_files[OF p]] fr d
      have d2: "distinct (map Id_file (files s2))" by simp
      show ?thesis
      proof (cases r2)
        case (Inl e)
        with run g None l Inr hf p d2 show ?thesis
          by (auto simp: IngestMultipartFile_def RemoveAll_def)
      next
        case f: (Inr f)
        obtain ie sc where ins: "InsertOne orc f s2 = (ie, sc)" by (metis prod.exhaust)
        from InsertOne_distinct[OF ins d2] have "distinct (map Id_file (files sc))" .
        moreover from run g None l Inr hf p f ins have "s' = RemoveAll i sc"
          by (auto simp: IngestMultipartFile_def split: option.splits)
        ultimately show ?thesis by simp
      qed
    qed
  qed
qed

lemma Delete_distinct:
  assumes "Delete cfg orc f s = (res, s')" and "distinct (map Id_file (files s))"
  shows "distinct (map Id_file (files s'))"
  using Delete_files_any[OF assms(1)] assms(2)
  by (auto simp: DeleteOne_filter distinct_map_filter)

lemma GetObject_distinct:
  assumes run: "GetObject t cfg orc f thumbnail s = (res, f', s')"
    and d: "distinct (map Id_file (files s))"
  shows "distinct (map Id_file (files s'))"
proof -
  obtain te f1 s1 where gen: "GenerateThumbnail t cfg orc f s = (te, f1, s1)"
    by (metis prod.exhaust)
  from run have "s' = s \<or> s' = s1"
    unfolding GetObject.simps [of t cfg orc f thumbnail s] gen Let_def
    by (auto split: if_splits option.splits)
  with without_thumbnail_ids[OF GenerateThumbnail_any(4)[OF gen]] d show ?thesis by auto
qed

lemma cleanupFiles_distinct:
  assumes "cleanupFiles cfg orc orcs s = (res, s')" and "distinct (map Id_file (files s))"
  shows "distinct (map Id_file (files s'))"
proof -
  from cleanupFiles_files[OF assms(2) assms(1)] obtain ds
    where "files s' = filter (\<lambda>r. Id_file r \<notin> set ds) (files s)" by blast
  with assms(2) show ?thesis by (simp add: distinct_map_filter)
qed

section \<open>Runs in the small world\<close>

lemmas run_defs = IngestMultipartFile_def generateId_def ReplaceAll_def ingest_lookup_def Mkdir_def
  save_original_def ultra_hd_def FlagUltraHDUploads_def file_hash_def check_blocked_def
  getBlockStatus_def CountDocuments_def existing_file_def FindOne_def ingest_process_def
  ingest_new_def detect_mime_def probe_dimensions_def parse_dimensions_def Split_def Fields_def
  isSpace_def index_def Atoi_def isDigit_def digits_value_def cleanFilename_def
  filename_char_ok_def HasPrefix_def ingest_square_def square_size_def square_cap_def
  ingest_attachment_image_def ingest_attachment_video_def ingest_attachment_other_def
  FPutObject_file_def s3_FPutObject_def render_thumbnail_def thumbnail_format_def
  thumbnail_size_def first_frame_def UpdateMany_thumbnail_mime_def InsertOne_def
  read_scratch_def write_scratch_def remove_scratch_def RemoveAll_def run_on_def convert_on_def
  hashed_bytes_def Let_def

lemma decimal_values:
  "decimal 50 = ''50''" "decimal 100 = ''100''" "decimal 480 = ''480''"
  by (simp_all add: decimal.simps)

lemma prints_values:
  "identify_prints (Suc 0) 100 50 = ''100,50''"
  "identify_prints 10 100 50 = ''100,50100,50100,50100,50100,50100,50100,50100,50100,50100,50''"
  by code_simp+

text \<open>C1: in the branch for icons, emojis and stickers the error of the upload is
  assigned and never read. Here every write to the object store fails: the upload of
  the icon is sent and fails, \<^verbatim>\<open>IngestMultipartFile\<close> still returns the file and no
  error, the document is inserted with size 0, and no object is stored under the
  hash.\<close>

theorem ingest_icon_failed_upload_stored:
  "fst (ex_icon_upload ex_put_fails)
     = (Some (zero_File\<lparr>Id_file := ''Zm9vabcc'', Hash := ''h-PNG'', Bucket := ''icons'',
          Mime := ''image/webp'', Size := 0, Filename := ''me.png'', Width := 256, Height := 128,
          UploadRegion := ''eu'', UploadedBy := ''bob'', UploadedAt := 10000\<rparr>), None)
   \<and> map Id_file (files (snd (ex_icon_upload ex_put_fails))) = [''a'', ''Zm9vabcc'']
   \<and> s3_log (snd (ex_icon_upload ex_put_fails))
       = [FPutObject ''eu'' ''icons'' ''h-PNG'' ''webp-PNG'' ''image/webp'']
   \<and> put_err ex_put_fails ''h-PNG'' = Some (ErrExternal ''no route to host'')
   \<and> s3 (snd (ex_icon_upload ex_put_fails)) ''eu'' (''icons'', ''h-PNG'') = None"
  by (simp add: ex_icon_upload_def ex_defs run_defs)

text \<open>C3: when a document of the same hash and bucket is found, the new document is a
  copy of it in every field but id, file name, uploader and time, so the flag
  \<^verbatim>\<open>claimed\<close> is copied too. Here the document found is claimed, and the new document is
  created with \<^verbatim>\<open>claimed = true\<close>.\<close>

theorem ingest_duplicate_copies_claimed:
  "fst (IngestMultipartFile ex_tools ex_cfg ex_quiet ''attachments'' ''abc'' ''notes.txt''
          (ex_user ''bob'' 0) (ex_state [ex_file ''a'' ''h-abc'' 5 True]))
     = (Some ((ex_file ''a'' ''h-abc'' 5 True)\<lparr>Id_file := ''Zm9vabcc'', Filename := ''notes.txt'',
                 UploadedBy := ''bob'', UploadedAt := 10000\<rparr>), None)
   \<and> Claimed ((ex_file ''a'' ''h-abc'' 5 True)\<lparr>Id_file := ''Zm9vabcc'', Filename := ''notes.txt'',
                 UploadedBy := ''bob'', UploadedAt := 10000\<rparr>) = True
   \<and> files (snd (IngestMultipartFile ex_tools ex_cfg ex_quiet ''attachments'' ''abc'' ''notes.txt''
          (ex_user ''bob'' 0) (ex_state [ex_file ''a'' ''h-abc'' 5 True])))
     = [ex_file ''a'' ''h-abc'' 5 True,
        (ex_file ''a'' ''h-abc'' 5 True)\<lparr>Id_file := ''Zm9vabcc'', Filename := ''notes.txt'',
                 UploadedBy := ''bob'', UploadedAt := 10000\<rparr>]"
  by (simp add: ex_defs run_defs)

text \<open>The same bytes uploaded twice to the same bucket, first by an uploader with the
  Ultra-HD flag, then by one without: both uploads yield a file, the hashes differ, and
  the canonical object is written twice, under two names.\<close>

theorem ingest_twice_flag_counterexample:
  "snd (fst (ex_first 16)) = None \<and> snd (fst (ex_second 16)) = None
   \<and> map Id_file (files (snd (ex_second 16))) = [''a'', ''Zm9vabcc'', ''YmFy'']
   \<and> map Hash (files (snd (ex_second 16))) = [''h1'', ''h-q5-PNG'', ''h-PNG'']
   \<and> s3_log (snd (ex_second 16))
       = [FPutObject ''eu'' ''attachments'' ''h-q5-PNG'' ''opt-q5-PNG'' ''image/png'',
          FPutObject ''eu'' ''attachments'' ''h-q5-PNG_thumbnail'' ''thumb-q5-PNG'' ''image/webp'',
          FPutObject ''eu'' ''attachments'' ''h-PNG'' ''opt-PNG'' ''image/png'',
          FPutObject ''eu'' ''attachments'' ''h-PNG_thumbnail'' ''thumb-PNG'' ''image/webp'']"
  by (simp add: ex_first_def ex_second_def ex_defs run_defs)


text \<open>C9: the height recorded for an animation is not its height, and the box of its
  thumbnail is taken from the recorded sides. \<^verbatim>\<open>identify\<close> prints \<^verbatim>\<open>%w,%h\<close> once per frame
  and \<^verbatim>\<open>IngestMultipartFile\<close> reads the second field of the output split at the commas:
  for an animation of 10 frames of 100 by 50 pixels, uploaded as an attachment, the
  record has width 100 and height 50100. \<^verbatim>\<open>GenerateThumbnail\<close> then asks for the box of
  480 by 480, where \<open>min 480 (max 100 50) = 100\<close>: the thumbnail of this small animation
  is an enlargement.\<close>

theorem ingest_animation_thumbnail_enlarged:
  "identify_wh ex_tools_box ''GIF'' = (identify_prints 10 100 50, None)
   \<and> fst ex_animation_upload
       = (Some (zero_File\<lparr>Id_file := ''Zm9vabcc'', Hash := ''h-GIF'', Bucket := ''attachments'',
            Mime := ''image/gif'', ThumbnailMime := ''image/gif'', Size := 7,
            Filename := ''party.gif'', Width := 100, Height := 50100, UploadRegion := ''eu'',
            UploadedBy := ''bob'', UploadedAt := 10000\<rparr>), None)
   \<and> s3_log (snd ex_animation_upload)
       = [FPutObject ''eu'' ''attachments'' ''h-GIF'' ''opt-GIF'' ''image/gif'',
          FPutObject ''eu'' ''attachments'' ''h-GIF_thumbnail'' ''thumb-480x480-GIF'' ''image/gif'']
   \<and> magick_resize ex_tools_box ''GIF'' (min 480 (max 100 50)) ''gif'' = Inr ''thumb-100x100-GIF''"
  by (simp add: ex_animation_upload_def ex_tools_box_def ex_defs run_defs prints_values
      decimal_values)

lemma stored_result:
  "fst (fst X) \<noteq> None \<Longrightarrow> snd (fst X) = None \<Longrightarrow> X = ((Some (the (fst (fst X))), None), snd X)"
  by (auto simp: prod_eq_iff)

theorem ingest_non_image_unsupported_witness:
  "generateId ex_quiet = (''Zm9vabcc'', None)
   \<and> fst (ingest_lookup ex_tools ex_quiet ''Zm9vabcc'' ''icons'' ''abc'' (ex_user ''bob'' 0)
            (ex_state [ex_file ''a'' ''h1'' 5 False])) = Inr (''h-abc'', zero_File)
   \<and> file_mime_type ex_tools ''abc'' = (''/ingest/original: text/plain'', None)
   \<and> fst ex_text_upload = (None, Some ErrUnsupportedFile)
   \<and> s3_log (snd ex_text_upload) = []
   \<and> s3 (snd ex_text_upload) = ex_objects
   \<and> files (snd ex_text_upload) = [ex_file ''a'' ''h1'' 5 False]"
proof -
  let ?u = "ex_user ''bob'' 0" and ?s = "ex_state [ex_file ''a'' ''h1'' 5 False]"
  let ?l = "ingest_lookup ex_tools ex_quiet ''Zm9vabcc'' ''icons'' ''abc'' ?u ?s"
  have gen: "generateId ex_quiet = (''Zm9vabcc'', None)"
    by (simp add: ex_defs run_defs)
  have l: "fst ?l = Inr (''h-abc'', zero_File)"
    by (simp add: ex_defs run_defs)
  then have lookup: "?l = (Inr (''h-abc'', zero_File), snd ?l)"
    by (simp add: prod_eq_iff)
  have new: "\<forall>r\<in>set (files ?s). \<not> (Hash r = ''h-abc'' \<and> Bucket r = ''icons'')"
    by (simp add: ex_defs)
  have hb: "hashed_bytes ex_tools ?u ''abc'' = ''abc''"
    by (simp add: ex_defs run_defs)
  have m1: "file_mime_type ex_tools (hashed_bytes ex_tools ?u ''abc'') = (''/ingest/original: text/plain'', None)"
    unfolding hb by (simp add: ex_defs HasPrefix_def)
  have m2: "index (Fields ''/ingest/original: text/plain'') 1 = Inr ''text/plain''"
    by (simp add: index_def Fields_def isSpace_def)
  have m3: "\<not> HasPrefix ''text/plain'' ''image/''"
    by (simp add: HasPrefix_def)
  have b: "''icons'' = ''icons'' \<or> ''icons'' = ''emojis'' \<or> ''icons'' = ''stickers''" by simp
  note th = ingest_non_image_unsupported[OF gen lookup new m1 m2 m3 b, of ex_cfg "''notes.txt''"]
  have c1: "fst ex_text_upload = (None, Some ErrUnsupportedFile)"
    unfolding ex_text_upload_def using th by (rule conjunct1)
  have c2: "s3_log (snd ex_text_upload) = []"
    unfolding ex_text_upload_def using th by (simp add: ex_state_def)
  have c3: "s3 (snd ex_text_upload) = ex_objects"
    unfolding ex_text_upload_def using th by (simp add: ex_state_def)
  have c4: "files (snd ex_text_upload) = [ex_file ''a'' ''h1'' 5 False]"
    unfolding ex_text_upload_def using th by (simp add: ex_state_def)
  have m1': "file_mime_type ex_tools ''abc'' = (''/ingest/original: text/plain'', None)"
    using m1 unfolding hb .
  show ?thesis by (intro conjI gen l m1' c1 c2 c3 c4)
qed

theorem ingest_square_format_witness:
  "fst (identify_n ex_tools ''GIF'') = ''10101010101010101010''
   \<and> snd (fst ex_emoji_upload) = None
   \<and> Mime (the (fst (fst ex_emoji_upload))) = ''image/gif''
   \<and> s3_log (snd ex_emoji_upload)
       = [FPutObject ''eu'' ''emojis'' ''h-GIF'' ''gif-GIF'' ''image/gif'']
   \<and> fst (identify_n ex_tools ''PNG'') = ''1''
   \<and> snd (fst (ex_icon_upload ex_quiet)) = None
   \<and> Mime (the (fst (fst (ex_icon_upload ex_quiet)))) = ''image/webp''"
proof -
  let ?u = "ex_user ''bob'' 0" and ?s = "ex_state [ex_file ''a'' ''h1'' 5 False]"
  have b1: "''emojis'' = ''icons'' \<or> ''emojis'' = ''emojis'' \<or> ''emojis'' = ''stickers''"
    and b2: "''icons'' = ''icons'' \<or> ''icons'' = ''emojis'' \<or> ''icons'' = ''stickers''" by simp_all
  have e1: "fst (fst ex_emoji_upload) \<noteq> None" and e2: "snd (fst ex_emoji_upload) = None"
    and eh: "Hash (the (fst (fst ex_emoji_upload))) = ''h-GIF''"
    by (simp_all add: ex_emoji_upload_def ex_defs run_defs)
  have i1: "fst (fst (ex_icon_upload ex_quiet)) \<noteq> None" and i2: "snd (fst (ex_icon_upload ex_quiet)) = None"
    and ih: "Hash (the (fst (fst (ex_icon_upload ex_quiet)))) = ''h-PNG''"
    by (simp_all add: ex_icon_upload_def ex_defs run_defs)
  have newe: "\<forall>r\<in>set (files ?s). \<not> (Hash r = Hash (the (fst (fst ex_emoji_upload))) \<and> Bucket r = ''emojis'')"
    unfolding eh by (simp add: ex_defs)
  have newi: "\<forall>r\<in>set (files ?s). \<not> (Hash r = Hash (the (fst (fst (ex_icon_upload ex_quiet)))) \<and> Bucket r = ''icons'')"
    unfolding ih by (simp add: ex_defs)
  have hg: "hashed_bytes ex_tools ?u ''GIF'' = ''GIF''" and hp: "hashed_bytes ex_tools ?u ''PNG'' = ''PNG''"
    by (simp_all add: ex_defs run_defs)
  have ng: "fst (identify_n ex_tools ''GIF'') = ''10101010101010101010''"
    and np: "fst (identify_n ex_tools ''PNG'') = ''1''"
    by (simp_all add: ex_tools_def HasPrefix_def)
  have ne: "''10101010101010101010'' \<noteq> ''1''" by simp
  note te = ingest_square_format[OF stored_result[OF e1 e2, unfolded ex_emoji_upload_def] newe[unfolded ex_emoji_upload_def] b1,
                folded ex_emoji_upload_def]
  note ti = ingest_square_format[OF stored_result[OF i1 i2, unfolded ex_icon_upload_def] newi[unfolded ex_icon_upload_def] b2,
                folded ex_icon_upload_def]
  have ce: "Mime (the (fst (fst ex_emoji_upload))) = ''image/gif''"
    using te[THEN conjunct1] unfolding hg ng using ne by simp
  have ci: "Mime (the (fst (fst (ex_icon_upload ex_quiet)))) = ''image/webp''"
    using ti[THEN conjunct1] unfolding hp np by simp
  have lg: "s3_log (snd ex_emoji_upload)
       = [FPutObject ''eu'' ''emojis'' ''h-GIF'' ''gif-GIF'' ''image/gif'']"
    by (simp add: ex_emoji_upload_def ex_defs run_defs)
  show ?thesis by (intro conjI ng e2 ce lg np i2 ci)
qed


theorem ingest_twice_same_flag_witness:
  "snd (fst (ex_first 0)) = None \<and> snd (fst (ex_second 0)) = None
   \<and> Id_file (the (fst (fst (ex_first 0)))) \<noteq> Id_file (the (fst (fst (ex_second 0))))
   \<and> Hash (the (fst (fst (ex_second 0)))) = Hash (the (fst (fst (ex_first 0))))
   \<and> Hash (the (fst (fst (ex_first 0)))) = ''h-PNG''
   \<and> s3_log (snd (ex_second 0)) = s3_log (snd (ex_first 0))
   \<and> the (fst (fst (ex_second 0)))
       = (the (fst (fst (ex_first 0))))\<lparr>Id_file := Id_file (the (fst (fst (ex_second 0)))),
            Filename := cleanFilename ''b.png'', UploadedBy := Username (ex_user ''carol'' 0),
            UploadedAt := unix_now ex_later\<rparr>
   \<and> length (filter (canonical_put ''attachments'' (Hash (the (fst (fst (ex_first 0))))))
               (s3_log (snd (ex_second 0))))
       = length (filter (canonical_put ''attachments'' (Hash (the (fst (fst (ex_first 0))))))
               (s3_log (ex_state [ex_file ''a'' ''h1'' 5 False]))) + 1"
proof -
  let ?s = "ex_state [ex_file ''a'' ''h1'' 5 False]"
  have f1: "fst (fst (ex_first 0)) \<noteq> None" and f2: "snd (fst (ex_first 0)) = None"
    and fh: "Hash (the (fst (fst (ex_first 0)))) = ''h-PNG''"
    by (simp_all add: ex_first_def ex_defs run_defs)
  have s1: "fst (fst (ex_second 0)) \<noteq> None" and s2: "snd (fst (ex_second 0)) = None"
    by (simp_all add: ex_second_def ex_first_def ex_defs run_defs)
  have flag: "(Flags (ex_user ''bob'' 0) AND FlagUltraHDUploads \<noteq> 0)
            = (Flags (ex_user ''carol'' 0) AND FlagUltraHDUploads \<noteq> 0)"
    by (simp add: ex_user_def)
  have nodoc: "db_err ex_later ''files.FindOne'' \<noteq> Some ErrNoDocuments"
    by (simp add: ex_later_def ex_quiet_def)
  have new: "\<forall>r\<in>set (files ?s). \<not> (Hash r = Hash (the (fst (fst (ex_first 0)))) \<and> Bucket r = ''attachments'')"
    unfolding fh by (simp add: ex_defs)
  have bk: "''attachments'' \<in> {''icons'', ''emojis'', ''stickers'', ''attachments''}" by simp
  note th = ingest_twice_same_flag[OF stored_result[OF f1 f2, unfolded ex_first_def]
              stored_result[OF s1 s2, unfolded ex_second_def ex_first_def] flag nodoc,
              folded ex_first_def, folded ex_second_def]
  from th have c1: "Id_file (the (fst (fst (ex_first 0)))) \<noteq> Id_file (the (fst (fst (ex_second 0))))"
    and c2: "Hash (the (fst (fst (ex_second 0)))) = Hash (the (fst (fst (ex_first 0))))"
    and c3: "s3_log (snd (ex_second 0)) = s3_log (snd (ex_first 0))"
    by blast+
  from th new bk have c4: "the (fst (fst (ex_second 0)))
       = (the (fst (fst (ex_first 0))))\<lparr>Id_file := Id_file (the (fst (fst (ex_second 0)))),
            Filename := cleanFilename ''b.png'', UploadedBy := Username (ex_user ''carol'' 0),
            UploadedAt := unix_now ex_later\<rparr>"
    and c5: "length (filter (canonical_put ''attachments'' (Hash (the (fst (fst (ex_first 0))))))
               (s3_log (snd (ex_second 0))))
       = length (filter (canonical_put ''attachments'' (Hash (the (fst (fst (ex_first 0))))))
               (s3_log ?s)) + 1"
    by blast+
  show ?thesis by (intro conjI f2 s2 c1 c2 fh c3 c4 c5)
qed

end
